(* ===== verification/Prelude.thy ===== *)
theory Prelude
  imports Complex_Main "HOL-Library.Word" "HOL-Library.AList"
begin

unbundle bit_operations_syntax

text \<open>
  Shared vocabulary of the development: the machine types of the program, errors as
  values, the ordered map of the JavaScript runtime, Unicode text, little-endian integers,
  and the lemmas about them that every component uses.
\<close>

section \<open>Collections of facts\<close>

named_theorems edge_simps \<open>unfolding rules that evaluate the model's operations\<close>
named_theorems edge_splits \<open>case splits on results and options\<close>

section \<open>Machine types\<close>

type_synonym byte = "8 word"
type_synonym bytes = "8 word list"
type_synonym u16 = "16 word"
type_synonym u32 = "32 word"
type_synonym u64 = "64 word"
type_synonym peer_id = "32 word"

text \<open>
  Text is a list of Unicode code points; \<open>ustr\<close> turns an ASCII literal into text. The
  JavaScript length counts UTF-16 units and the Rust length counts UTF-8 bytes.
\<close>

type_synonym ustring = "nat list"

definition ustr :: "string \<Rightarrow> ustring" where
  "ustr s = map of_char s"

definition utf8_width :: "nat \<Rightarrow> nat" where
  "utf8_width c = (if c < 128 then 1 else if c < 2048 then 2 else if c < 65536 then 3 else 4)"

definition utf8_length :: "ustring \<Rightarrow> nat" where
  "utf8_length s = sum_list (map utf8_width s)"

definition js_length :: "ustring \<Rightarrow> nat" where
  "js_length s = sum_list (map (\<lambda>c. if c < 65536 then 1 else 2) s)"

definition utf8_char :: "nat \<Rightarrow> nat list" where
  "utf8_char c =
     (if c < 128 then [c]
      else if c < 2048 then [192 + c div 64, 128 + c mod 64]
      else if c < 65536 then [224 + c div 4096, 128 + c div 64 mod 64, 128 + c mod 64]
      else [240 + c div 262144, 128 + c div 4096 mod 64, 128 + c div 64 mod 64, 128 + c mod 64])"

definition utf8_encode :: "ustring \<Rightarrow> bytes" where
  "utf8_encode s = map of_nat (concat (map utf8_char s))"

lemma length_utf8_encode [simp]: "length (utf8_encode s) = utf8_length s"
  by (induction s) (simp_all add: utf8_encode_def utf8_length_def utf8_char_def utf8_width_def)

lemma utf8_width_pos [simp]: "0 < utf8_width c"
  by (simp add: utf8_width_def)

lemma utf8_length_zero [simp]: "utf8_length s = 0 \<longleftrightarrow> s = []"
  by (cases s) (auto simp: utf8_length_def utf8_width_def)

lemma js_length_zero [simp]: "js_length s = 0 \<longleftrightarrow> s = []"
  by (cases s) (auto simp: js_length_def)

section \<open>Errors as values\<close>

text \<open>
  A thrown JavaScript error or a Rust \<open>Err\<close> is the message literal of the source with the
  numbers it interpolates.
\<close>

datatype js_error = JsError string "nat list"

type_synonym 'a res = "js_error + 'a"

abbreviation raise :: "string \<Rightarrow> 'a res" where
  "raise msg \<equiv> Inl (JsError msg [])"

definition bind_res :: "'a res \<Rightarrow> ('a \<Rightarrow> 'b res) \<Rightarrow> 'b res" where
  "bind_res m f = (case m of Inl e \<Rightarrow> Inl e | Inr x \<Rightarrow> f x)"

definition guard_res :: "bool \<Rightarrow> string \<Rightarrow> 'a res \<Rightarrow> 'a res" where
  "guard_res b msg k = (if b then k else raise msg)"

definition is_ok :: "'a res \<Rightarrow> bool" where
  "is_ok r = (case r of Inl _ \<Rightarrow> False | Inr _ \<Rightarrow> True)"

lemma bind_res_simps [simp]:
  "bind_res (Inl e) f = Inl e"
  "bind_res (Inr x) f = f x"
  by (simp_all add: bind_res_def)

lemma bind_res_eq_Inr [simp]: "bind_res m f = Inr y \<longleftrightarrow> (\<exists>x. m = Inr x \<and> f x = Inr y)"
  by (cases m) auto

lemma guard_res_eq_Inr [simp]: "guard_res b msg k = Inr y \<longleftrightarrow> b \<and> k = Inr y"
  by (simp add: guard_res_def)

lemma guard_res_True [simp]: "guard_res True msg k = k"
  by (simp add: guard_res_def)

lemma guard_res_False [simp]: "guard_res False msg k = raise msg"
  by (simp add: guard_res_def)

lemma is_ok_simps [simp]: "is_ok (Inr x)" "\<not> is_ok (Inl e)"
  by (simp_all add: is_ok_def)

lemma is_ok_conv: "is_ok r \<longleftrightarrow> (\<exists>x. r = Inr x)"
  by (cases r) auto

lemma bind_res_assoc: "bind_res (bind_res m f) g = bind_res m (\<lambda>x. bind_res (f x) g)"
  by (cases m) auto

section \<open>Stateful code that may throw\<close>

text \<open>
  A method that changes a state and may throw: the state at the point of the throw is kept. \<open>st_catch\<close>
  is \<open>try ... catch\<close>.
\<close>

type_synonym ('a, 's) st = "'s \<Rightarrow> 'a res \<times> 's"

definition st_return :: "'a \<Rightarrow> ('a, 's) st" where
  "st_return x s = (Inr x, s)"

definition st_throw :: "js_error \<Rightarrow> ('a, 's) st" where
  "st_throw e s = (Inl e, s)"

definition st_bind :: "('a, 's) st \<Rightarrow> ('a \<Rightarrow> ('b, 's) st) \<Rightarrow> ('b, 's) st" where
  "st_bind m f s = (case m s of (Inl e, s') \<Rightarrow> (Inl e, s') | (Inr x, s') \<Rightarrow> f x s')"

definition st_seq :: "(unit, 's) st \<Rightarrow> ('b, 's) st \<Rightarrow> ('b, 's) st" where
  "st_seq m k = st_bind m (\<lambda>_. k)"

definition st_modify :: "('s \<Rightarrow> 's) \<Rightarrow> (unit, 's) st" where
  "st_modify f s = (Inr (), f s)"

definition st_gets :: "('s \<Rightarrow> 'a) \<Rightarrow> ('a, 's) st" where
  "st_gets f s = (Inr (f s), s)"

definition st_lift :: "'a res \<Rightarrow> ('a, 's) st" where
  "st_lift r s = (r, s)"

definition st_catch :: "('a, 's) st \<Rightarrow> (js_error \<Rightarrow> ('a, 's) st) \<Rightarrow> ('a, 's) st" where
  "st_catch m h s = (case m s of (Inl e, s') \<Rightarrow> h e s' | (Inr x, s') \<Rightarrow> (Inr x, s'))"

text \<open>\<open>try ... finally\<close>: an exception of the second part takes the place of the first one's result.\<close>

definition st_finally :: "('a, 's) st \<Rightarrow> (unit, 's) st \<Rightarrow> ('a, 's) st" where
  "st_finally m k s =
     (let (r, s1) = m s in case k s1 of (Inl e, s2) \<Rightarrow> (Inl e, s2) | (Inr _, s2) \<Rightarrow> (r, s2))"

lemma st_simps [simp]:
  "st_return x s = (Inr x, s)" "st_throw e s = (Inl e, s)" "st_modify f s = (Inr (), f s)"
  "st_gets g s = (Inr (g s), s)" "st_lift r s = (r, s)"
  by (simp_all add: st_return_def st_throw_def st_modify_def st_gets_def st_lift_def)

lemma st_bind_Inr: "st_bind m f s = (Inr y, t) \<longleftrightarrow> (\<exists>x s'. m s = (Inr x, s') \<and> f x s' = (Inr y, t))"
  by (auto simp: st_bind_def split: prod.splits sum.splits)

text \<open>An invariant that a computation keeps, whether it returns or throws.\<close>

definition keeps :: "('s \<Rightarrow> bool) \<Rightarrow> ('a, 's) st \<Rightarrow> bool" where
  "keeps I m \<longleftrightarrow> (\<forall>s. I s \<longrightarrow> I (snd (m s)))"

lemma keeps_basic [intro]: "keeps I (st_return x)" "keeps I (st_throw e)" "keeps I (st_gets g)" "keeps I (st_lift r)"
  by (simp_all add: keeps_def)

lemma keeps_modify [intro]: "(\<And>s. I s \<Longrightarrow> I (f s)) \<Longrightarrow> keeps I (st_modify f)"
  by (simp add: keeps_def)

lemma keeps_bind [intro]: "keeps I m \<Longrightarrow> (\<And>x. keeps I (f x)) \<Longrightarrow> keeps I (st_bind m f)"
  unfolding keeps_def st_bind_def by (auto split: prod.splits sum.splits)

lemma keeps_seq [intro]: "keeps I m \<Longrightarrow> keeps I k \<Longrightarrow> keeps I (st_seq m k)"
  unfolding st_seq_def by (rule keeps_bind)

lemma keeps_finally [intro]: "keeps I m \<Longrightarrow> keeps I k \<Longrightarrow> keeps I (st_finally m k)"
  unfolding keeps_def st_finally_def by (auto split: prod.splits sum.splits)

lemma keeps_catch [intro]: "keeps I m \<Longrightarrow> (\<And>e. keeps I (h e)) \<Longrightarrow> keeps I (st_catch m h)"
  unfolding keeps_def st_catch_def by (auto split: prod.splits sum.splits)

lemma keeps_if [intro]: "(b \<Longrightarrow> keeps I m) \<Longrightarrow> (\<not> b \<Longrightarrow> keeps I k) \<Longrightarrow> keeps I (if b then m else k)"
  by simp

lemma keeps_case_option [intro]:
  "keeps I m \<Longrightarrow> (\<And>x. keeps I (f x)) \<Longrightarrow> keeps I (case r of None \<Rightarrow> m | Some x \<Rightarrow> f x)"
  by (cases r) simp_all

lemma keeps_case_prod [intro]: "(\<And>x y. keeps I (f x y)) \<Longrightarrow> keeps I (case p of (x, y) \<Rightarrow> f x y)"
  by (cases p) simp

text \<open>A view of the state that a computation leaves as it is, whether it returns or throws.\<close>

definition unchanged :: "('s \<Rightarrow> 'b) \<Rightarrow> ('a, 's) st \<Rightarrow> bool" where
  "unchanged v m \<longleftrightarrow> (\<forall>s. v (snd (m s)) = v s)"

lemma unchangedD: "unchanged v m \<Longrightarrow> m s = (r, s') \<Longrightarrow> v s' = v s"
  by (metis unchanged_def snd_conv)

lemma unchanged_basic [intro]:
  "unchanged v (st_return x)" "unchanged v (st_throw e)" "unchanged v (st_gets g)" "unchanged v (st_lift r)"
  by (simp_all add: unchanged_def)

lemma unchanged_modify [intro]: "(\<And>s. v (f s) = v s) \<Longrightarrow> unchanged v (st_modify f)"
  by (simp add: unchanged_def)

lemma unchanged_bind [intro]: "unchanged v m \<Longrightarrow> (\<And>x. unchanged v (f x)) \<Longrightarrow> unchanged v (st_bind m f)"
  unfolding unchanged_def st_bind_def by (auto split: prod.splits sum.splits) (metis snd_conv)+

lemma unchanged_seq [intro]: "unchanged v m \<Longrightarrow> unchanged v k \<Longrightarrow> unchanged v (st_seq m k)"
  unfolding st_seq_def by (rule unchanged_bind)

lemma unchanged_catch [intro]: "unchanged v m \<Longrightarrow> (\<And>e. unchanged v (h e)) \<Longrightarrow> unchanged v (st_catch m h)"
  unfolding unchanged_def st_catch_def by (auto split: prod.splits sum.splits) (metis snd_conv)+

lemma unchanged_if [intro]: "(b \<Longrightarrow> unchanged v m) \<Longrightarrow> (\<not> b \<Longrightarrow> unchanged v k) \<Longrightarrow> unchanged v (if b then m else k)"
  by simp

lemma unchanged_case_prod [intro]: "(\<And>x y. unchanged v (f x y)) \<Longrightarrow> unchanged v (case p of (x, y) \<Rightarrow> f x y)"
  by (cases p) simp

lemma unchanged_finally [intro]: "unchanged v m \<Longrightarrow> unchanged v k \<Longrightarrow> unchanged v (st_finally m k)"
  unfolding unchanged_def st_finally_def by (auto split: prod.splits sum.splits) (metis snd_conv)+

lemma unchanged_keeps: "unchanged v m \<Longrightarrow> keeps (\<lambda>s. P (v s)) m"
  by (simp add: unchanged_def keeps_def)

text \<open>
  Pre- and postconditions: from a state of \<open>P\<close> the computation returns into \<open>Q\<close> or throws into \<open>R\<close>.
\<close>

definition triple :: "('s \<Rightarrow> bool) \<Rightarrow> ('a, 's) st \<Rightarrow> ('a \<Rightarrow> 's \<Rightarrow> bool) \<Rightarrow> ('s \<Rightarrow> bool) \<Rightarrow> bool" where
  "triple P m Q R \<longleftrightarrow> (\<forall>s. P s \<longrightarrow> (case m s of (Inr x, s') \<Rightarrow> Q x s' | (Inl _, s') \<Rightarrow> R s'))"

lemma tripleI: "(\<And>s r s'. P s \<Longrightarrow> m s = (r, s') \<Longrightarrow> (case r of Inr x \<Rightarrow> Q x s' | Inl _ \<Rightarrow> R s')) \<Longrightarrow> triple P m Q R"
  by (auto simp: triple_def split: prod.splits sum.splits)

lemma tripleD: "triple P m Q R \<Longrightarrow> P s \<Longrightarrow> m s = (r, s') \<Longrightarrow> (case r of Inr x \<Rightarrow> Q x s' | Inl _ \<Rightarrow> R s')"
  by (fastforce simp: triple_def split: prod.splits sum.splits)

lemma triple_weaken:
  assumes "triple P m Q R" "\<And>s. P' s \<Longrightarrow> P s" "\<And>x s. Q x s \<Longrightarrow> Q' x s" "\<And>s. R s \<Longrightarrow> R' s"
  shows "triple P' m Q' R'"
  using assms by (fastforce simp: triple_def split: prod.splits sum.splits)

lemma triple_return: "triple (Q x) (st_return x) Q R"
  by (simp add: triple_def)

lemma triple_throw: "triple R (st_throw e) Q R"
  by (simp add: triple_def)

lemma triple_gets: "triple (\<lambda>s. Q (f s) s) (st_gets f) Q R"
  by (simp add: triple_def)

lemma triple_modify: "triple (\<lambda>s. Q () (f s)) (st_modify f) Q R"
  by (simp add: triple_def)

lemma triple_lift: "(\<And>x. r = Inr x \<Longrightarrow> triple P (st_return x) Q R) \<Longrightarrow> (\<And>s. P s \<Longrightarrow> R s) \<Longrightarrow> triple P (st_lift r) Q R"
  by (cases r) (auto simp: triple_def)

lemma triple_bind:
  "triple P m M R \<Longrightarrow> (\<And>x. triple (M x) (f x) Q R) \<Longrightarrow> triple P (st_bind m f) Q R"
  by (fastforce simp: triple_def st_bind_def split: prod.splits sum.splits)

lemma triple_seq: "triple P m (\<lambda>_. M) R \<Longrightarrow> triple M k Q R \<Longrightarrow> triple P (st_seq m k) Q R"
  unfolding st_seq_def by (rule triple_bind)

lemma triple_catch: "triple P m Q M \<Longrightarrow> (\<And>e. triple M (h e) Q R) \<Longrightarrow> triple P (st_catch m h) Q R"
  by (fastforce simp: triple_def st_catch_def split: prod.splits sum.splits)

lemma triple_if: "(b \<Longrightarrow> triple P m Q R) \<Longrightarrow> (\<not> b \<Longrightarrow> triple P k Q R) \<Longrightarrow> triple P (if b then m else k) Q R"
  by simp

lemma triple_option:
  "(r = None \<Longrightarrow> triple P m Q R) \<Longrightarrow> (\<And>x. r = Some x \<Longrightarrow> triple P (f x) Q R) \<Longrightarrow>
     triple P (case r of None \<Rightarrow> m | Some x \<Rightarrow> f x) Q R"
  by (cases r) simp_all

lemma triple_finally: "triple P m (\<lambda>_. M) M \<Longrightarrow> keeps M k \<Longrightarrow> triple P (st_finally m k) (\<lambda>_. M) M"
  unfolding triple_def keeps_def st_finally_def by (fastforce split: prod.splits sum.splits)

lemma triple_keeps: "keeps I m \<Longrightarrow> triple I m (\<lambda>_. I) I"
  by (auto simp: triple_def keeps_def split: prod.splits sum.splits)

lemma triple_unchanged: "unchanged v m \<Longrightarrow> triple (\<lambda>s. P (v s)) m (\<lambda>_ s. P (v s)) (\<lambda>s. P (v s))"
  by (auto simp: triple_def unchanged_def split: prod.splits sum.splits) (metis snd_conv)+

section \<open>Bytes\<close>

text \<open>Reading a typed array outside its bounds gives \<open>undefined\<close>, which bit operators read as 0.\<close>

definition byte_at :: "bytes \<Rightarrow> nat \<Rightarrow> byte" where
  "byte_at bs i = (if i < length bs then bs ! i else 0)"

definition u32_from_le_bytes :: "byte \<Rightarrow> byte \<Rightarrow> byte \<Rightarrow> byte \<Rightarrow> u32" where
  "u32_from_le_bytes b0 b1 b2 b3 =
     ucast b0 + ucast b1 * 2 ^ 8 + ucast b2 * 2 ^ 16 + ucast b3 * 2 ^ 24"

definition u32_to_le_bytes :: "u32 \<Rightarrow> bytes" where
  "u32_to_le_bytes w = [ucast w, ucast (drop_bit 8 w), ucast (drop_bit 16 w), ucast (drop_bit 24 w)]"

definition u16_from_le_bytes :: "byte \<Rightarrow> byte \<Rightarrow> u16" where
  "u16_from_le_bytes b0 b1 = ucast b0 + ucast b1 * 2 ^ 8"

lemma length_u32_to_le_bytes [simp]: "length (u32_to_le_bytes w) = 4"
  by (simp add: u32_to_le_bytes_def)

lemma byte_bit_high: "8 \<le> n \<Longrightarrow> \<not> bit (b :: byte) n"
  using bit_imp_le_length [of b n] by auto

lemma unat_byte_less [simp]: "unat (b :: byte) < 256"
  using unsigned_less [of b] by simp

lemma u32_or_conv:
  fixes b0 b1 b2 b3 :: byte
  shows "(ucast b0 OR push_bit 8 (ucast b1) OR push_bit 16 (ucast b2) OR push_bit 24 (ucast b3) :: u32)
    = u32_from_le_bytes b0 b1 b2 b3"
proof -
  have "(ucast b0 + push_bit 8 (ucast b1) :: u32) = ucast b0 OR push_bit 8 (ucast b1)"
    by (rule disjunctive_add) (auto simp: bit_simps byte_bit_high)
  moreover have "(ucast b0 OR push_bit 8 (ucast b1)) + push_bit 16 (ucast b2)
      = (ucast b0 OR push_bit 8 (ucast b1) OR push_bit 16 (ucast b2) :: u32)"
    by (subst disjunctive_add) (auto simp: bit_simps byte_bit_high or.assoc)
  moreover have "(ucast b0 OR push_bit 8 (ucast b1) OR push_bit 16 (ucast b2)) + push_bit 24 (ucast b3)
      = (ucast b0 OR push_bit 8 (ucast b1) OR push_bit 16 (ucast b2) OR push_bit 24 (ucast b3) :: u32)"
    by (subst disjunctive_add) (auto simp: bit_simps byte_bit_high or.assoc)
  ultimately show ?thesis
    by (simp add: u32_from_le_bytes_def push_bit_eq_mult)
qed

lemma u32_bytes_or_id:
  fixes w :: u32
  shows "(ucast (ucast w :: byte) OR push_bit 8 (ucast (ucast (drop_bit 8 w) :: byte))
     OR push_bit 16 (ucast (ucast (drop_bit 16 w) :: byte))
     OR push_bit 24 (ucast (ucast (drop_bit 24 w) :: byte))) = w"
    (is "?l = w")
proof (rule bit_word_eqI)
  fix n
  assume "n < LENGTH(32)"
  then show "bit ?l n = bit w n"
    by (cases "n < 8"; cases "n < 16"; cases "n < 24"; simp add: bit_simps) auto
qed

lemma u32_from_to_le_bytes [simp]:
  "u32_from_le_bytes (ucast w) (ucast (drop_bit 8 w)) (ucast (drop_bit 16 w)) (ucast (drop_bit 24 w)) = w"
  using u32_bytes_or_id [of w] by (simp add: u32_or_conv)

lemma u32_to_from_le_bytes [simp]:
  "u32_to_le_bytes (u32_from_le_bytes b0 b1 b2 b3) = [b0, b1, b2, b3]"
  unfolding u32_or_conv [symmetric] u32_to_le_bytes_def
  by (auto intro!: bit_word_eqI simp: bit_simps byte_bit_high)

lemma snd_eq_pair: "snd x = y \<Longrightarrow> x = (fst x, y)"
  by (cases x) simp

section \<open>Reachable states\<close>

inductive reach :: "('s \<Rightarrow> bool) \<Rightarrow> ('s \<Rightarrow> 's \<Rightarrow> bool) \<Rightarrow> 's \<Rightarrow> bool" for init step where
  reach_init: "init s \<Longrightarrow> reach init step s"
| reach_step: "reach init step s \<Longrightarrow> step s s' \<Longrightarrow> reach init step s'"

text \<open>An invariant of a step relation holds in every reachable state.\<close>

locale transition_system =
  fixes init :: "'s \<Rightarrow> bool" and step :: "'s \<Rightarrow> 's \<Rightarrow> bool" and inv :: "'s \<Rightarrow> bool"
  assumes inv_init: "init s \<Longrightarrow> inv s"
    and inv_step: "inv s \<Longrightarrow> step s s' \<Longrightarrow> inv s'"
begin

lemma reach_inv: "reach init step s \<Longrightarrow> inv s"
  by (induction rule: reach.induct) (auto intro: inv_init inv_step)

end

end
