(* ===== verification/Packet.thy ===== *)
theory Packet
  imports Prelude
begin

unbundle bit_operations_syntax

text \<open>
  The EasyTier frame: a 16-byte little-endian peer-manager header and a payload. The
  TypeScript operations of \<^verbatim>\<open>src/core/packet.ts\<close> come first, then the Rust operations of
  \<^verbatim>\<open>wasm/src/packet.rs\<close>, and then how the two agree. Rust lengths are \<open>usize\<close>, 32 bits wide on
  the \<^verbatim>\<open>wasm32\<close> target, whose release build wraps on overflow.
\<close>

section \<open>Constants\<close>

definition EASYTIER_HEADER_SIZE :: nat where "EASYTIER_HEADER_SIZE = 16"
definition EASYTIER_AEAD_TAIL_SIZE :: nat where "EASYTIER_AEAD_TAIL_SIZE = 28"
definition MAX_FORWARD_HOPS :: byte where "MAX_FORWARD_HOPS = 7"
definition SERVER_PEER_ID :: peer_id where "SERVER_PEER_ID = 10000001"
definition ENCRYPTED_FLAG :: byte where "ENCRYPTED_FLAG = 1"

datatype packet_type =
    Data | Handshake | Ping | Pong | RpcReq | RpcResp | NoiseHandshakeMsg1 | NoiseHandshakeMsg3

fun pt_code :: "packet_type \<Rightarrow> byte" where
  "pt_code Data = 1"
| "pt_code Handshake = 2"
| "pt_code Ping = 4"
| "pt_code Pong = 5"
| "pt_code RpcReq = 8"
| "pt_code RpcResp = 9"
| "pt_code NoiseHandshakeMsg1 = 13"
| "pt_code NoiseHandshakeMsg3 = 15"

definition PACKET_TYPE_FOREIGN_NETWORK :: byte where "PACKET_TYPE_FOREIGN_NETWORK = 10"

lemmas packet_consts [edge_simps] =
  EASYTIER_HEADER_SIZE_def EASYTIER_AEAD_TAIL_SIZE_def MAX_FORWARD_HOPS_def ENCRYPTED_FLAG_def
  PACKET_TYPE_FOREIGN_NETWORK_def

section \<open>The TypeScript operations\<close>

record packet_header =
  fromPeerId :: u32
  toPeerId :: u32
  packetType :: byte
  flags :: byte
  forwardCounter :: byte
  reserved :: byte
  payloadLength :: u32

record packet =
  header :: packet_header
  payload :: bytes

definition readU32 :: "bytes \<Rightarrow> nat \<Rightarrow> u32" where
  "readU32 bs offset =
     (ucast (byte_at bs offset)
      OR push_bit 8 (ucast (byte_at bs (offset + 1)))
      OR push_bit 16 (ucast (byte_at bs (offset + 2)))
      OR push_bit 24 (ucast (byte_at bs (offset + 3))))"

definition writeU32 :: "bytes \<Rightarrow> nat \<Rightarrow> u32 \<Rightarrow> bytes" where
  "writeU32 bs offset v =
     bs[offset := ucast v,
        offset + 1 := ucast (drop_bit 8 v),
        offset + 2 := ucast (drop_bit 16 v),
        offset + 3 := ucast (drop_bit 24 v)]"

definition parsePacket :: "bytes \<Rightarrow> packet res" where
  "parsePacket bs =
     (if length bs < EASYTIER_HEADER_SIZE
      then Inl (JsError ''EasyTier packet header too short'' [length bs, EASYTIER_HEADER_SIZE])
      else
        let flg = byte_at bs 9;
            len = readU32 bs 12;
            actual = length bs - EASYTIER_HEADER_SIZE;
            expected = unat len + (if flg AND ENCRYPTED_FLAG = 0 then 0 else EASYTIER_AEAD_TAIL_SIZE)
        in if actual \<noteq> expected
           then Inl (JsError ''payload length mismatch'' [actual, expected])
           else Inr \<lparr>header = \<lparr>fromPeerId = readU32 bs 0, toPeerId = readU32 bs 4,
                       packetType = byte_at bs 8, flags = flg, forwardCounter = byte_at bs 10,
                       reserved = byte_at bs 11, payloadLength = len\<rparr>,
                     payload = drop EASYTIER_HEADER_SIZE bs\<rparr>)"

text \<open>\<open>Uint8Array.prototype.set\<close>: the source overwrites the target from the offset on.\<close>

definition u8_set :: "bytes \<Rightarrow> bytes \<Rightarrow> nat \<Rightarrow> bytes" where
  "u8_set target source offset = take offset target @ source @ drop (offset + length source) target"

definition createPacket :: "u32 \<Rightarrow> u32 \<Rightarrow> byte \<Rightarrow> bytes \<Rightarrow> bytes res" where
  "createPacket fromPeer toPeer ptype pl =
     (if length pl > 4294967295 then raise ''packet payload exceeds the EasyTier u32 length''
      else
        let p0 = replicate (EASYTIER_HEADER_SIZE + length pl) 0;
            p1 = writeU32 p0 0 fromPeer;
            p2 = writeU32 p1 4 toPeer;
            p3 = p2[8 := ptype, 9 := 0, 10 := 1, 11 := 0];
            p4 = writeU32 p3 12 (of_nat (length pl))
        in Inr (u8_set p4 pl EASYTIER_HEADER_SIZE))"

definition incrementForwardCounter :: "bytes \<Rightarrow> bytes res" where
  "incrementForwardCounter frame =
     (if length frame < EASYTIER_HEADER_SIZE then raise ''EasyTier packet header too short''
      else let counter = byte_at frame 10
           in if counter > MAX_FORWARD_HOPS then raise ''EasyTier forwarding hop limit exceeded''
              else Inr (frame[10 := counter + 1]))"

definition createPong :: "bytes \<Rightarrow> bytes res" where
  "createPong frame =
     (if length frame < EASYTIER_HEADER_SIZE \<or> byte_at frame 8 \<noteq> pt_code Ping
      then raise ''only an EasyTier Ping packet can become Pong''
      else Inr (frame[8 := pt_code Pong]))"

definition RELAY_DATA_PLANE_TYPES :: "byte list" where
  "RELAY_DATA_PLANE_TYPES = [1, 11, 12, 16, 17, 18, 19]"

datatype ws_data = WsText ustring | WsBinary bytes

definition toUint8Array :: "ws_data \<Rightarrow> bytes res" where
  "toUint8Array d =
     (case d of WsText _ \<Rightarrow> raise ''EasyTier accepts binary WebSocket messages only''
      | WsBinary bs \<Rightarrow> Inr bs)"

section \<open>The Rust operations\<close>

record rs_header =
  from_peer_id :: u32
  to_peer_id :: u32
  packet_type :: byte
  rs_flags :: byte
  forward_counter :: byte
  rs_reserved :: byte
  rs_len :: u32

definition from_bytes :: "bytes \<Rightarrow> rs_header res" where
  "from_bytes bs =
     (if length bs < EASYTIER_HEADER_SIZE
      then Inl (JsError ''header too short'' [length bs, EASYTIER_HEADER_SIZE])
      else let b = take EASYTIER_HEADER_SIZE bs
           in Inr \<lparr>from_peer_id = u32_from_le_bytes (b ! 0) (b ! 1) (b ! 2) (b ! 3),
                   to_peer_id = u32_from_le_bytes (b ! 4) (b ! 5) (b ! 6) (b ! 7),
                   packet_type = b ! 8, rs_flags = b ! 9, forward_counter = b ! 10,
                   rs_reserved = b ! 11,
                   rs_len = u32_from_le_bytes (b ! 12) (b ! 13) (b ! 14) (b ! 15)\<rparr>)"

definition to_bytes :: "rs_header \<Rightarrow> bytes" where
  "to_bytes h = u32_to_le_bytes (from_peer_id h) @ u32_to_le_bytes (to_peer_id h)
     @ [packet_type h, rs_flags h, forward_counter h, rs_reserved h] @ u32_to_le_bytes (rs_len h)"

definition parse_packet :: "bytes \<Rightarrow> rs_header res" where
  "parse_packet bs =
     bind_res (from_bytes bs) (\<lambda>h.
       let payload_len = (of_nat (length bs - EASYTIER_HEADER_SIZE) :: u32);
           expected_len = rs_len h +
             (if rs_flags h AND ENCRYPTED_FLAG = 0 then 0 else of_nat EASYTIER_AEAD_TAIL_SIZE)
       in if payload_len \<noteq> expected_len
          then Inl (JsError ''payload length mismatch'' [unat payload_len, unat expected_len])
          else Inr h)"

definition inspect_packet :: "bytes \<Rightarrow> u32 list res" where
  "inspect_packet bs =
     bind_res (parse_packet bs) (\<lambda>h. Inr [from_peer_id h, to_peer_id h, ucast (packet_type h),
       ucast (rs_flags h), ucast (forward_counter h), ucast (rs_reserved h), rs_len h])"

definition build_packet :: "u32 \<Rightarrow> u32 \<Rightarrow> byte \<Rightarrow> bytes \<Rightarrow> bytes res" where
  "build_packet fromP toP ptype pl =
     (if length pl > 4294967295 then raise ''packet payload exceeds the EasyTier u32 length''
      else Inr (to_bytes \<lparr>from_peer_id = fromP, to_peer_id = toP, packet_type = ptype, rs_flags = 0,
                  forward_counter = 1, rs_reserved = 0, rs_len = of_nat (length pl)\<rparr> @ pl))"

definition prepare_forward :: "bytes \<Rightarrow> bytes res" where
  "prepare_forward bs =
     bind_res (parse_packet bs) (\<lambda>h.
       if forward_counter h > MAX_FORWARD_HOPS then raise ''EasyTier forwarding hop limit exceeded''
       else Inr (bs[10 := forward_counter h + 1]))"

definition prepare_pong :: "bytes \<Rightarrow> bytes res" where
  "prepare_pong bs =
     bind_res (parse_packet bs) (\<lambda>h.
       if packet_type h \<noteq> 4 then raise ''only an EasyTier Ping packet can become Pong''
       else Inr (bs[8 := 5]))"

definition is_data_plane_packet_type :: "byte \<Rightarrow> bool" where
  "is_data_plane_packet_type t \<longleftrightarrow>
     t = 1 \<or> t = 11 \<or> t = 12 \<or> t = 16 \<or> t = 17 \<or> t = 18 \<or> t = 19"

definition is_relay_data_packet_type :: "byte \<Rightarrow> bool" where
  "is_relay_data_packet_type t \<longleftrightarrow> is_data_plane_packet_type t \<or> t = PACKET_TYPE_FOREIGN_NETWORK"

definition FOREIGN_HEADER_MIN_LEN :: nat where "FOREIGN_HEADER_MIN_LEN = 10"

text \<open>\<open>slice.get(i..)\<close> and \<open>slice.get(..n)\<close>: \<open>None\<close> outside the slice.\<close>

definition get_from :: "bytes \<Rightarrow> nat \<Rightarrow> bytes option" where
  "get_from bs i = (if i \<le> length bs then Some (drop i bs) else None)"

definition get_to :: "bytes \<Rightarrow> nat \<Rightarrow> bytes option" where
  "get_to bs n = (if n \<le> length bs then Some (take n bs) else None)"

definition foreign_network_inner_packet_type :: "bytes \<Rightarrow> byte option" where
  "foreign_network_inner_packet_type bs =
     Option.bind (get_from bs EASYTIER_HEADER_SIZE) (\<lambda>pl.
     Option.bind (get_to pl FOREIGN_HEADER_MIN_LEN) (\<lambda>fixed.
       let header_len = unat (u16_from_le_bytes (fixed ! 0) (fixed ! 1))
       in if header_len < FOREIGN_HEADER_MIN_LEN \<or> header_len > length pl then None
          else Option.bind (get_from pl header_len) (\<lambda>inner.
               Option.bind (get_to inner EASYTIER_HEADER_SIZE) (\<lambda>inner_header.
               Some (inner_header ! 8)))))"

definition is_relay_data_packet :: "bytes \<Rightarrow> bool res" where
  "is_relay_data_packet bs =
     bind_res (from_bytes bs) (\<lambda>h.
       if packet_type h = PACKET_TYPE_FOREIGN_NETWORK
       then Inr (case foreign_network_inner_packet_type bs of
                   None \<Rightarrow> True | Some t \<Rightarrow> is_relay_data_packet_type t)
       else Inr (is_data_plane_packet_type (packet_type h)))"

text \<open>The TypeScript fast path: only a foreign-network packet crosses into WASM.\<close>

definition isRelayDataPacket :: "bytes \<Rightarrow> bool res" where
  "isRelayDataPacket frame =
     (if length frame \<ge> EASYTIER_HEADER_SIZE \<and> byte_at frame 8 \<noteq> PACKET_TYPE_FOREIGN_NETWORK
      then Inr (byte_at frame 8 \<in> set RELAY_DATA_PLANE_TYPES)
      else is_relay_data_packet frame)"

section \<open>Library lemmas\<close>

lemma readU32_conv:
  "readU32 bs i = u32_from_le_bytes (byte_at bs i) (byte_at bs (i + 1)) (byte_at bs (i + 2)) (byte_at bs (i + 3))"
  by (simp only: readU32_def u32_or_conv)

lemma length_writeU32 [simp]: "length (writeU32 bs i v) = length bs"
  by (simp add: writeU32_def)

lemma byte_at_nth [simp]: "i < length bs \<Longrightarrow> byte_at bs i = bs ! i"
  by (simp add: byte_at_def)

lemma byte_at_take: "i < n \<Longrightarrow> byte_at (take n bs) i = byte_at bs i"
  by (simp add: byte_at_def)

lemma byte_at_append_left: "i < length xs \<Longrightarrow> byte_at (xs @ ys) i = byte_at xs i"
  by (simp add: byte_at_def nth_append)

text \<open>The header the TypeScript parser reads, in the fields of the Rust struct.\<close>

definition rs_of_ts :: "packet_header \<Rightarrow> rs_header" where
  "rs_of_ts h = \<lparr>from_peer_id = fromPeerId h, to_peer_id = toPeerId h, packet_type = packetType h,
     rs_flags = flags h, forward_counter = forwardCounter h, rs_reserved = reserved h,
     rs_len = payloadLength h\<rparr>"

definition header_of :: "bytes \<Rightarrow> packet_header" where
  "header_of bs = \<lparr>fromPeerId = readU32 bs 0, toPeerId = readU32 bs 4, packetType = byte_at bs 8,
     flags = byte_at bs 9, forwardCounter = byte_at bs 10, reserved = byte_at bs 11,
     payloadLength = readU32 bs 12\<rparr>"

definition tail_size :: "packet_header \<Rightarrow> nat" where
  "tail_size h = (if flags h AND ENCRYPTED_FLAG = 0 then 0 else EASYTIER_AEAD_TAIL_SIZE)"

lemma parsePacket_eq_Inr:
  "parsePacket bs = Inr p \<longleftrightarrow>
     EASYTIER_HEADER_SIZE \<le> length bs \<and> header p = header_of bs \<and> payload p = drop EASYTIER_HEADER_SIZE bs
     \<and> length (payload p) = unat (payloadLength (header p)) + tail_size (header p)"
  by (cases p) (auto simp: parsePacket_def header_of_def tail_size_def Let_def)

lemma from_bytes_conv:
  "EASYTIER_HEADER_SIZE \<le> length bs \<Longrightarrow> from_bytes bs = Inr (rs_of_ts (header_of bs))"
  by (auto simp: from_bytes_def rs_of_ts_def header_of_def readU32_conv EASYTIER_HEADER_SIZE_def
      byte_at_def numeral_2_eq_2)

lemma from_bytes_eq_Inr:
  "from_bytes bs = Inr h \<longleftrightarrow> EASYTIER_HEADER_SIZE \<le> length bs \<and> h = rs_of_ts (header_of bs)"
proof (cases "EASYTIER_HEADER_SIZE \<le> length bs")
  case False
  then show ?thesis by (simp add: from_bytes_def)
qed (auto simp: from_bytes_conv)

lemma to_bytes_length [simp]: "length (to_bytes h) = EASYTIER_HEADER_SIZE"
  by (simp add: to_bytes_def EASYTIER_HEADER_SIZE_def)

lemma from_bytes_to_bytes [simp]: "from_bytes (to_bytes h @ pl) = Inr h"
  by (simp add: from_bytes_def to_bytes_def u32_to_le_bytes_def EASYTIER_HEADER_SIZE_def)

lemma parse_packet_eq_Inr:
  assumes "length bs < 2 ^ 32"
  shows "parse_packet bs = Inr h \<longleftrightarrow>
    EASYTIER_HEADER_SIZE \<le> length bs \<and> h = rs_of_ts (header_of bs) \<and>
    length bs - EASYTIER_HEADER_SIZE =
      (unat (payloadLength (header_of bs)) + tail_size (header_of bs)) mod 2 ^ 32"
proof -
  let ?h = "header_of bs"
  have *: "(of_nat (length bs - EASYTIER_HEADER_SIZE) = (of_nat (unat (payloadLength ?h) + tail_size ?h) :: u32))
      \<longleftrightarrow> length bs - EASYTIER_HEADER_SIZE = (unat (payloadLength ?h) + tail_size ?h) mod 2 ^ 32"
    using assms by (simp only: word_of_nat_eq_iff take_bit_eq_mod) simp
  show ?thesis
    using * by (auto simp: parse_packet_def Let_def from_bytes_eq_Inr rs_of_ts_def tail_size_def
        simp del: of_nat_diff split: if_splits)
qed

lemma header_of_upd_counter:
  "EASYTIER_HEADER_SIZE \<le> length bs \<Longrightarrow> header_of (bs[10 := c]) = (header_of bs)\<lparr>forwardCounter := c\<rparr>"
  by (simp add: header_of_def readU32_def byte_at_def EASYTIER_HEADER_SIZE_def)

lemma header_of_upd_type:
  "EASYTIER_HEADER_SIZE \<le> length bs \<Longrightarrow> header_of (bs[8 := c]) = (header_of bs)\<lparr>packetType := c\<rparr>"
  by (simp add: header_of_def readU32_def byte_at_def EASYTIER_HEADER_SIZE_def)

lemma tail_size_update [simp]:
  "tail_size (h\<lparr>forwardCounter := c\<rparr>) = tail_size h"
  "tail_size (h\<lparr>packetType := c\<rparr>) = tail_size h"
  by (simp_all add: tail_size_def)

lemma header_of_fields:
  "forwardCounter (header_of bs) = byte_at bs 10" "packetType (header_of bs) = byte_at bs 8"
  "flags (header_of bs) = byte_at bs 9"
  by (simp_all add: header_of_def)

lemma zero_header:
  "replicate (16 + n) (0 :: byte) = [0, 0, 0, 0, 0, 0, 0, 0, 0, 0, 0, 0, 0, 0, 0, 0] @ replicate n 0"
  by (simp add: replicate_add numeral_eq_Suc)

lemma createPacket_conv:
  "length pl \<le> 4294967295 \<Longrightarrow> createPacket f t ty pl =
     Inr (u32_to_le_bytes f @ u32_to_le_bytes t @ [ty, 0, 1, 0] @ u32_to_le_bytes (of_nat (length pl)) @ pl)"
  by (simp add: createPacket_def Let_def writeU32_def u8_set_def u32_to_le_bytes_def
      EASYTIER_HEADER_SIZE_def zero_header)

lemma incrementForwardCounter_eq_Inr:
  "incrementForwardCounter frame = Inr out \<longleftrightarrow>
     EASYTIER_HEADER_SIZE \<le> length frame \<and> byte_at frame 10 \<le> MAX_FORWARD_HOPS \<and>
     out = frame[10 := byte_at frame 10 + 1]"
  by (auto simp: incrementForwardCounter_def Let_def)

text \<open>Passing a frame through \<open>n\<close> relays, each of which increments its counter.\<close>

fun forward_hops :: "nat \<Rightarrow> bytes \<Rightarrow> bytes res" where
  "forward_hops 0 frame = Inr frame"
| "forward_hops (Suc n) frame = bind_res (incrementForwardCounter frame) (forward_hops n)"

lemma forward_hops_ok:
  "EASYTIER_HEADER_SIZE \<le> length frame \<Longrightarrow>
   is_ok (forward_hops n frame) \<longleftrightarrow> n = 0 \<or> unat (byte_at frame 10) + n \<le> 8"
proof (induction n arbitrary: frame)
  case 0
  then show ?case by simp
next
  case (Suc n)
  let ?c = "byte_at frame 10"
  let ?f = "frame[10 := ?c + 1]"
  have len: "10 < length frame" using Suc.prems by (simp add: EASYTIER_HEADER_SIZE_def)
  show ?case
  proof (cases "?c \<le> MAX_FORWARD_HOPS")
    case True
    then have c: "unat ?c \<le> 7"
      by (simp add: MAX_FORWARD_HOPS_def word_le_nat_alt)
    then have "unat (?c + 1) = unat ?c + 1"
      by (simp add: unat_word_ariths)
    moreover have "byte_at ?f 10 = ?c + 1" using len by (simp add: byte_at_def)
    moreover have "incrementForwardCounter frame = Inr ?f"
      using True Suc.prems by (simp add: incrementForwardCounter_eq_Inr)
    ultimately show ?thesis
      using Suc.IH [of ?f] Suc.prems c by auto
  next
    case False
    then have "8 \<le> unat ?c" by (simp add: MAX_FORWARD_HOPS_def word_le_nat_alt)
    moreover have "\<not> is_ok (forward_hops (Suc n) frame)"
      using False Suc.prems by (simp add: incrementForwardCounter_def Let_def not_le)
    ultimately show ?thesis by simp
  qed
qed

section \<open>Properties\<close>

text \<open>
  C25. The two header parsers agree: wherever the declared length and the AEAD tail fit the 32-bit
  length arithmetic of the WASM core, \<open>parse_packet\<close> accepts exactly the frames \<open>parsePacket\<close>
  accepts and reads the same header fields.
\<close>

theorem parsers_agree:
  assumes "length bs < 2 ^ 32"
    and "unat (payloadLength (header_of bs)) + tail_size (header_of bs) < 2 ^ 32"
  shows "(case parsePacket bs of
            Inl _ \<Rightarrow> \<not> is_ok (parse_packet bs)
          | Inr p \<Rightarrow> parse_packet bs = Inr (rs_of_ts (header p)) \<and> payload p = drop 16 bs)"
proof (cases "parsePacket bs")
  case (Inl e)
  have "\<not> (\<exists>p. parsePacket bs = Inr p)" using Inl by simp
  then have "\<not> (EASYTIER_HEADER_SIZE \<le> length bs \<and>
      length bs - EASYTIER_HEADER_SIZE = unat (payloadLength (header_of bs)) + tail_size (header_of bs))"
    unfolding parsePacket_eq_Inr by (metis length_drop packet.select_convs)
  then show ?thesis
    using Inl assms by (auto simp: is_ok_conv parse_packet_eq_Inr)
next
  case (Inr p)
  then have "EASYTIER_HEADER_SIZE \<le> length bs" "header p = header_of bs" "payload p = drop 16 bs"
    "length bs - EASYTIER_HEADER_SIZE = unat (payloadLength (header_of bs)) + tail_size (header_of bs)"
    by (auto simp: parsePacket_eq_Inr EASYTIER_HEADER_SIZE_def)
  with Inr assms show ?thesis by (simp add: parse_packet_eq_Inr)
qed

definition sample_frame :: bytes where
  "sample_frame = [1, 0, 0, 0, 129, 150, 152, 0, 8, 0, 1, 0, 2, 0, 0, 0, 7, 9]"

lemma sample_frame_eval [simp]:
  "length sample_frame = 18"
  "header_of sample_frame = \<lparr>fromPeerId = 1, toPeerId = 10000001, packetType = 8, flags = 0,
     forwardCounter = 1, reserved = 0, payloadLength = 2\<rparr>"
  "parsePacket sample_frame = Inr \<lparr>header = header_of sample_frame, payload = [7, 9]\<rparr>"
  by (simp_all add: sample_frame_def header_of_def readU32_def byte_at_def parsePacket_def edge_simps)

theorem parsers_agree_witness:
  "length sample_frame < 2 ^ 32 \<and> parse_packet sample_frame = Inr (rs_of_ts (header_of sample_frame))"
proof -
  have "length sample_frame < 2 ^ 32"
    and "unat (payloadLength (header_of sample_frame)) + tail_size (header_of sample_frame) < 2 ^ 32"
    by (simp_all add: tail_size_def)
  from parsers_agree [OF this] show ?thesis by simp
qed

definition wrap_frame :: bytes where
  "wrap_frame = [1, 0, 0, 0, 2, 0, 0, 0, 8, 1, 1, 0, 240, 255, 255, 255,
     0, 0, 0, 0, 0, 0, 0, 0, 0, 0, 0, 0]"

text \<open>
  The parsers are not the same function: on the 32-bit target the expected length wraps, so an
  encrypted frame that declares a length of \<open>0xfffffff0\<close> and carries 12 payload bytes is accepted
  by \<open>parse_packet\<close> and rejected by \<open>parsePacket\<close>.
\<close>

theorem parsers_diverge_on_wrap:
  "is_ok (parse_packet wrap_frame) \<and> parsePacket wrap_frame = Inl (JsError ''payload length mismatch'' [12, 4294967308])"
  by (simp add: wrap_frame_def parse_packet_def from_bytes_def parsePacket_def readU32_def
      u32_from_le_bytes_def edge_simps)

text \<open>
  C26. A control frame built by the host parses back to the fields it was built from, and the host
  builds byte for byte what the WASM core builds.
\<close>

theorem createPacket_roundtrip:
  assumes "length pl \<le> 4294967295"
  shows "createPacket f t ty pl = build_packet f t ty pl \<and>
    bind_res (createPacket f t ty pl) parsePacket =
      Inr \<lparr>header = \<lparr>fromPeerId = f, toPeerId = t, packetType = ty, flags = 0, forwardCounter = 1,
             reserved = 0, payloadLength = of_nat (length pl)\<rparr>, payload = pl\<rparr>"
proof
  show "createPacket f t ty pl = build_packet f t ty pl"
    using assms by (simp add: createPacket_conv build_packet_def to_bytes_def)
  have "unat (of_nat (length pl) :: u32) = length pl"
    using assms by (simp add: unat_of_nat)
  then show "bind_res (createPacket f t ty pl) parsePacket =
      Inr \<lparr>header = \<lparr>fromPeerId = f, toPeerId = t, packetType = ty, flags = 0, forwardCounter = 1,
             reserved = 0, payloadLength = of_nat (length pl)\<rparr>, payload = pl\<rparr>"
    using assms by (simp add: createPacket_conv parsePacket_def readU32_conv u32_to_le_bytes_def
        byte_at_def edge_simps)
qed

theorem createPacket_roundtrip_witness:
  "bind_res (createPacket 10000001 5 8 [7, 9]) parsePacket =
     Inr \<lparr>header = \<lparr>fromPeerId = 10000001, toPeerId = 5, packetType = 8, flags = 0, forwardCounter = 1,
            reserved = 0, payloadLength = 2\<rparr>, payload = [7, 9]\<rparr>"
  using createPacket_roundtrip [of "[7, 9]" 10000001 5 8, THEN conjunct2] by simp

text \<open>
  C27. Forwarding is loop-free: a frame survives \<open>n\<close> successive relays exactly when its hop counter
  plus \<open>n\<close> is at most eight, one more than \<open>MAX_FORWARD_HOPS\<close>: a frame that starts with counter 0 is forwarded
  at most eight times, one with the counter 1 of the builders at most seven times.
\<close>

theorem forward_hops_bounded:
  assumes "EASYTIER_HEADER_SIZE \<le> length frame"
  shows "is_ok (forward_hops n frame) \<longleftrightarrow> n = 0 \<or> unat (byte_at frame 10) + n \<le> 8"
  using assms by (rule forward_hops_ok)

theorem forward_hops_bounded_witness:
  "is_ok (forward_hops 7 sample_frame) \<and> \<not> is_ok (forward_hops 8 sample_frame)"
proof -
  have "EASYTIER_HEADER_SIZE \<le> length sample_frame" by (simp add: EASYTIER_HEADER_SIZE_def)
  from forward_hops_bounded [OF this, of 7] forward_hops_bounded [OF this, of 8] show ?thesis
    by (simp add: sample_frame_def byte_at_def)
qed

text \<open>
  One hop changes nothing but the counter: the forwarded frame of an accepted frame is accepted,
  keeps its payload and every other header field, and is what the core's \<open>prepare_forward\<close> builds.
\<close>

theorem forward_preserves_frame:
  assumes "parsePacket frame = Inr p" and "incrementForwardCounter frame = Inr out"
    and "length frame < 2 ^ 32"
  shows "parsePacket out = Inr (p\<lparr>header := (header p)\<lparr>forwardCounter := forwardCounter (header p) + 1\<rparr>\<rparr>)
     \<and> prepare_forward frame = Inr out"
proof
  from assms(1) have len: "EASYTIER_HEADER_SIZE \<le> length frame" by (simp add: parsePacket_eq_Inr)
  from assms(2) have out: "out = frame[10 := byte_at frame 10 + 1]"
    and hop: "byte_at frame 10 \<le> MAX_FORWARD_HOPS"
    by (auto simp: incrementForwardCounter_eq_Inr)
  show "parsePacket out = Inr (p\<lparr>header := (header p)\<lparr>forwardCounter := forwardCounter (header p) + 1\<rparr>\<rparr>)"
    using assms(1) len unfolding out parsePacket_eq_Inr
    by (auto simp: header_of_upd_counter header_of_fields drop_update_cancel EASYTIER_HEADER_SIZE_def)
  have "parse_packet frame = Inr (rs_of_ts (header_of frame))"
    using assms(1,3) by (auto simp: parsePacket_eq_Inr parse_packet_eq_Inr)
  then show "prepare_forward frame = Inr out"
    using hop by (simp add: prepare_forward_def out rs_of_ts_def header_of_fields)
qed

theorem forward_preserves_frame_witness:
  "prepare_forward sample_frame = Inr (sample_frame[10 := 2])"
proof -
  have "incrementForwardCounter sample_frame = Inr (sample_frame[10 := 2])"
    by (simp add: incrementForwardCounter_eq_Inr sample_frame_def byte_at_def edge_simps)
  from forward_preserves_frame [OF sample_frame_eval(3) this] show ?thesis by simp
qed

text \<open>
  The host's data-plane fast path decides exactly like the core on every frame, errors
  included, so \<open>DISABLE_RELAY_DATA\<close> drops the same traffic on either side.
\<close>

theorem relay_classifiers_agree: "isRelayDataPacket frame = is_relay_data_packet frame"
proof (cases "EASYTIER_HEADER_SIZE \<le> length frame")
  case True
  then show ?thesis
    by (auto simp: isRelayDataPacket_def is_relay_data_packet_def from_bytes_conv rs_of_ts_def
        header_of_fields is_data_plane_packet_type_def RELAY_DATA_PLANE_TYPES_def)
next
  case False
  then show ?thesis by (simp add: isRelayDataPacket_def)
qed

text \<open>
  A Pong is the Ping with its type byte changed: an accepted Ping turns into an accepted frame
  with the same addresses and payload, the same frame the core's \<open>prepare_pong\<close> builds, and no
  other packet type is answered.
\<close>

theorem createPong_correct:
  assumes "parsePacket frame = Inr p" and "length frame < 2 ^ 32"
  shows "if packetType (header p) = pt_code Ping
     then \<exists>out. createPong frame = Inr out \<and> prepare_pong frame = Inr out \<and>
            parsePacket out = Inr (p\<lparr>header := (header p)\<lparr>packetType := pt_code Pong\<rparr>\<rparr>)
     else \<not> is_ok (createPong frame) \<and> \<not> is_ok (prepare_pong frame)"
proof -
  from assms(1) have len: "EASYTIER_HEADER_SIZE \<le> length frame" and h: "header p = header_of frame"
    by (auto simp: parsePacket_eq_Inr)
  have "parse_packet frame = Inr (rs_of_ts (header_of frame))"
    using assms by (auto simp: parsePacket_eq_Inr parse_packet_eq_Inr)
  then have pong: "prepare_pong frame =
      (if byte_at frame 8 \<noteq> 4 then raise ''only an EasyTier Ping packet can become Pong'' else Inr (frame[8 := 5]))"
    by (simp add: prepare_pong_def rs_of_ts_def header_of_fields)
  have "parsePacket (frame[8 := 5]) = Inr (p\<lparr>header := (header p)\<lparr>packetType := 5\<rparr>\<rparr>)"
    using assms(1) len unfolding parsePacket_eq_Inr
    by (auto simp: header_of_upd_type drop_update_cancel EASYTIER_HEADER_SIZE_def)
  then show ?thesis
    using len by (simp add: pong h header_of_fields createPong_def)
qed

theorem createPong_correct_witness:
  "\<exists>out. createPong (sample_frame[8 := 4]) = Inr out \<and> prepare_pong (sample_frame[8 := 4]) = Inr out"
proof -
  have len: "EASYTIER_HEADER_SIZE \<le> length sample_frame" by (simp add: EASYTIER_HEADER_SIZE_def)
  have "parsePacket (sample_frame[8 := 4]) =
      Inr \<lparr>header = (header_of sample_frame)\<lparr>packetType := 4\<rparr>, payload = [7, 9]\<rparr>"
    by (simp add: parsePacket_eq_Inr header_of_upd_type [OF len] tail_size_def del: sample_frame_eval(2))
      (simp add: sample_frame_def edge_simps header_of_def readU32_def byte_at_def)
  from createPong_correct [OF this] show ?thesis by auto
qed

end
