(* ===== verification/Store.thy ===== *)
theory Store
  imports Prelude
begin

text \<open>
  Keyed containers. \<open>keyed_store\<close> is the contract every keyed container of the program keeps (a
  JavaScript \<open>Map\<close>, a Rust \<open>HashMap\<close> or \<open>BTreeMap\<close>); it is interpreted on association lists in
  insertion order, which is the iteration order of a JavaScript \<open>Map\<close>. The iteration order of a Rust
  \<open>HashMap\<close> is unspecified; the model fixes insertion order, and no theorem reads it off.
\<close>

section \<open>The contract\<close>

locale keyed_store =
  fixes empty :: "'m"
    and get :: "'m \<Rightarrow> 'k \<Rightarrow> 'v option"
    and put :: "'k \<Rightarrow> 'v \<Rightarrow> 'm \<Rightarrow> 'm"
    and remove :: "'k \<Rightarrow> 'm \<Rightarrow> 'm"
    and entries :: "'m \<Rightarrow> ('k \<times> 'v) list"
    and invar :: "'m \<Rightarrow> bool"
  assumes get_empty: "get empty k = None"
    and get_put: "get (put k v m) k' = (if k' = k then Some v else get m k')"
    and get_remove: "get (remove k m) k' = (if k' = k then None else get m k')"
    and entries_get: "invar m \<Longrightarrow> (k, v) \<in> set (entries m) \<longleftrightarrow> get m k = Some v"
    and entries_distinct: "invar m \<Longrightarrow> distinct (map fst (entries m))"
    and invar_empty: "invar empty"
    and invar_put: "invar m \<Longrightarrow> invar (put k v m)"
    and invar_remove: "invar m \<Longrightarrow> invar (remove k m)"
begin

lemma get_put_same: "get (put k v m) k = Some v"
  by (simp add: get_put)

lemma get_remove_same: "get (remove k m) k = None"
  by (simp add: get_remove)

lemma remove_put: "get (remove k (put k v m)) k' = get (remove k m) k'"
  by (simp add: get_put get_remove)

lemma size_entries:
  assumes "invar m"
  shows "length (entries m) = card {k. get m k \<noteq> None}"
proof -
  have "length (entries m) = card (set (map fst (entries m)))"
    using distinct_card [OF entries_distinct [OF assms]] by simp
  also have "set (map fst (entries m)) = {k. get m k \<noteq> None}"
    using entries_get [OF assms] by force
  finally show ?thesis .
qed

lemma finite_keys:
  assumes "invar m"
  shows "finite {k. get m k \<noteq> None}"
proof (rule finite_subset)
  show "{k. get m k \<noteq> None} \<subseteq> fst ` set (entries m)"
    using entries_get [OF assms] by force
qed simp

end

section \<open>Insertion-ordered maps\<close>

type_synonym ('k, 'v) jmap = "('k \<times> 'v) list"

definition jget :: "('k, 'v) jmap \<Rightarrow> 'k \<Rightarrow> 'v option" where
  "jget m k = map_of m k"

definition jset :: "'k \<Rightarrow> 'v \<Rightarrow> ('k, 'v) jmap \<Rightarrow> ('k, 'v) jmap" where
  "jset k v m = AList.update k v m"

definition jdel :: "'k \<Rightarrow> ('k, 'v) jmap \<Rightarrow> ('k, 'v) jmap" where
  "jdel k m = AList.delete k m"

definition jhas :: "('k, 'v) jmap \<Rightarrow> 'k \<Rightarrow> bool" where
  "jhas m k \<longleftrightarrow> jget m k \<noteq> None"

text \<open>\<open>retain\<close> keeps the entries that satisfy a predicate; \<open>values_mut\<close> rewrites every value.\<close>

definition jretain :: "('k \<Rightarrow> 'v \<Rightarrow> bool) \<Rightarrow> ('k, 'v) jmap \<Rightarrow> ('k, 'v) jmap" where
  "jretain P m = filter (\<lambda>(k, v). P k v) m"

definition jmap_values :: "('v \<Rightarrow> 'w) \<Rightarrow> ('k, 'v) jmap \<Rightarrow> ('k, 'w) jmap" where
  "jmap_values f m = map (\<lambda>(k, v). (k, f v)) m"

definition jkeys :: "('k, 'v) jmap \<Rightarrow> 'k list" where
  "jkeys m = map fst m"

definition jvalues :: "('k, 'v) jmap \<Rightarrow> 'v list" where
  "jvalues m = map snd m"

definition jwf :: "('k, 'v) jmap \<Rightarrow> bool" where
  "jwf m \<longleftrightarrow> distinct (map fst m)"

lemma jget_Nil [simp]: "jget [] k = None"
  by (simp add: jget_def)

lemma jget_Cons [simp]: "jget ((a, b) # m) k = (if k = a then Some b else jget m k)"
  by (simp add: jget_def)

lemma jget_jset [simp]: "jget (jset k v m) k' = (if k' = k then Some v else jget m k')"
  by (simp add: jget_def jset_def update_conv')

lemma jget_jdel [simp]: "jget (jdel k m) k' = (if k' = k then None else jget m k')"
  by (simp add: jget_def jdel_def delete_conv')

lemma jwf_Nil [simp]: "jwf []"
  by (simp add: jwf_def)

lemma jwf_jset [simp]: "jwf m \<Longrightarrow> jwf (jset k v m)"
  by (simp add: jwf_def jset_def distinct_update)

lemma jwf_jdel [simp]: "jwf m \<Longrightarrow> jwf (jdel k m)"
  by (simp add: jwf_def jdel_def distinct_delete)

lemma jwf_jretain [simp]: "jwf m \<Longrightarrow> jwf (jretain P m)"
  unfolding jwf_def jretain_def by (induction m) auto

lemma jwf_jmap_values [simp]: "jwf (jmap_values f m) = jwf m"
  by (simp add: jwf_def jmap_values_def comp_def case_prod_beta)

lemma jget_jmap_values [simp]: "jget (jmap_values f m) k = map_option f (jget m k)"
  by (induction m) (auto simp: jmap_values_def jget_def)

lemma jget_jretain:
  "jwf m \<Longrightarrow> jget (jretain P m) k = (case jget m k of None \<Rightarrow> None | Some v \<Rightarrow> if P k v then Some v else None)"
proof (induction m)
  case Nil
  then show ?case by (simp add: jretain_def)
next
  case (Cons e m)
  obtain a b where e: "e = (a, b)" by (cases e)
  from Cons.prems have "jwf m" and a: "a \<notin> fst ` set m" by (auto simp: jwf_def e)
  from a have "jget (jretain P m) a = None" by (auto simp: jget_def jretain_def map_of_eq_None_iff)
  moreover from a have "jget m a = None" by (simp add: jget_def map_of_eq_None_iff)
  ultimately show ?case
    using Cons.IH [OF \<open>jwf m\<close>] by (auto simp: jretain_def e)
qed

lemma jget_append: "jget (m @ m') k = (case jget m k of None \<Rightarrow> jget m' k | Some v \<Rightarrow> Some v)"
  by (induction m) auto

lemma jget_retain_keys: "jget (jretain (\<lambda>k _. P k) m) k = (if P k then jget m k else None)"
  by (induction m) (auto simp: jretain_def)

lemma jentries_get: "jwf m \<Longrightarrow> (k, v) \<in> set m \<longleftrightarrow> jget m k = Some v"
  by (simp add: jwf_def jget_def)

interpretation jm: keyed_store "[]" jget jset jdel "\<lambda>m. m" jwf
  by unfold_locales (simp_all add: jentries_get, simp add: jwf_def)

lemma jhas_jset [simp]: "jhas (jset k v m) k' \<longleftrightarrow> k' = k \<or> jhas m k'"
  by (simp add: jhas_def)

lemma jhas_jdel [simp]: "jhas (jdel k m) k' \<longleftrightarrow> k' \<noteq> k \<and> jhas m k'"
  by (simp add: jhas_def)

lemma jhas_Nil [simp]: "\<not> jhas [] k"
  by (simp add: jhas_def)

lemma jkeys_iff: "k \<in> set (jkeys m) \<longleftrightarrow> jhas m k"
  by (auto simp: jkeys_def jhas_def jget_def map_of_eq_None_iff)

lemma jset_new: "\<not> jhas m k \<Longrightarrow> jset k v m = m @ [(k, v)]"
  unfolding jset_def by (induction m) (auto simp: jhas_def split: if_splits)

lemma length_jset: "length (jset k v m) = (if jhas m k then length m else Suc (length m))"
  by (induction m) (auto simp: jset_def jhas_def)

lemma length_jretain: "length (jretain P m) \<le> length m"
  by (simp add: jretain_def)

lemma jhas_Some: "jget m k = Some v \<Longrightarrow> jhas m k"
  by (simp add: jhas_def)

lemma jset_same: "jget m k = Some v \<Longrightarrow> jset k v m = m"
  by (induction m) (auto simp: jset_def)

lemma jdel_absent: "\<not> jhas m k \<Longrightarrow> jdel k m = m"
  by (force simp: jdel_def jhas_def jget_def map_of_eq_None_iff AList.delete_eq filter_id_conv)

lemma set_jkeys: "set (jkeys m) = {k. jhas m k}"
  by (simp add: jkeys_iff set_eq_iff)

text \<open>Sums over a map, for the counters the program keeps beside its maps.\<close>

definition jsum :: "('v \<Rightarrow> nat) \<Rightarrow> ('k, 'v) jmap \<Rightarrow> nat" where
  "jsum f m = sum_list (map (f \<circ> snd) m)"

lemma jsum_Nil [simp]: "jsum f [] = 0"
  by (simp add: jsum_def)

lemma jsum_Cons [simp]: "jsum f ((k, v) # m) = f v + jsum f m"
  by (simp add: jsum_def)

lemma jsum_jset_new: "\<not> jhas m k \<Longrightarrow> jsum f (jset k v m) = jsum f m + f v"
  by (simp add: jset_new jsum_def)

lemma jget_le_jsum: "jget m k = Some v \<Longrightarrow> f v \<le> jsum f m"
  by (induction m) (auto split: if_splits)

lemma jsum_jset: "jget m k = Some v \<Longrightarrow> jsum f (jset k w m) = jsum f m - f v + f w"
proof (induction m)
  case (Cons e m)
  then show ?case using jget_le_jsum [of m k v f] by (cases e) (auto simp: jset_def split: if_splits)
qed simp

lemma jsum_jdel: "jwf m \<Longrightarrow> jget m k = Some v \<Longrightarrow> jsum f (jdel k m) = jsum f m - f v"
proof (induction m)
  case (Cons e m)
  obtain a b where e: "e = (a, b)" by (cases e)
  show ?case
  proof (cases "a = k")
    case True
    then have "\<not> jhas m k" using Cons.prems(1) by (auto simp: e jwf_def jhas_def jget_def map_of_eq_None_iff)
    moreover have "jdel k (e # m) = jdel k m" using True by (simp add: e jdel_def)
    ultimately show ?thesis using Cons.prems(2) True by (simp add: e jdel_absent)
  next
    case False
    with Cons.prems have "jwf m" "jget m k = Some v" by (simp_all add: e jwf_def)
    with Cons.IH jget_le_jsum [of m k v f] False show ?thesis by (simp add: e jdel_def)
  qed
qed simp

lemma jdel_jset: "jdel k (jset k v m) = jdel k m"
  by (simp add: jdel_def jset_def AList.delete_update_same)

end
