(* ===== verification/Rooms.thy ===== *)
theory Rooms
  imports Store
begin

text \<open>
  The room registry of \<^verbatim>\<open>src/runtime/rooms.ts\<close>: a map from network names to maps from peer ids to
  connections. A connection is an object reference, compared by identity; the registry is
  polymorphic in the type of references, and the two fields it reads from a connection
  (\<open>networkName\<close>, \<open>peerId\<close>) are arguments.
\<close>

section \<open>Operations\<close>

type_synonym 'c room_registry = "(ustring, (peer_id, 'c) jmap) jmap"

definition rooms_get :: "'c room_registry \<Rightarrow> ustring \<Rightarrow> peer_id \<Rightarrow> 'c option" where
  "rooms_get reg networkName peerId =
     (case jget reg networkName of None \<Rightarrow> None | Some room \<Rightarrow> jget room peerId)"

definition rooms_set :: "ustring \<Rightarrow> peer_id \<Rightarrow> 'c \<Rightarrow> 'c room_registry \<Rightarrow> 'c option \<times> 'c room_registry" where
  "rooms_set networkName peerId connection reg =
     (let (room, reg') = (case jget reg networkName of
                            None \<Rightarrow> ([], jset networkName [] reg)
                          | Some room \<Rightarrow> (room, reg));
          previous = jget room peerId
      in (previous, jset networkName (jset peerId connection room) reg'))"

definition rooms_delete :: "ustring \<Rightarrow> peer_id \<Rightarrow> 'c \<Rightarrow> 'c room_registry \<Rightarrow> bool \<times> 'c room_registry" where
  "rooms_delete networkName peerId connection reg =
     (case jget reg networkName of
        None \<Rightarrow> (False, reg)
      | Some room \<Rightarrow>
          if jget room peerId \<noteq> Some connection then (False, reg)
          else let room' = jdel peerId room
               in (True, if room' = [] then jdel networkName reg else jset networkName room' reg))"

definition rooms_peers :: "'c room_registry \<Rightarrow> ustring \<Rightarrow> 'c list" where
  "rooms_peers reg networkName = (case jget reg networkName of None \<Rightarrow> [] | Some room \<Rightarrow> jvalues room)"

text \<open>Well-formed registries: keys are unique and no empty room is kept.\<close>

definition rooms_wf :: "'c room_registry \<Rightarrow> bool" where
  "rooms_wf reg \<longleftrightarrow> jwf reg \<and> (\<forall>n room. jget reg n = Some room \<longrightarrow> jwf room \<and> room \<noteq> [])"

section \<open>The contract the server relies on\<close>

locale registry =
  fixes rget :: "'r \<Rightarrow> ustring \<Rightarrow> peer_id \<Rightarrow> 'c option"
    and rset :: "ustring \<Rightarrow> peer_id \<Rightarrow> 'c \<Rightarrow> 'r \<Rightarrow> 'c option \<times> 'r"
    and rdel :: "ustring \<Rightarrow> peer_id \<Rightarrow> 'c \<Rightarrow> 'r \<Rightarrow> bool \<times> 'r"
    and rpeers :: "'r \<Rightarrow> ustring \<Rightarrow> 'c list"
    and rwf :: "'r \<Rightarrow> bool"
  assumes set_previous: "fst (rset n p c r) = rget r n p"
    and get_set: "rget (snd (rset n p c r)) n' p' = (if n' = n \<and> p' = p then Some c else rget r n' p')"
    and del_result: "fst (rdel n p c r) \<longleftrightarrow> rget r n p = Some c"
    and get_del: "rget (snd (rdel n p c r)) n' p' =
        (if n' = n \<and> p' = p \<and> rget r n p = Some c then None else rget r n' p')"
    and peers_get: "rwf r \<Longrightarrow> set (rpeers r n) = {c. \<exists>p. rget r n p = Some c}"
    and wf_set: "rwf r \<Longrightarrow> rwf (snd (rset n p c r))"
    and wf_del: "rwf r \<Longrightarrow> rwf (snd (rdel n p c r))"
begin

text \<open>A connection that was replaced cannot evict its replacement when it is removed later.\<close>

lemma stale_delete:
  assumes "old \<noteq> new"
  shows "rget (snd (rdel n p old (snd (rset n p new r)))) n p = Some new"
    and "\<not> fst (rdel n p old (snd (rset n p new r)))"
  using assms by (simp_all add: get_del get_set del_result)

lemma set_then_delete:
  "rget (snd (rdel n p c (snd (rset n p c r)))) n' p' = (if n' = n \<and> p' = p then None else rget r n' p')"
  by (simp add: get_del get_set)

lemma other_network_set: "n' \<noteq> n \<Longrightarrow> rwf r \<Longrightarrow> set (rpeers (snd (rset n p c r)) n') = set (rpeers r n')"
  by (simp add: peers_get wf_set get_set)

lemma other_network_del: "n' \<noteq> n \<Longrightarrow> rwf r \<Longrightarrow> set (rpeers (snd (rdel n p c r)) n') = set (rpeers r n')"
  by (simp add: peers_get wf_del get_del)

end

section \<open>The registry keeps the contract\<close>

lemma rooms_set_get:
  "rooms_get (snd (rooms_set n p c reg)) n' p' = (if n' = n \<and> p' = p then Some c else rooms_get reg n' p')"
  by (auto simp: rooms_get_def rooms_set_def split: option.splits)

lemma rooms_set_previous: "fst (rooms_set n p c reg) = rooms_get reg n p"
  by (auto simp: rooms_get_def rooms_set_def split: option.splits)

lemma rooms_delete_result: "fst (rooms_delete n p c reg) \<longleftrightarrow> rooms_get reg n p = Some c"
  by (auto simp: rooms_get_def rooms_delete_def Let_def split: option.splits)

lemma jdel_Nil_get: "jdel p room = [] \<Longrightarrow> q \<noteq> p \<Longrightarrow> jget room q = None"
  by (metis jget_Nil jget_jdel)

lemma rooms_delete_get:
  "rooms_get (snd (rooms_delete n p c reg)) n' p' =
     (if n' = n \<and> p' = p \<and> rooms_get reg n p = Some c then None else rooms_get reg n' p')"
  by (auto simp: rooms_get_def rooms_delete_def Let_def jdel_Nil_get split: option.splits)

lemma jset_not_Nil [simp]: "jset k v m \<noteq> []"
  by (metis jget_Nil jget_jset option.distinct(1))

lemma rooms_wf_set: "rooms_wf reg \<Longrightarrow> rooms_wf (snd (rooms_set n p c reg))"
  by (auto simp: rooms_wf_def rooms_set_def split: option.splits if_splits)

lemma rooms_wf_delete: "rooms_wf reg \<Longrightarrow> rooms_wf (snd (rooms_delete n p c reg))"
  by (auto simp: rooms_wf_def rooms_delete_def Let_def split: option.splits if_splits)

lemma jvalues_get: "jwf m \<Longrightarrow> set (jvalues m) = {v. \<exists>k. jget m k = Some v}"
  by (force simp: jvalues_def jentries_get [symmetric])

lemma rooms_peers_get:
  assumes "rooms_wf reg"
  shows "set (rooms_peers reg n) = {c. \<exists>p. rooms_get reg n p = Some c}"
proof (cases "jget reg n")
  case None
  then show ?thesis by (simp add: rooms_peers_def rooms_get_def)
next
  case (Some room)
  with assms have "jwf room" by (simp add: rooms_wf_def)
  with Some show ?thesis by (simp add: rooms_peers_def rooms_get_def jvalues_get)
qed

interpretation rooms: registry rooms_get rooms_set rooms_delete rooms_peers rooms_wf
  by unfold_locales
    (simp_all add: rooms_set_previous rooms_set_get rooms_delete_result rooms_delete_get
      rooms_peers_get rooms_wf_set rooms_wf_delete)

lemma rooms_wf_Nil [simp]: "rooms_wf []"
  by (simp add: rooms_wf_def)

lemma rooms_get_Nil [simp]: "rooms_get [] n p = None"
  by (simp add: rooms_get_def)

section \<open>Properties\<close>

definition rooms_abs :: "'c room_registry \<Rightarrow> (ustring \<times> peer_id) \<rightharpoonup> 'c" where
  "rooms_abs reg = (\<lambda>(n, p). rooms_get reg n p)"

text \<open>
  C24. The registry refines one flat map from (network, peer id) to connections: registering
  updates that map and returns what it held, removal clears the entry only for the connection
  that holds it, and both keep the registry free of empty rooms.
\<close>

theorem rooms_refine_flat_map:
  assumes "rooms_wf reg"
  shows "fst (rooms_set n p c reg) = rooms_abs reg (n, p)
    \<and> rooms_abs (snd (rooms_set n p c reg)) = (rooms_abs reg)((n, p) \<mapsto> c)
    \<and> rooms_abs (snd (rooms_delete n p c reg)) =
         (if rooms_abs reg (n, p) = Some c then (rooms_abs reg)((n, p) := None) else rooms_abs reg)
    \<and> set (rooms_peers reg n) = {d. \<exists>q. rooms_abs reg (n, q) = Some d}
    \<and> rooms_wf (snd (rooms_set n p c reg)) \<and> rooms_wf (snd (rooms_delete n p c reg))"
  using assms
  by (auto simp: rooms_abs_def fun_eq_iff rooms.set_previous rooms.get_set rooms.get_del
      rooms.peers_get rooms.wf_set rooms.wf_del)

theorem rooms_refine_flat_map_witness:
  "rooms_abs (snd (rooms_delete (ustr ''office'') 7 (1 :: nat) (snd (rooms_set (ustr ''office'') 7 1 []))))
     = Map.empty"
proof -
  have wf: "rooms_wf ([] :: nat room_registry)" by simp
  note set = rooms_refine_flat_map [OF wf, of "ustr ''office''" 7 1]
  have wf': "rooms_wf (snd (rooms_set (ustr ''office'') 7 (1 :: nat) []))" using set by blast
  show ?thesis
    using rooms_refine_flat_map [OF wf', of "ustr ''office''" 7 1] set
    by (auto simp: rooms_abs_def fun_eq_iff)
qed

text \<open>
  A connection replaced by an authenticated reconnect never takes its replacement out of the
  room: deleting the old connection after the new one registered reports \<open>false\<close> and the new one
  stays reachable.
\<close>

theorem replaced_connection_cannot_evict:
  assumes "old \<noteq> new"
  shows "\<not> fst (rooms_delete n p old (snd (rooms_set n p new reg)))
     \<and> rooms_get (snd (rooms_delete n p old (snd (rooms_set n p new reg)))) n p = Some new"
  using rooms.stale_delete [OF assms] by blast

theorem replaced_connection_cannot_evict_witness:
  "rooms_get (snd (rooms_delete (ustr ''office'') 7 (1 :: nat) (snd (rooms_set (ustr ''office'') 7 2 []))))
     (ustr ''office'') 7 = Some 2"
  using replaced_connection_cannot_evict [of "1 :: nat" 2 "ustr ''office''" 7 "[]"] by simp

end
