(* ===== verification/Replay.thy ===== *)
theory Replay
  imports Prelude
begin

unbundle bit_operations_syntax

text \<open>
  The anti-replay window \<open>ReplayWindow256\<close> of \<^verbatim>\<open>wasm/src/secure.rs\<close>: the highest sequence number
  accepted so far and a 256-bit map of the numbers below it. The abstract specification is the set
  of accepted numbers. Distances are computed in 64 bits and cast to \<open>usize\<close>, 32 bits wide on the
  \<^verbatim>\<open>wasm32\<close> target.
\<close>

section \<open>The window\<close>

record replay_window =
  max_seq :: u64
  bitmap :: bytes
  rw_valid :: bool

definition default_window :: replay_window where
  "default_window = \<lparr>max_seq = 0, bitmap = replicate 32 0, rw_valid = False\<rparr>"

definition clear_window :: "replay_window \<Rightarrow> replay_window" where
  "clear_window w = w\<lparr>max_seq := 0, bitmap := replicate (length (bitmap w)) 0, rw_valid := False\<rparr>"

definition as_usize :: "u64 \<Rightarrow> nat" where
  "as_usize x = unat (ucast x :: u32)"

definition test_bit :: "replay_window \<Rightarrow> nat \<Rightarrow> bool" where
  "test_bit w idx \<longleftrightarrow> drop_bit (idx mod 8) (bitmap w ! (idx div 8)) AND 1 = 1"

definition set_bit :: "replay_window \<Rightarrow> nat \<Rightarrow> replay_window" where
  "set_bit w idx = w\<lparr>bitmap := (bitmap w)[idx div 8 := (bitmap w ! (idx div 8)) OR push_bit (idx mod 8) 1]\<rparr>"

text \<open>The two loops of \<open>shift_right\<close>: whole bytes, from the highest index down, then bits with a carry.\<close>

definition shift_bytes :: "nat \<Rightarrow> bytes \<Rightarrow> bytes" where
  "shift_bytes byte_shift bm =
     fold (\<lambda>i bm. bm[i := if byte_shift \<le> i then bm ! (i - byte_shift) else 0]) (rev [0..<length bm]) bm"

fun shift_bits :: "nat \<Rightarrow> byte \<Rightarrow> bytes \<Rightarrow> bytes" where
  "shift_bits bit_shift carry [] = []"
| "shift_bits bit_shift carry (b # bs) =
     (push_bit bit_shift b OR carry) # shift_bits bit_shift (drop_bit (8 - bit_shift) b) bs"

definition shift_right :: "nat \<Rightarrow> replay_window \<Rightarrow> replay_window" where
  "shift_right shift w =
     (if shift = 0 then w
      else if shift \<ge> 256 then w\<lparr>bitmap := replicate (length (bitmap w)) 0\<rparr>
      else let byte_shift = shift div 8;
               bit_shift = shift mod 8;
               bm = (if byte_shift > 0 then shift_bytes byte_shift (bitmap w) else bitmap w);
               bm' = (if bit_shift > 0 then shift_bits bit_shift 0 bm else bm)
           in w\<lparr>bitmap := bm'\<rparr>)"

definition can_accept :: "replay_window \<Rightarrow> u64 \<Rightarrow> bool" where
  "can_accept w seq \<longleftrightarrow>
     (if \<not> rw_valid w \<or> seq > max_seq w then True
      else let delta = as_usize (max_seq w - seq) in delta < 256 \<and> \<not> test_bit w delta)"

definition accept :: "replay_window \<Rightarrow> u64 \<Rightarrow> bool \<times> replay_window" where
  "accept w seq =
     (if \<not> rw_valid w then (True, set_bit (w\<lparr>rw_valid := True, max_seq := seq\<rparr>) 0)
      else if seq > max_seq w
      then (True, set_bit ((shift_right (as_usize (seq - max_seq w)) w)\<lparr>max_seq := seq\<rparr>) 0)
      else let delta = as_usize (max_seq w - seq)
           in if delta \<ge> 256 \<or> test_bit w delta then (False, w) else (True, set_bit w delta))"

section \<open>What the bit operations do\<close>

definition window_wf :: "replay_window \<Rightarrow> bool" where
  "window_wf w \<longleftrightarrow> length (bitmap w) = 32"

lemma test_bit_conv: "test_bit w i \<longleftrightarrow> bit (bitmap w ! (i div 8)) (i mod 8)"
  by (simp add: test_bit_def bit_iff_odd_drop_bit and_one_eq odd_iff_mod_2_eq_one)

lemma set_bit_simps [simp]:
  "max_seq (set_bit w i) = max_seq w" "rw_valid (set_bit w i) = rw_valid w"
  "length (bitmap (set_bit w i)) = length (bitmap w)"
  by (simp_all add: set_bit_def)

lemma div_mod_eq_iff: "(i :: nat) div 8 = j div 8 \<and> i mod 8 = j mod 8 \<longleftrightarrow> i = j"
  by (metis div_mult_mod_eq)

lemma test_bit_set_bit:
  assumes "window_wf w" and "i < 256"
  shows "test_bit (set_bit w i) j \<longleftrightarrow> j = i \<or> test_bit w j"
proof -
  have "i div 8 < length (bitmap w)" using assms by (simp add: window_wf_def)
  then show ?thesis
    using div_mod_eq_iff [of i j]
    by (cases "j div 8 = i div 8") (auto simp: test_bit_conv set_bit_def bit_simps)
qed

lemma fold_shift_nth:
  assumes "n \<le> length bm" and "j < length bm"
  shows "fold (\<lambda>i bm. bm[i := if k \<le> i then bm ! (i - k) else (0 :: byte)]) (rev [0..<n]) bm ! j
     = (if j < n then if k \<le> j then bm ! (j - k) else 0 else bm ! j)"
  using assms
proof (induction n arbitrary: bm)
  case 0
  then show ?case by simp
next
  case (Suc n)
  let ?bm = "bm[n := if k \<le> n then bm ! (n - k) else 0]"
  have "fold (\<lambda>i bm. bm[i := if k \<le> i then bm ! (i - k) else 0]) (rev [0..<n]) ?bm ! j
     = (if j < n then if k \<le> j then ?bm ! (j - k) else 0 else ?bm ! j)"
    using Suc.prems by (intro Suc.IH) auto
  then show ?case
    using Suc.prems by (auto simp: nth_list_update less_Suc_eq)
qed

lemma length_fold_shift:
  "length (fold (\<lambda>i bm. bm[i := f i bm]) is bm) = length bm"
  by (induction "is" arbitrary: bm) auto

lemma length_shift_bytes [simp]: "length (shift_bytes k bm) = length bm"
  by (simp add: shift_bytes_def length_fold_shift)

lemma shift_bytes_nth:
  "j < length bm \<Longrightarrow> shift_bytes k bm ! j = (if k \<le> j then bm ! (j - k) else 0)"
  by (simp add: shift_bytes_def fold_shift_nth)

lemma length_shift_bits [simp]: "length (shift_bits k c bm) = length bm"
  by (induction bm arbitrary: c) auto

lemma shift_bits_nth:
  "j < length bm \<Longrightarrow>
   shift_bits k c bm ! j = push_bit k (bm ! j) OR (if j = 0 then c else drop_bit (8 - k) (bm ! (j - 1)))"
proof (induction bm arbitrary: c j)
  case (Cons b bm)
  then show ?case by (cases j) (auto simp: nth_Cons')
qed simp

definition map_bit :: "bytes \<Rightarrow> nat \<Rightarrow> bool" where
  "map_bit bm i \<longleftrightarrow> bit (bm ! (i div 8)) (i mod 8)"

lemma map_bit_block [simp]: "r < 8 \<Longrightarrow> map_bit bm (8 * q + r) \<longleftrightarrow> bit (bm ! q) r"
  by (simp add: map_bit_def)

lemma byte_block:
  obtains q r where "(i :: nat) = 8 * q + r" and "r < 8"
  by (rule that [of "i div 8" "i mod 8"]) auto

lemma map_bit_shift_bytes:
  assumes "i < 8 * length bm"
  shows "map_bit (shift_bytes k bm) i \<longleftrightarrow> 8 * k \<le> i \<and> map_bit bm (i - 8 * k)"
proof -
  obtain q r where i: "i = 8 * q + r" and r: "r < 8" by (rule byte_block)
  have q: "q < length bm" using assms i by linarith
  show ?thesis
  proof (cases "k \<le> q")
    case True
    then have "i - 8 * k = 8 * (q - k) + r" and "8 * k \<le> i" using i by auto
    then show ?thesis using True q r by (simp add: shift_bytes_nth i)
  next
    case False
    then have "\<not> 8 * k \<le> i" using i r by linarith
    then show ?thesis using False q r by (simp add: shift_bytes_nth i)
  qed
qed

lemma map_bit_shift_bits:
  assumes "i < 8 * length bm" and "0 < k" and "k < 8"
  shows "map_bit (shift_bits k 0 bm) i \<longleftrightarrow> k \<le> i \<and> map_bit bm (i - k)"
proof -
  obtain q r where i: "i = 8 * q + r" and r: "r < 8" by (rule byte_block)
  have q: "q < length bm" using assms i by linarith
  have low: "bit (push_bit k (bm ! q)) r \<longleftrightarrow> k \<le> r \<and> bit (bm ! q) (r - k)"
    using r by (simp add: bit_simps)
  have high: "bit (drop_bit (8 - k) (bm ! (q - 1))) r \<longleftrightarrow> r < k \<and> bit (bm ! (q - 1)) (8 - k + r)"
    using r assms(3) byte_bit_high [of "8 - k + r" "bm ! (q - 1)"]
    by (cases "r < k") (auto simp: bit_simps)
  show ?thesis
  proof (cases "k \<le> r")
    case True
    then have *: "i - k = 8 * q + (r - k)" "k \<le> i" using i by auto
    have "map_bit (shift_bits k 0 bm) i \<longleftrightarrow> bit (bm ! q) (r - k)"
      using True q r low high by (simp add: shift_bits_nth i bit_or_iff)
    moreover have "map_bit bm (i - k) \<longleftrightarrow> bit (bm ! q) (r - k)"
      using r by (simp only: *) simp
    ultimately show ?thesis using * by simp
  next
    case False
    show ?thesis
    proof (cases "q = 0")
      case True
      then show ?thesis
        using False q r low map_bit_block [of r "shift_bits k 0 bm" 0]
        by (simp add: shift_bits_nth i bit_or_iff)
    next
      case q0: False
      then have *: "i - k = 8 * (q - 1) + (8 - k + r)" "k \<le> i" "8 - k + r < 8"
        using i False assms(3) by auto
      have "map_bit (shift_bits k 0 bm) i \<longleftrightarrow> bit (bm ! (q - 1)) (8 - k + r)"
        using False q q0 r low high by (simp add: shift_bits_nth i bit_or_iff)
      moreover have "map_bit bm (i - k) \<longleftrightarrow> bit (bm ! (q - 1)) (8 - k + r)"
        using * by (simp only: *(1) map_bit_block)
      ultimately show ?thesis using * by simp
    qed
  qed
qed

lemma test_bit_map_bit: "test_bit w i \<longleftrightarrow> map_bit (bitmap w) i"
  by (simp add: test_bit_conv map_bit_def)

lemma length_shift_right [simp]: "length (bitmap (shift_right s w)) = length (bitmap w)"
  by (simp add: shift_right_def Let_def)

lemma shift_right_simps [simp]:
  "max_seq (shift_right s w) = max_seq w" "rw_valid (shift_right s w) = rw_valid w"
  by (simp_all add: shift_right_def Let_def)

lemma map_bit_replicate [simp]: "i < 8 * n \<Longrightarrow> \<not> map_bit (replicate n 0) i"
  by (simp add: map_bit_def less_mult_imp_div_less mult.commute)

lemma test_bit_shift_right:
  assumes "window_wf w" and "i < 256"
  shows "test_bit (shift_right s w) i \<longleftrightarrow> s \<le> i \<and> test_bit w (i - s)"
proof -
  have len: "length (bitmap w) = 32" using assms(1) by (simp add: window_wf_def)
  consider "s = 0" | "256 \<le> s" | "0 < s" "s < 256" by linarith
  then show ?thesis
  proof cases
    case 3
    let ?bm = "if 0 < s div 8 then shift_bytes (s div 8) (bitmap w) else bitmap w"
    have bytes: "map_bit ?bm j \<longleftrightarrow> 8 * (s div 8) \<le> j \<and> map_bit (bitmap w) (j - 8 * (s div 8))"
      if "j < 256" for j
      using that len by (simp add: map_bit_shift_bytes)
    have lbm: "length ?bm = 32" using len by simp
    have bits: "map_bit (if 0 < s mod 8 then shift_bits (s mod 8) 0 ?bm else ?bm) i
        \<longleftrightarrow> s mod 8 \<le> i \<and> map_bit ?bm (i - s mod 8)"
      using assms(2) lbm by (simp add: map_bit_shift_bits)
    have "test_bit (shift_right s w) i \<longleftrightarrow>
        s mod 8 \<le> i \<and> 8 * (s div 8) \<le> i - s mod 8 \<and> map_bit (bitmap w) (i - s mod 8 - 8 * (s div 8))"
      using 3 assms(2) bits bytes [of "i - s mod 8"] by (simp add: shift_right_def Let_def test_bit_map_bit)
    moreover have "s mod 8 + 8 * (s div 8) = s" by simp
    ultimately show ?thesis
      by (metis (no_types, lifting) add_leD1 diff_diff_eq le_diff_conv2 le_add_diff_inverse2 add.commute
          test_bit_map_bit)
  qed (use assms len in \<open>simp_all add: shift_right_def test_bit_map_bit\<close>)
qed

section \<open>The abstract specification\<close>

text \<open>
  The specification keeps the set of accepted numbers: a number is accepted once, and only if it is
  above every accepted one or less than 256 below the highest.
\<close>

definition spec_accept :: "u64 set \<Rightarrow> u64 \<Rightarrow> bool" where
  "spec_accept H seq \<longleftrightarrow> seq \<notin> H \<and> (\<forall>h \<in> H. unat h < unat seq + 256)"

definition spec_step :: "u64 set \<Rightarrow> u64 \<Rightarrow> u64 set" where
  "spec_step H seq = (if spec_accept H seq then insert seq H else H)"

definition window_rel :: "u64 set \<Rightarrow> replay_window \<Rightarrow> bool" where
  "window_rel H w \<longleftrightarrow> window_wf w \<and> (rw_valid w \<longleftrightarrow> H \<noteq> {})
     \<and> (\<forall>i < 256. test_bit w i \<longleftrightarrow> rw_valid w \<and> (\<exists>h \<in> H. unat h + i = unat (max_seq w)))
     \<and> (rw_valid w \<longrightarrow> max_seq w \<in> H \<and> (\<forall>h \<in> H. h \<le> max_seq w))"

text \<open>All numbers of the session lie within one 32-bit span, so that no distance is truncated.\<close>

definition near :: "u64 set \<Rightarrow> bool" where
  "near H \<longleftrightarrow> (\<forall>a \<in> H. \<forall>b \<in> H. unat a < unat b + 2 ^ 32)"

lemma as_usize_near: "unat a < unat b + 2 ^ 32 \<Longrightarrow> b \<le> a \<Longrightarrow> as_usize (a - b) = unat a - unat b"
  by (simp add: as_usize_def unsigned_ucast_eq take_bit_eq_mod unat_sub)

lemma window_rel_default: "window_rel {} default_window"
  by (simp add: window_rel_def default_window_def window_wf_def test_bit_map_bit)

lemma accept_first:
  assumes "window_rel H w" and "\<not> rw_valid w"
  shows "fst (accept w s)" and "window_rel {s} (snd (accept w s))"
proof -
  let ?w = "w\<lparr>rw_valid := True, max_seq := s\<rparr>"
  have wf: "window_wf ?w" and none: "\<forall>i < 256. \<not> test_bit ?w i"
    using assms by (auto simp: window_rel_def window_wf_def test_bit_map_bit)
  then have "\<forall>i < 256. test_bit (set_bit ?w 0) i \<longleftrightarrow> i = 0"
    using test_bit_set_bit [OF wf, of 0] by auto
  with assms(2) wf show "fst (accept w s)" "window_rel {s} (snd (accept w s))"
    by (auto simp: accept_def window_rel_def window_wf_def)
qed

lemma accept_above:
  assumes rel: "window_rel H w" and v: "rw_valid w" and gt: "max_seq w < s" and near: "near (insert s H)"
  shows "fst (accept w s)" and "window_rel (insert s H) (snd (accept w s))"
proof -
  let ?d = "unat s - unat (max_seq w)"
  let ?w = "(shift_right ?d w)\<lparr>max_seq := s\<rparr>"
  have max: "max_seq w \<in> H" "\<forall>h \<in> H. h \<le> max_seq w" and wf: "window_wf w"
    using rel v by (auto simp: window_rel_def)
  have d: "as_usize (s - max_seq w) = ?d"
    using near max gt by (intro as_usize_near) (auto simp: near_def)
  have acc: "accept w s = (True, set_bit ?w 0)"
    using v gt d by (simp add: accept_def)
  have wf': "window_wf ?w" using wf by (simp add: window_wf_def)
  have gt': "unat (max_seq w) < unat s" using gt by (simp add: word_less_nat_alt)
  have shift_back: "(?d \<le> i \<and> h + (i - ?d) = unat (max_seq w)) = (h + i = unat s)"
    if "h \<le> unat (max_seq w)" for h i
    using that gt' by arith
  have bits: "test_bit (set_bit ?w 0) i \<longleftrightarrow> (\<exists>h \<in> insert s H. unat h + i = unat s)" if "i < 256" for i
  proof -
    have "test_bit ?w i \<longleftrightarrow> ?d \<le> i \<and> test_bit w (i - ?d)"
      using test_bit_shift_right [OF wf that] by (simp add: test_bit_map_bit)
    also have "\<dots> \<longleftrightarrow> ?d \<le> i \<and> (\<exists>h \<in> H. unat h + (i - ?d) = unat (max_seq w))"
      using rel v that by (auto simp: window_rel_def)
    also have "\<dots> \<longleftrightarrow> (\<exists>h \<in> H. unat h + i = unat s)"
      using shift_back max gt' by (auto simp: word_le_nat_alt)
    finally show ?thesis
      using test_bit_set_bit [OF wf', of 0] that by auto
  qed
  have le: "\<forall>h \<in> H. h \<le> s" using max gt by force
  show "fst (accept w s)" by (simp add: acc)
  show "window_rel (insert s H) (snd (accept w s))"
    using bits wf' le v by (auto simp: window_rel_def acc window_wf_def)
qed

lemma accept_below:
  assumes rel: "window_rel H w" and v: "rw_valid w" and le: "s \<le> max_seq w" and near: "near (insert s H)"
  shows "fst (accept w s) = spec_accept H s" and "window_rel (spec_step H s) (snd (accept w s))"
proof -
  let ?d = "unat (max_seq w) - unat s"
  have max: "max_seq w \<in> H" "\<forall>h \<in> H. h \<le> max_seq w" and wf: "window_wf w"
    using rel v by (auto simp: window_rel_def)
  have le': "unat s \<le> unat (max_seq w)" using le by (simp add: word_le_nat_alt)
  have d: "as_usize (max_seq w - s) = ?d"
    using near max le by (intro as_usize_near) (auto simp: near_def)
  have below: "unat h \<le> unat (max_seq w)" if "h \<in> H" for h
    using max(2) that by (simp add: word_le_nat_alt)
  have old: "?d < 256 \<longleftrightarrow> (\<forall>h \<in> H. unat h < unat s + 256)"
  proof
    assume "?d < 256"
    then show "\<forall>h \<in> H. unat h < unat s + 256" using below by fastforce
  next
    assume "\<forall>h \<in> H. unat h < unat s + 256"
    then show "?d < 256" using max(1) le' by fastforce
  qed
  have seen: "test_bit w ?d \<longleftrightarrow> s \<in> H" if "?d < 256"
  proof -
    have "test_bit w ?d \<longleftrightarrow> (\<exists>h \<in> H. unat h + ?d = unat (max_seq w))"
      using rel v that by (simp add: window_rel_def)
    also have "\<dots> \<longleftrightarrow> (\<exists>h \<in> H. unat h = unat s)"
      by (rule bex_cong) (use le' in auto)
    finally show ?thesis by (metis word_unat_eq_iff)
  qed
  have acc: "accept w s = (if ?d \<ge> 256 \<or> test_bit w ?d then (False, w) else (True, set_bit w ?d))"
    using v d linorder_not_less [of "max_seq w" s] le by (simp add: accept_def)
  show fst: "fst (accept w s) = spec_accept H s"
    using old seen by (auto simp: acc spec_accept_def not_le)
  show "window_rel (spec_step H s) (snd (accept w s))"
  proof (cases "?d \<ge> 256 \<or> test_bit w ?d")
    case True
    then have "\<not> spec_accept H s" using fst by (simp add: acc)
    with True rel show ?thesis by (simp add: acc spec_step_def)
  next
    case False
    then have "spec_accept H s" using fst by (simp add: acc)
    moreover have "test_bit (set_bit w ?d) i \<longleftrightarrow> (\<exists>h \<in> insert s H. unat h + i = unat (max_seq w))"
      if "i < 256" for i
      using test_bit_set_bit [OF wf, of ?d i] False rel v that le' by (auto simp: window_rel_def)
    ultimately show ?thesis
      using False rel v le wf by (auto simp: acc spec_step_def window_rel_def window_wf_def)
  qed
qed

lemma accept_refines:
  assumes "window_rel H w" and "near (insert s H)"
  shows "fst (accept w s) = spec_accept H s" and "window_rel (spec_step H s) (snd (accept w s))"
proof -
  have "(fst (accept w s) = spec_accept H s) \<and> window_rel (spec_step H s) (snd (accept w s))"
  proof (cases "rw_valid w")
    case False
    with assms(1) have "H = {}" by (simp add: window_rel_def)
    with accept_first [OF assms(1) False, of s] show ?thesis by (simp add: spec_accept_def spec_step_def)
  next
    case v: True
    show ?thesis
    proof (cases "max_seq w < s")
      case True
      then have "spec_accept H s"
        using assms(1) v by (force simp: window_rel_def spec_accept_def word_le_nat_alt word_less_nat_alt)
      with accept_above [OF assms(1) v True assms(2)] show ?thesis by (simp add: spec_step_def)
    next
      case False
      with accept_below [OF assms(1) v _ assms(2)] show ?thesis by simp
    qed
  qed
  then show "fst (accept w s) = spec_accept H s" "window_rel (spec_step H s) (snd (accept w s))" by auto
qed

section \<open>Runs\<close>

text \<open>A run of the window over a list of numbers: the accepted ones in order, and the last state.\<close>

fun accept_run :: "replay_window \<Rightarrow> u64 list \<Rightarrow> u64 list \<times> replay_window" where
  "accept_run w [] = ([], w)"
| "accept_run w (s # ss) =
     (let (ok, w') = accept w s; (acc, w'') = accept_run w' ss
      in (if ok then s # acc else acc, w''))"

lemma near_mono: "near B \<Longrightarrow> A \<subseteq> B \<Longrightarrow> near A"
  by (auto simp: near_def)

lemma accept_run_refines:
  assumes "window_rel H w" and "near (H \<union> set ss)"
  shows "distinct (fst (accept_run w ss)) \<and> set (fst (accept_run w ss)) \<inter> H = {}
    \<and> window_rel (H \<union> set (fst (accept_run w ss))) (snd (accept_run w ss))"
  using assms
proof (induction ss arbitrary: H w)
  case Nil
  then show ?case by simp
next
  case (Cons s ss)
  have near: "near (insert s H)" by (rule near_mono [OF Cons.prems(2)]) auto
  note ref = accept_refines [OF Cons.prems(1) near]
  let ?H = "spec_step H s" and ?w = "snd (accept w s)"
  have sub: "H \<subseteq> ?H" "?H \<subseteq> insert s H" by (auto simp: spec_step_def)
  have "near (?H \<union> set ss)" by (rule near_mono [OF Cons.prems(2)]) (use sub in auto)
  with Cons.IH [OF ref(2)] have IH: "distinct (fst (accept_run ?w ss))"
    "set (fst (accept_run ?w ss)) \<inter> ?H = {}"
    "window_rel (?H \<union> set (fst (accept_run ?w ss))) (snd (accept_run ?w ss))"
    by auto
  show ?case
  proof (cases "spec_accept H s")
    case True
    then have "s \<notin> H" and "?H = insert s H" by (auto simp: spec_accept_def spec_step_def)
    then show ?thesis using True IH ref(1) by (auto simp: case_prod_beta Let_def)
  next
    case False
    then have "?H = H" by (simp add: spec_step_def)
    then show ?thesis using False IH ref(1) by (auto simp: case_prod_beta Let_def)
  qed
qed

section \<open>Properties\<close>

text \<open>
  C11. The sliding bitmap implements the set of accepted sequence numbers, as long as the accepted numbers and
  the one asked about lie within a span of 2 to the 32 (\<open>near\<close>): \<open>accept\<close> then answers exactly as the
  specification does and keeps the bitmap in step with the set. Without that condition it does not.
\<close>

theorem replay_window_refines_set:
  assumes "window_rel H w" and "near (insert seq H)"
  shows "fst (accept w seq) = spec_accept H seq \<and> window_rel (spec_step H seq) (snd (accept w seq))"
  using accept_refines [OF assms] by blast

theorem replay_window_refines_set_witness:
  "fst (accept default_window 7) \<and> window_rel (spec_step {} 7) (snd (accept default_window 7))"
proof -
  have "near (insert (7 :: u64) {})" by (simp add: near_def)
  from replay_window_refines_set [OF window_rel_default this] show ?thesis
    by (simp add: spec_accept_def)
qed

text \<open>
  C12. No sequence number is accepted twice: over any run from a fresh window, the accepted numbers
  are pairwise distinct.
\<close>

theorem no_replay:
  assumes "near (set seqs)"
  shows "distinct (fst (accept_run default_window seqs))"
  using accept_run_refines [OF window_rel_default, of seqs] assms by simp

theorem no_replay_witness:
  "near (set [5, 7, 5, 300, 5 :: u64]) \<and> distinct (fst (accept_run default_window [5, 7, 5, 300, 5]))"
proof -
  have n: "near (set [5, 7, 5, 300, 5 :: u64])" by (simp add: near_def)
  from n no_replay [OF n] show ?thesis by blast
qed

text \<open>
  The read-only check done before decryption predicts the committing one: \<open>can_accept\<close> says
  exactly whether \<open>accept\<close> will succeed, on every window.
\<close>

theorem can_accept_predicts_accept: "can_accept w seq = fst (accept w seq)"
  by (auto simp: can_accept_def accept_def Let_def)

text \<open>
  Outside the 32-bit span the guarantee fails: distances are truncated to 32 bits on the WASM
  target, so after two jumps of the sequence number by more than \<open>2^32\<close> the number 5 is
  accepted a second time.
\<close>

theorem replay_accepted_after_truncation:
  "fst (accept_run default_window [5, 4294967601, 8589934607, 5]) = [5, 4294967601, 8589934607, 5]"
proof -
  let ?w = "\<lambda>m. \<lparr>max_seq = m, bitmap = (replicate 32 0)[0 := 1], rw_valid = True\<rparr>"
  have "accept default_window 5 = (True, ?w 5)"
    and "accept (?w 5) 4294967601 = (True, ?w 4294967601)"
    and "accept (?w 4294967601) 8589934607 = (True, ?w 8589934607)"
    and "fst (accept (?w 8589934607) 5)"
    by (simp_all add: accept_def set_bit_def default_window_def shift_right_def as_usize_def test_bit_def)
  then show ?thesis by (simp add: case_prod_beta Let_def)
qed

end
