(* ===== verification/Proto.thy ===== *)
theory Proto
  imports Store
begin

text \<open>
  The messages of \<^verbatim>\<open>protos/*.proto\<close> that the program reads or builds, as records with the
  schema's field names (prefixed per message where two messages share one), and the third-party
  code the program calls, as records of functions: \<open>codec\<close> for the code that \<^verbatim>\<open>prost\<close> generates at
  build time, \<open>crypto\<close> for the \<^verbatim>\<open>snow\<close>, \<^verbatim>\<open>x25519-dalek\<close>, \<^verbatim>\<open>hmac\<close>, \<^verbatim>\<open>aes-gcm\<close>, \<^verbatim>\<open>chacha20poly1305\<close> and
  \<^verbatim>\<open>base64\<close> crates. Definitions that call them take the record as an argument.
\<close>

section \<open>JSON values crossing the WASM boundary\<close>

datatype json = JNull | JBool bool | JNum rat | JStr ustring | JArr "json list" | JObj "(ustring \<times> json) list"

section \<open>Common messages\<close>

record uuid =
  part1 :: u32
  part2 :: u32
  part3 :: u32
  part4 :: u32

record peer_feature_flag =
  is_public_server :: bool
  avoid_relay_data :: bool
  kcp_input :: bool
  no_relay_kcp :: bool
  support_conn_list_sync :: bool
  quic_input :: bool
  no_relay_quic :: bool
  is_credential_peer :: bool
  need_p2p :: bool
  disable_p2p :: bool
  ipv6_public_addr_provider :: bool

definition default_feature_flag :: peer_feature_flag where
  "default_feature_flag = \<lparr>is_public_server = False, avoid_relay_data = False, kcp_input = False,
     no_relay_kcp = False, support_conn_list_sync = False, quic_input = False, no_relay_quic = False,
     is_credential_peer = False, need_p2p = False, disable_p2p = False,
     ipv6_public_addr_provider = False\<rparr>"

record rpc_descriptor =
  domain_name :: ustring
  proto_name :: ustring
  service_name :: ustring
  method_index :: u32

record rpc_compression_info =
  algo :: int
  accepted_algo :: int

record rpc_packet =
  from_peer :: u32
  to_peer :: u32
  transaction_id :: u64
  descriptor :: "rpc_descriptor option"
  rp_body :: bytes
  is_request :: bool
  total_pieces :: u32
  piece_idx :: u32
  trace_id :: u32
  compression_info :: "rpc_compression_info option"

record rpc_request =
  rq_request :: bytes
  timeout_ms :: u32

datatype rpc_error_kind = InvalidMethodIndex ustring u32 | InvalidService ustring | OtherErrorKind bytes

record rpc_response =
  rr_response :: bytes
  rr_error :: "rpc_error_kind option"
  runtime_us :: u64

section \<open>Route synchronisation\<close>

text \<open>
  \<open>RoutePeerInfo\<close>: the fields the program reads or writes; \<open>pi_other\<close> stands for the wire fields it
  only carries along (addresses, NAT types, groups, credentials).
\<close>

record route_peer_info =
  pi_peer_id :: peer_id
  inst_id :: "uuid option"
  cost :: u32
  ipv4_addr :: "u32 option"
  hostname :: "ustring option"
  last_update :: "int option"
  pi_version :: u32
  easytier_version :: ustring
  feature_flag :: "peer_feature_flag option"
  peer_route_id :: u64
  network_length :: u32
  noise_static_pubkey :: bytes
  pi_other :: bytes

record peer_id_version =
  pv_peer_id :: peer_id
  pv_version :: u32

record peer_conn_info =
  ci_peer_id :: "peer_id_version option"
  connected_peer_ids :: "peer_id list"

record route_conn_bitmap =
  cb_peer_ids :: "peer_id_version list"
  cb_bitmap :: bytes

datatype conn_info = ConnBitmap route_conn_bitmap | ConnPeerList "peer_conn_info list"

record sync_route_info_request =
  sr_my_peer_id :: peer_id
  sr_my_session_id :: u64
  sr_is_initiator :: bool
  sr_peer_infos :: "route_peer_info list option"
  sr_conn_info :: "conn_info option"

datatype sync_route_info_error = DuplicatePeerId | Stopped

record sync_route_info_response =
  sp_is_initiator :: bool
  sp_session_id :: u64
  sp_error :: "sync_route_info_error option"

section \<open>Peer center\<close>

record direct_connected_peer_info =
  latency_ms :: u32

record report_peers_request =
  rpr_my_peer_id :: peer_id
  rpr_peer_infos :: "(peer_id, direct_connected_peer_info) jmap option"

record get_global_peer_map_response =
  global_peer_map :: "(peer_id, (peer_id, direct_connected_peer_info) jmap) jmap"
  gm_digest :: "u64 option"

section \<open>Handshakes\<close>

record handshake_request =
  hr_magic :: u32
  hr_my_peer_id :: peer_id
  hr_version :: u32
  hr_features :: "ustring list"
  hr_network_name :: ustring
  hr_network_secret_digest :: bytes

record noise_msg1 =
  m1_version :: u32
  a_network_name :: ustring
  a_session_generation :: "u32 option"
  a_conn_id :: "uuid option"
  client_encryption_algorithm :: ustring

datatype session_action = Join | Sync | Create

record noise_msg2 =
  b_network_name :: ustring
  role_hint :: u32
  m2_action :: session_action
  b_session_generation :: u32
  root_key_32 :: "bytes option"
  m2_initial_epoch :: u32
  m2_b_conn_id :: "uuid option"
  m2_a_conn_id_echo :: "uuid option"
  m2_secret_proof :: "bytes option"
  server_encryption_algorithm :: ustring

record noise_msg3 =
  m3_a_conn_id_echo :: "uuid option"
  m3_b_conn_id_echo :: "uuid option"
  m3_secret_proof :: "bytes option"

section \<open>Generated codecs\<close>

record codec =
  dec_rpc_packet :: "bytes \<Rightarrow> rpc_packet option"
  enc_rpc_packet :: "rpc_packet \<Rightarrow> bytes"
  dec_rpc_request :: "bytes \<Rightarrow> rpc_request option"
  enc_rpc_request :: "rpc_request \<Rightarrow> bytes"
  dec_rpc_response :: "bytes \<Rightarrow> rpc_response option"
  enc_rpc_response :: "rpc_response \<Rightarrow> bytes"
  dec_sync_request :: "bytes \<Rightarrow> sync_route_info_request option"
  enc_sync_request :: "sync_route_info_request \<Rightarrow> bytes"
  dec_sync_response :: "bytes \<Rightarrow> sync_route_info_response option"
  enc_sync_response :: "sync_route_info_response \<Rightarrow> bytes"
  enc_route_peer_info :: "route_peer_info \<Rightarrow> bytes"
  dec_report_peers :: "bytes \<Rightarrow> report_peers_request option"
  enc_report_peers_response :: bytes
  dec_global_map_request :: "bytes \<Rightarrow> u64 option"
  enc_global_map_response :: "get_global_peer_map_response \<Rightarrow> bytes"
  dec_handshake_request :: "bytes \<Rightarrow> handshake_request option"
  enc_handshake_request :: "handshake_request \<Rightarrow> bytes"
  dec_noise_msg1 :: "bytes \<Rightarrow> noise_msg1 option"
  enc_noise_msg2 :: "noise_msg2 \<Rightarrow> bytes"
  dec_noise_msg3 :: "bytes \<Rightarrow> noise_msg3 option"

section \<open>Cryptographic libraries\<close>

text \<open>
  A Noise handshake state is determined by what it was built from (the static key, the randomness of
  its ephemeral key) and the messages it has read and written; the library functions are functions
  of that history.
\<close>

record noise_state =
  ns_private :: bytes
  ns_seed :: bytes
  ns_history :: "(bool \<times> bytes) list"

record crypto =
  x25519_public :: "bytes \<Rightarrow> bytes"
  b64_decode :: "ustring \<Rightarrow> bytes option"
  b64_encode :: "bytes \<Rightarrow> ustring"
  hmac_sha256 :: "bytes \<Rightarrow> bytes \<Rightarrow> bytes"
  aead_seal :: "string \<Rightarrow> bytes \<Rightarrow> bytes \<Rightarrow> bytes \<Rightarrow> (bytes \<times> bytes) option"
  aead_open :: "string \<Rightarrow> bytes \<Rightarrow> bytes \<Rightarrow> bytes \<Rightarrow> bytes \<Rightarrow> bytes option"
  noise_read :: "noise_state \<Rightarrow> bytes \<Rightarrow> bytes option"
  noise_write :: "noise_state \<Rightarrow> bytes \<Rightarrow> bytes option"
  noise_hash :: "noise_state \<Rightarrow> bytes"
  noise_remote_static :: "noise_state \<Rightarrow> bytes option"

section \<open>A concrete codec\<close>

text \<open>One codec, for the concrete instances of theorems whose hypotheses mention the generated code.\<close>

definition toy_codec :: codec where
  "toy_codec = \<lparr>dec_rpc_packet = (\<lambda>_. None), enc_rpc_packet = (\<lambda>_. []), dec_rpc_request = (\<lambda>_. None),
     enc_rpc_request = (\<lambda>_. []), dec_rpc_response = (\<lambda>_. None), enc_rpc_response = (\<lambda>_. []),
     dec_sync_request = (\<lambda>_. None), enc_sync_request = (\<lambda>_. []), dec_sync_response = (\<lambda>_. None),
     enc_sync_response = (\<lambda>_. []), enc_route_peer_info = (\<lambda>_. []), dec_report_peers = (\<lambda>_. None),
     enc_report_peers_response = [], dec_global_map_request = (\<lambda>_. None), enc_global_map_response = (\<lambda>_. []),
     dec_handshake_request = (\<lambda>_. None), enc_handshake_request = (\<lambda>_. []),
     dec_noise_msg1 = (\<lambda>_. Some \<lparr>m1_version = 1, a_network_name = [110], a_session_generation = None, a_conn_id = None,
       client_encryption_algorithm = ustr ''aes-gcm''\<rparr>),
     enc_noise_msg2 = (\<lambda>_. []), dec_noise_msg3 = (\<lambda>p. Some \<lparr>m3_a_conn_id_echo = None,
       m3_b_conn_id_echo = Some \<lparr>part1 = 1, part2 = 2, part3 = 3, part4 = 4\<rparr>, m3_secret_proof = Some p\<rparr>)\<rparr>"

end
