(* ===== verification/Secure.thy ===== *)
theory Secure
  imports Proto Packet Replay
begin

unbundle bit_operations_syntax

text \<open>
  The secure-mode peer of \<^verbatim>\<open>wasm/src/secure.rs\<close>: the Noise XX handshake with the network-secret proof,
  the store of peer sessions shared by reconnecting sockets, and the datagram protection with epochs,
  sequence numbers and the replay windows. The clock and the randomness an operation draws are
  arguments; the \<open>SESSION_STORE\<close> thread-local is passed in and out. The seven traffic fields that
  \<open>SecurePeer\<close> and \<open>StoredSession\<close> both hold, and that \<open>load_session_state\<close> and
  \<open>persist_session_state\<close> copy, form the record \<open>traffic\<close>.
\<close>

section \<open>State\<close>

record epoch_slot =
  es_epoch :: u32
  es_window :: replay_window
  es_last_rx_ms :: nat
  es_valid :: bool

definition default_slot :: epoch_slot where
  "default_slot = \<lparr>es_epoch = 0, es_window = default_window, es_last_rx_ms = 0, es_valid = False\<rparr>"

definition slot_clear :: "epoch_slot \<Rightarrow> epoch_slot" where
  "slot_clear s = s\<lparr>es_epoch := 0, es_window := clear_window (es_window s), es_last_rx_ms := 0, es_valid := False\<rparr>"

definition default_slots :: "epoch_slot list list" where
  "default_slots = [[default_slot, default_slot], [default_slot, default_slot]]"

record rx_grace =
  gr_slots :: "epoch_slot list list"
  gr_expires_at_ms :: nat
  gr_valid :: bool

definition default_grace :: rx_grace where
  "default_grace = \<lparr>gr_slots = default_slots, gr_expires_at_ms = 0, gr_valid = False\<rparr>"

record traffic =
  send_epoch :: u32
  send_seq :: "u64 list"
  send_epoch_started_ms :: nat
  send_packets_since_epoch :: nat
  rx_slots :: "epoch_slot list list"
  sync_rx_grace :: rx_grace
  decrypt_fail_count :: nat

record session_key =
  sk_network_name :: ustring
  sk_peer_id :: peer_id
  sk_server_peer_id :: peer_id
  sk_server_public_key :: bytes

record stored_session =
  st_root_key :: bytes
  st_generation :: u32
  st_traffic :: traffic
  st_client_algorithm :: ustring
  st_remote_public_key :: "bytes option"
  st_last_touch_ms :: nat
  st_attachments :: nat

type_synonym session_store = "(session_key, stored_session) jmap"

record session_selection =
  sel_action :: session_action
  sel_generation :: u32
  sel_root_key_for_peer :: "bytes option"
  sel_session_root_key :: bytes
  sel_initial_epoch :: u32

record secure_peer =
  local_private :: bytes
  local_public :: bytes
  server_peer_id :: peer_id
  sp_peer_id :: "peer_id option"
  sp_network_name :: "ustring option"
  sp_client_algorithm :: "ustring option"
  sp_a_session_generation :: "u32 option"
  sp_a_conn_id :: "uuid option"
  sp_b_conn_id :: "uuid option"
  handshake :: "noise_state option"
  proof_challenge :: "bytes option"
  network_secret :: "bytes option"
  root_key :: "bytes option"
  sp_session_key :: "session_key option"
  session_attached :: bool
  sp_traffic :: traffic
  authenticated :: bool

definition RX_EPOCH_IDLE_MS :: nat where "RX_EPOCH_IDLE_MS = 30000"
definition ROTATE_AFTER_PACKETS :: nat where "ROTATE_AFTER_PACKETS = 1000000"
definition ROTATE_AFTER_MS :: nat where "ROTATE_AFTER_MS = 600000"
definition MAX_ACCEPTED_RX_EPOCH_AHEAD :: u32 where "MAX_ACCEPTED_RX_EPOCH_AHEAD = 3"
definition DECRYPT_FAIL_THRESHOLD :: nat where "DECRYPT_FAIL_THRESHOLD = 10"
definition SYNC_RX_GRACE_AFTER_MS :: nat where "SYNC_RX_GRACE_AFTER_MS = 5000"
definition SESSION_IDLE_MS :: nat where "SESSION_IDLE_MS = 60000"
definition MAX_STORED_SESSIONS :: nat where "MAX_STORED_SESSIONS = 2048"

lemmas secure_consts [edge_simps] =
  RX_EPOCH_IDLE_MS_def ROTATE_AFTER_PACKETS_def ROTATE_AFTER_MS_def MAX_ACCEPTED_RX_EPOCH_AHEAD_def
  DECRYPT_FAIL_THRESHOLD_def SYNC_RX_GRACE_AFTER_MS_def SESSION_IDLE_MS_def MAX_STORED_SESSIONS_def

section \<open>Saturating arithmetic and big-endian fields\<close>

definition sat_add64 :: "nat \<Rightarrow> nat \<Rightarrow> nat" where
  "sat_add64 a b = min (a + b) (2 ^ 64 - 1)"

definition sat_add_u32 :: "u32 \<Rightarrow> u32 \<Rightarrow> u32" where
  "sat_add_u32 a b = (if unat a + unat b < 2 ^ 32 then a + b else - 1)"

definition u32_to_be_bytes :: "u32 \<Rightarrow> bytes" where
  "u32_to_be_bytes w = rev (u32_to_le_bytes w)"

definition u32_from_be_bytes :: "bytes \<Rightarrow> u32" where
  "u32_from_be_bytes bs = u32_from_le_bytes (bs ! 3) (bs ! 2) (bs ! 1) (bs ! 0)"

definition u64_to_be_bytes :: "u64 \<Rightarrow> bytes" where
  "u64_to_be_bytes w = u32_to_be_bytes (ucast (drop_bit 32 w)) @ u32_to_be_bytes (ucast w)"

definition u64_from_be_bytes :: "bytes \<Rightarrow> u64" where
  "u64_from_be_bytes bs = push_bit 32 (ucast (u32_from_be_bytes (take 4 bs))) OR ucast (u32_from_be_bytes (drop 4 bs))"

section \<open>Replay protection across epochs\<close>

definition evict_slot :: "nat \<Rightarrow> epoch_slot \<Rightarrow> epoch_slot" where
  "evict_slot current_ms slot =
     (if es_valid slot \<and> es_last_rx_ms slot \<noteq> 0 \<and> current_ms - es_last_rx_ms slot > RX_EPOCH_IDLE_MS
      then slot_clear slot else slot)"

definition evict_slots :: "nat \<Rightarrow> epoch_slot list list \<Rightarrow> epoch_slot list list" where
  "evict_slots current_ms slots = map (map (evict_slot current_ms)) slots"

definition evict_old_rx_slots :: "nat \<Rightarrow> traffic \<Rightarrow> traffic" where
  "evict_old_rx_slots current_ms t =
     (let t' = t\<lparr>rx_slots := evict_slots current_ms (rx_slots t)\<rparr>; g = sync_rx_grace t
      in if gr_valid g \<and> current_ms \<ge> gr_expires_at_ms g then t'\<lparr>sync_rx_grace := default_grace\<rparr>
         else if gr_valid g
         then t'\<lparr>sync_rx_grace := g\<lparr>gr_slots := evict_slots current_ms (gr_slots g)\<rparr>\<rparr>
         else t')"

text \<open>The loop over the grace slots of a direction stops at the first valid slot of the epoch.\<close>

fun find_slot :: "u32 \<Rightarrow> epoch_slot list \<Rightarrow> nat option" where
  "find_slot epoch [] = None"
| "find_slot epoch (s # ss) =
     (if es_valid s \<and> es_epoch s = epoch then Some 0 else map_option Suc (find_slot epoch ss))"

definition grace_slot :: "traffic \<Rightarrow> u32 \<Rightarrow> nat \<Rightarrow> nat option" where
  "grace_slot t epoch direction =
     (if gr_valid (sync_rx_grace t) then find_slot epoch (gr_slots (sync_rx_grace t) ! direction) else None)"

definition precheck_replay :: "traffic \<Rightarrow> u32 \<Rightarrow> u64 \<Rightarrow> nat \<Rightarrow> bool" where
  "precheck_replay t epoch sequence direction =
     (case grace_slot t epoch direction of
        Some i \<Rightarrow> can_accept (es_window (gr_slots (sync_rx_grace t) ! direction ! i)) sequence
      | None \<Rightarrow>
          let s0 = rx_slots t ! direction ! 0; s1 = rx_slots t ! direction ! 1
          in if \<not> es_valid s0 then True
             else if es_epoch s0 = epoch then can_accept (es_window s0) sequence
             else if es_valid s1 \<and> es_epoch s1 = epoch then can_accept (es_window s1) sequence
             else if epoch > es_epoch s0
             then let b0 = max (send_epoch t) (es_epoch s0);
                      b1 = (if es_valid s1 then max b0 (es_epoch s1) else b0)
                  in epoch \<le> sat_add_u32 b1 MAX_ACCEPTED_RX_EPOCH_AHEAD
             else False)"

text \<open>\<open>window.accept\<close> on a slot, with the receive time refreshed first.\<close>

definition slot_accept :: "nat \<Rightarrow> u64 \<Rightarrow> epoch_slot \<Rightarrow> bool \<times> epoch_slot" where
  "slot_accept received_at_ms sequence s =
     (let (ok, w) = accept (es_window s) sequence in (ok, s\<lparr>es_last_rx_ms := received_at_ms, es_window := w\<rparr>))"

definition fresh_slot :: "u32 \<Rightarrow> nat \<Rightarrow> epoch_slot" where
  "fresh_slot epoch received_at_ms =
     \<lparr>es_epoch = epoch, es_window = default_window, es_last_rx_ms = received_at_ms, es_valid = True\<rparr>"

definition commit_slots :: "u32 \<Rightarrow> u64 \<Rightarrow> nat \<Rightarrow> epoch_slot list \<Rightarrow> bool \<times> epoch_slot list" where
  "commit_slots epoch sequence received_at_ms slots =
     (let slots = (if es_valid (slots ! 0) then slots else slots[0 := fresh_slot epoch received_at_ms])
      in if es_epoch (slots ! 0) = epoch
         then let (ok, s) = slot_accept received_at_ms sequence (slots ! 0) in (ok, slots[0 := s])
         else if es_valid (slots ! 1) \<and> es_epoch (slots ! 1) = epoch
         then let (ok, s) = slot_accept received_at_ms sequence (slots ! 1) in (ok, slots[1 := s])
         else if epoch > es_epoch (slots ! 0)
         then let slots = slots[1 := slots ! 0, 0 := fresh_slot epoch received_at_ms];
                  (ok, s) = slot_accept received_at_ms sequence (slots ! 0)
              in (ok, slots[0 := s])
         else (False, slots))"

definition commit_replay :: "traffic \<Rightarrow> u32 \<Rightarrow> u64 \<Rightarrow> nat \<Rightarrow> nat \<Rightarrow> bool \<times> traffic" where
  "commit_replay t epoch sequence direction received_at_ms =
     (case grace_slot t epoch direction of
        Some i \<Rightarrow>
          let g = sync_rx_grace t; ds = gr_slots g ! direction;
              (ok, s) = slot_accept received_at_ms sequence (ds ! i)
          in (ok, t\<lparr>sync_rx_grace := g\<lparr>gr_slots := (gr_slots g)[direction := ds[i := s]]\<rparr>\<rparr>)
      | None \<Rightarrow>
          let (ok, ds) = commit_slots epoch sequence received_at_ms (rx_slots t ! direction)
          in (ok, t\<lparr>rx_slots := (rx_slots t)[direction := ds]\<rparr>))"

section \<open>Traffic keys and payload protection\<close>

definition normalized_algorithm :: "ustring \<Rightarrow> string res" where
  "normalized_algorithm v =
     (let lower = map (\<lambda>c. if 65 \<le> c \<and> c \<le> 90 then c + 32 else c) v
      in if lower = ustr ''aes-gcm'' then Inr ''aes-gcm''
         else if lower = ustr ''aes-256-gcm'' then Inr ''aes-256-gcm''
         else if lower = ustr ''chacha20'' \<or> lower = ustr ''chacha20-poly1305'' then Inr ''chacha20''
         else raise ''unsupported EasyTier encryption algorithm'')"

definition SERVER_ENCRYPTION_ALGORITHM :: ustring where
  "SERVER_ENCRYPTION_ALGORITHM = ustr ''aes-gcm''"

definition seal :: "crypto \<Rightarrow> ustring \<Rightarrow> bytes \<Rightarrow> bytes \<Rightarrow> bytes \<Rightarrow> (bytes \<times> bytes) res" where
  "seal C algorithm key nonce plaintext =
     bind_res (normalized_algorithm algorithm) (\<lambda>a.
       let k = (if a = ''aes-gcm'' then take 16 key else key)
       in case aead_seal C a k nonce plaintext of
            None \<Rightarrow> raise ''AEAD encryption failed'' | Some ct \<Rightarrow> Inr ct)"

definition open_sealed :: "crypto \<Rightarrow> ustring \<Rightarrow> bytes \<Rightarrow> bytes \<Rightarrow> bytes \<Rightarrow> bytes \<Rightarrow> bytes res" where
  "open_sealed C algorithm key nonce ciphertext tag =
     bind_res (normalized_algorithm algorithm) (\<lambda>a.
       let k = (if a = ''aes-gcm'' then take 16 key else key)
       in case aead_open C a k nonce ciphertext tag of
            None \<Rightarrow> raise ''EasyTier session decryption failed'' | Some p \<Rightarrow> Inr p)"

definition direction_index :: "u32 \<Rightarrow> u32 \<Rightarrow> nat" where
  "direction_index sender receiver = (if sender \<ge> receiver then 1 else 0)"

definition bytes_of :: "string \<Rightarrow> bytes" where
  "bytes_of s = map (\<lambda>c. of_nat (of_char c)) s"

definition traffic_key :: "crypto \<Rightarrow> bytes option \<Rightarrow> u32 \<Rightarrow> nat \<Rightarrow> bytes res" where
  "traffic_key C rootk epoch direction =
     (case rootk of
        None \<Rightarrow> raise ''root key is missing''
      | Some rk \<Rightarrow>
          let prk = hmac_sha256 C (replicate 32 0) rk
          in Inr (hmac_sha256 C prk (bytes_of ''et-traffic'' @ u32_to_be_bytes epoch @ [of_nat direction] @ [1])))"

definition maybe_rotate_epoch :: "nat \<Rightarrow> traffic \<Rightarrow> traffic" where
  "maybe_rotate_epoch current_ms t =
     (let t = t\<lparr>send_packets_since_epoch := sat_add64 (send_packets_since_epoch t) 1\<rparr>
      in if send_packets_since_epoch t < ROTATE_AFTER_PACKETS
            \<and> current_ms - send_epoch_started_ms t < ROTATE_AFTER_MS
         then t
         else t\<lparr>send_epoch := send_epoch t + 1, send_epoch_started_ms := current_ms,
                send_packets_since_epoch := 0\<rparr>)"

definition nonce_of :: "u32 \<Rightarrow> u64 \<Rightarrow> bytes" where
  "nonce_of epoch sequence = u32_to_be_bytes epoch @ u64_to_be_bytes sequence"

definition encrypt_payload ::
    "crypto \<Rightarrow> nat \<Rightarrow> bytes option \<Rightarrow> ustring \<Rightarrow> nat \<Rightarrow> bytes \<Rightarrow> traffic \<Rightarrow> bytes res \<times> traffic" where
  "encrypt_payload C now rootk algorithm direction plaintext t =
     (let t1 = maybe_rotate_epoch now t;
          epoch = send_epoch t1;
          sequence = send_seq t1 ! direction
      in if sequence = - 1 then (raise ''secure packet sequence exhausted'', t1)
         else let t2 = t1\<lparr>send_seq := (send_seq t1)[direction := sequence + 1]\<rparr>;
                  nonce = nonce_of epoch sequence
              in (bind_res (traffic_key C rootk epoch direction) (\<lambda>key.
                    bind_res (seal C algorithm key nonce plaintext) (\<lambda>(ciphertext, tag).
                      Inr (ciphertext @ tag @ nonce))), t2))"

definition decrypt_payload ::
    "crypto \<Rightarrow> nat \<Rightarrow> bytes option \<Rightarrow> ustring \<Rightarrow> nat \<Rightarrow> bytes \<Rightarrow> traffic \<Rightarrow> bytes option res \<times> traffic" where
  "decrypt_payload C now rootk algorithm direction pl t =
     (if length pl < EASYTIER_AEAD_TAIL_SIZE then (raise ''encrypted EasyTier payload is too short'', t)
      else
        let text_len = length pl - EASYTIER_AEAD_TAIL_SIZE;
            tag = take 16 (drop text_len pl);
            nonce = drop (text_len + 16) pl;
            epoch = u32_from_be_bytes (take 4 nonce);
            sequence = u64_from_be_bytes (drop 4 nonce);
            t1 = evict_old_rx_slots now t
        in if \<not> precheck_replay t1 epoch sequence direction then (Inr None, t1)
           else case traffic_key C rootk epoch direction of
             Inl e \<Rightarrow> (Inl e, t1)
           | Inr key \<Rightarrow>
               (case open_sealed C algorithm key nonce (take text_len pl) tag of
                  Inl e \<Rightarrow>
                    let t2 = t1\<lparr>decrypt_fail_count := min (decrypt_fail_count t1 + 1) (2 ^ 32 - 1)\<rparr>
                    in if decrypt_fail_count t2 \<ge> DECRYPT_FAIL_THRESHOLD then (Inl e, t2) else (Inr None, t2)
                | Inr plaintext \<Rightarrow>
                    let (ok, t2) = commit_replay (t1\<lparr>decrypt_fail_count := 0\<rparr>) epoch sequence direction now
                    in (if ok then Inr (Some plaintext) else Inr None, t2)))"

section \<open>The session store\<close>

definition new_traffic :: "nat \<Rightarrow> traffic" where
  "new_traffic now = \<lparr>send_epoch = 0, send_seq = [0, 0], send_epoch_started_ms = now,
     send_packets_since_epoch = 0, rx_slots = default_slots, sync_rx_grace = default_grace,
     decrypt_fail_count = 0\<rparr>"

definition sync_epoch :: "traffic \<Rightarrow> u32" where
  "sync_epoch t =
     fold (\<lambda>slot e. if es_valid slot then max e (es_epoch slot) else e) (concat (rx_slots t)) (send_epoch t)"

definition sync_traffic :: "nat \<Rightarrow> traffic \<Rightarrow> traffic" where
  "sync_traffic current_ms t = t\<lparr>
     send_epoch := sync_epoch t + 1,
     send_seq := [0, 0],
     send_epoch_started_ms := current_ms,
     send_packets_since_epoch := 0,
     sync_rx_grace := \<lparr>gr_slots = rx_slots t,
        gr_expires_at_ms = sat_add64 current_ms SYNC_RX_GRACE_AFTER_MS, gr_valid = True\<rparr>,
     rx_slots := default_slots,
     decrypt_fail_count := 0\<rparr>"

definition upsert_session ::
    "nat \<Rightarrow> bytes option \<Rightarrow> session_key \<Rightarrow> u32 option \<Rightarrow> ustring \<Rightarrow> session_store
       \<Rightarrow> session_selection res \<times> session_store" where
  "upsert_session current_ms rand32 key a_gen client_alg store =
     (let sessions = jretain (\<lambda>_ s. st_attachments s > 0 \<or> current_ms - st_last_touch_ms s < SESSION_IDLE_MS) store
      in case jget sessions key of
           Some session \<Rightarrow>
             if st_client_algorithm session \<noteq> client_alg
             then (raise ''reconnecting peer changed its secure-session encryption algorithm'', sessions)
             else if a_gen = Some (st_generation session)
             then (Inr \<lparr>sel_action = Join, sel_generation = st_generation session,
                        sel_root_key_for_peer = None, sel_session_root_key = st_root_key session,
                        sel_initial_epoch = 0\<rparr>,
                   jset key (session\<lparr>st_last_touch_ms := current_ms\<rparr>) sessions)
             else let session' = session\<lparr>st_traffic := sync_traffic current_ms (st_traffic session),
                                         st_last_touch_ms := current_ms\<rparr>
                  in (Inr \<lparr>sel_action = Sync, sel_generation = st_generation session,
                           sel_root_key_for_peer = Some (st_root_key session),
                           sel_session_root_key = st_root_key session,
                           sel_initial_epoch = send_epoch (st_traffic session')\<rparr>,
                      jset key session' sessions)
         | None \<Rightarrow>
             if length sessions \<ge> MAX_STORED_SESSIONS
             then (raise ''secure peer session capacity exceeded'', sessions)
             else case rand32 of
               None \<Rightarrow> (raise ''getrandom failed'', sessions)
             | Some rk \<Rightarrow>
                 (Inr \<lparr>sel_action = Create, sel_generation = 1, sel_root_key_for_peer = Some rk,
                       sel_session_root_key = rk, sel_initial_epoch = 0\<rparr>,
                  jset key \<lparr>st_root_key = rk, st_generation = 1, st_traffic = new_traffic current_ms,
                     st_client_algorithm = client_alg, st_remote_public_key = None,
                     st_last_touch_ms = current_ms, st_attachments = 0\<rparr> sessions))"

definition confirm_session_public_key ::
    "nat \<Rightarrow> session_key \<Rightarrow> bytes \<Rightarrow> session_store \<Rightarrow> unit res \<times> session_store" where
  "confirm_session_public_key now key remote store =
     (case jget store key of
        None \<Rightarrow> (raise ''secure session disappeared during authentication'', store)
      | Some session \<Rightarrow>
          if (case st_remote_public_key session of None \<Rightarrow> False | Some current \<Rightarrow> current \<noteq> remote)
          then (raise ''reconnecting peer changed its Noise static public key'', store)
          else (Inr (), jset key (session\<lparr>st_remote_public_key := Some remote, st_last_touch_ms := now\<rparr>) store))"

section \<open>The secure peer\<close>

definition decode_key :: "crypto \<Rightarrow> ustring \<Rightarrow> bytes res" where
  "decode_key C v =
     (case b64_decode C v of
        None \<Rightarrow> raise ''local key is not valid base64''
      | Some bs \<Rightarrow> if length bs = 32 then Inr bs
                   else Inl (JsError ''local key must decode to 32 bytes'' [length bs]))"

definition new_secure_peer :: "crypto \<Rightarrow> nat \<Rightarrow> ustring \<Rightarrow> ustring \<Rightarrow> peer_id \<Rightarrow> secure_peer res" where
  "new_secure_peer C now private64 public64 server_id =
     (if server_id = 0 then raise ''server peer id must not be zero''
      else bind_res (decode_key C private64) (\<lambda>priv.
           bind_res (decode_key C public64) (\<lambda>configured_public.
             if x25519_public C priv \<noteq> configured_public
             then raise ''local_public_key does not match local_private_key''
             else Inr \<lparr>local_private = priv, local_public = configured_public, server_peer_id = server_id,
                    sp_peer_id = None, sp_network_name = None, sp_client_algorithm = None,
                    sp_a_session_generation = None, sp_a_conn_id = None, sp_b_conn_id = None,
                    handshake = None, proof_challenge = None, network_secret = None, root_key = None,
                    sp_session_key = None, session_attached = False, sp_traffic = new_traffic now,
                    authenticated = False\<rparr>)))"

definition split_packet :: "bytes \<Rightarrow> (rs_header \<times> bytes) res" where
  "split_packet bs = bind_res (parse_packet bs) (\<lambda>h. Inr (h, drop EASYTIER_HEADER_SIZE bs))"

definition join_header_payload :: "rs_header \<Rightarrow> bytes \<Rightarrow> bytes" where
  "join_header_payload h pl = to_bytes h @ pl"

definition wrap_packet :: "u32 \<Rightarrow> u32 \<Rightarrow> byte \<Rightarrow> byte \<Rightarrow> bytes \<Rightarrow> bytes" where
  "wrap_packet f t ptype flg pl = join_header_payload
     \<lparr>from_peer_id = f, to_peer_id = t, packet_type = ptype, rs_flags = flg, forward_counter = 1,
      rs_reserved = 0, rs_len = of_nat (length pl)\<rparr> pl"

definition read_msg1 ::
    "crypto \<Rightarrow> codec \<Rightarrow> bytes \<Rightarrow> bytes \<Rightarrow> secure_peer \<Rightarrow> json res \<times> secure_peer" where
  "read_msg1 C K seed pkt p =
     (let r =
        (if handshake p \<noteq> None \<or> authenticated p then raise ''handshake already started''
         else bind_res (split_packet pkt) (\<lambda>(h, pl).
           if packet_type h \<noteq> 13 \<or> rs_flags h AND ENCRYPTED_FLAG \<noteq> 0
           then raise ''secure mode requires an unencrypted NoiseHandshakeMsg1''
           else if from_peer_id h = 0 \<or> from_peer_id h = server_peer_id p
           then raise ''invalid or conflicting client peer id''
           else let hs = \<lparr>ns_private = local_private p, ns_seed = seed, ns_history = []\<rparr>
             in case noise_read C hs pl of
                  None \<Rightarrow> raise ''noise read failed''
                | Some decoded \<Rightarrow>
                    (case dec_noise_msg1 K decoded of
                       None \<Rightarrow> raise ''decode PeerConnNoiseMsg1Pb failed''
                     | Some m \<Rightarrow>
                         if m1_version m \<noteq> 1 then raise ''unsupported EasyTier secure handshake version''
                         else if a_network_name m = [] \<or> utf8_length (a_network_name m) > 255
                         then raise ''invalid network_name''
                         else bind_res (normalized_algorithm (client_encryption_algorithm m)) (\<lambda>_.
                           Inr (h, m, hs\<lparr>ns_history := [(True, pl)]\<rparr>)))))
      in case r of
           Inl e \<Rightarrow> (Inl e, p)
         | Inr (h, m, hs) \<Rightarrow>
             (Inr (JObj [(ustr ''peer_id'', JNum (of_nat (unat (from_peer_id h)))),
                         (ustr ''network_name'', JStr (a_network_name m)),
                         (ustr ''client_encryption_algorithm'', JStr (client_encryption_algorithm m))]),
              p\<lparr>sp_peer_id := Some (from_peer_id h), sp_network_name := Some (a_network_name m),
                sp_client_algorithm := Some (client_encryption_algorithm m),
                sp_a_session_generation := a_session_generation m, sp_a_conn_id := a_conn_id m,
                handshake := Some hs\<rparr>))"

definition secret_proof :: "crypto \<Rightarrow> bytes \<Rightarrow> bytes \<Rightarrow> bytes" where
  "secret_proof C secret challenge = hmac_sha256 C secret (bytes_of ''easytier secret proof'' @ challenge)"

definition attach_session :: "nat \<Rightarrow> secure_peer \<Rightarrow> session_store \<Rightarrow> unit res \<times> secure_peer \<times> session_store" where
  "attach_session now p store =
     (case sp_session_key p of
        None \<Rightarrow> (raise ''secure session key is missing'', p, store)
      | Some key \<Rightarrow>
          (case jget store key of
             None \<Rightarrow> (raise ''secure session disappeared while attaching connection'', p, store)
           | Some session \<Rightarrow>
               if st_attachments session + 1 \<ge> 2 ^ 32
               then (raise ''secure session attachment count exhausted'', p, store)
               else (Inr (), p\<lparr>session_attached := True\<rparr>,
                     jset key (session\<lparr>st_attachments := st_attachments session + 1, st_last_touch_ms := now\<rparr>) store)))"

definition load_session_state :: "secure_peer \<Rightarrow> session_store \<Rightarrow> unit res \<times> secure_peer" where
  "load_session_state p store =
     (case sp_session_key p of
        None \<Rightarrow> (raise ''secure session key is missing'', p)
      | Some key \<Rightarrow>
          (case jget store key of
             None \<Rightarrow> (raise ''secure session disappeared while loading state'', p)
           | Some session \<Rightarrow>
               (Inr (), p\<lparr>root_key := Some (st_root_key session), sp_traffic := st_traffic session\<rparr>)))"

definition persist_session_state :: "nat \<Rightarrow> secure_peer \<Rightarrow> session_store \<Rightarrow> unit res \<times> session_store" where
  "persist_session_state now p store =
     (case sp_session_key p of
        None \<Rightarrow> (raise ''secure session key is missing'', store)
      | Some key \<Rightarrow>
          (case jget store key of
             None \<Rightarrow> (raise ''secure session disappeared while saving state'', store)
           | Some session \<Rightarrow>
               (Inr (), jset key (session\<lparr>st_traffic := sp_traffic p, st_last_touch_ms := now\<rparr>) store)))"

definition build_msg2 ::
    "crypto \<Rightarrow> codec \<Rightarrow> nat \<Rightarrow> bytes option \<Rightarrow> uuid option \<Rightarrow> ustring \<Rightarrow> secure_peer \<Rightarrow> session_store
       \<Rightarrow> bytes res \<times> secure_peer \<times> session_store" where
  "build_msg2 C K now rand32 rand_uuid secret p store =
     (if secret = [] then (raise ''network_secret must not be empty'', p, store)
      else if sp_session_key p \<noteq> None then (raise ''message 2 was already built'', p, store)
      else case (sp_peer_id p, sp_network_name p, handshake p, sp_client_algorithm p) of
        (Some peer, Some name, Some hs, Some client_alg) \<Rightarrow>
          let proof = secret_proof C (utf8_encode secret) (noise_hash C hs);
              key = \<lparr>sk_network_name = name, sk_peer_id = peer, sk_server_peer_id = server_peer_id p,
                     sk_server_public_key = local_public p\<rparr>;
              (sel, store1) = upsert_session now rand32 key (sp_a_session_generation p) client_alg store
          in (case sel of
                Inl e \<Rightarrow> (Inl e, p, store1)
              | Inr s \<Rightarrow>
                  (case rand_uuid of
                     None \<Rightarrow> (raise ''getrandom failed'', p, store1)
                   | Some b_conn \<Rightarrow>
                       let msg = \<lparr>b_network_name = name, role_hint = 1, m2_action = sel_action s,
                             b_session_generation = sel_generation s,
                             root_key_32 = sel_root_key_for_peer s, m2_initial_epoch = sel_initial_epoch s,
                             m2_b_conn_id = Some b_conn, m2_a_conn_id_echo = sp_a_conn_id p,
                             m2_secret_proof = Some proof,
                             server_encryption_algorithm = SERVER_ENCRYPTION_ALGORITHM\<rparr>
                       in case noise_write C hs (enc_noise_msg2 K msg) of
                            None \<Rightarrow> (raise ''noise write failed'', p, store1)
                          | Some noise_message \<Rightarrow>
                              let hs' = hs\<lparr>ns_history := ns_history hs @ [(False, enc_noise_msg2 K msg)]\<rparr>;
                                  p1 = p\<lparr>handshake := Some hs', proof_challenge := Some (noise_hash C hs'),
                                    network_secret := Some (utf8_encode secret),
                                    root_key := Some (sel_session_root_key s), sp_session_key := Some key\<rparr>
                              in (case attach_session now p1 store1 of
                                    (Inl e, p2, store2) \<Rightarrow> (Inl e, p2, store2)
                                  | (Inr _, p2, store2) \<Rightarrow>
                                      (case load_session_state p2 store2 of
                                         (Inl e, p3) \<Rightarrow> (Inl e, p3, store2)
                                       | (Inr _, p3) \<Rightarrow>
                                           (Inr (wrap_packet (server_peer_id p) peer 14 0 noise_message),
                                            p3\<lparr>sp_b_conn_id := Some b_conn\<rparr>, store2)))))
      | (None, _, _, _) \<Rightarrow> (raise ''message 1 not received'', p, store)
      | (_, None, _, _) \<Rightarrow> (raise ''message 1 has no network'', p, store)
      | (_, _, None, _) \<Rightarrow> (raise ''message 1 not received'', p, store)
      | _ \<Rightarrow> (raise ''message 1 has no encryption algorithm'', p, store))"

definition check_msg3 :: "crypto \<Rightarrow> codec \<Rightarrow> bytes \<Rightarrow> noise_state \<Rightarrow> secure_peer \<Rightarrow> (bytes \<times> session_key) res" where
  "check_msg3 C K pl hs p =
     (case noise_read C hs pl of
        None \<Rightarrow> raise ''noise read failed''
      | Some decoded \<Rightarrow>
          (case dec_noise_msg3 K decoded of
             None \<Rightarrow> raise ''decode PeerConnNoiseMsg3Pb failed''
           | Some m \<Rightarrow>
               if m3_a_conn_id_echo m \<noteq> sp_a_conn_id p \<or> m3_b_conn_id_echo m \<noteq> sp_b_conn_id p
               then raise ''Noise connection id echo mismatch''
               else case m3_secret_proof m of
                 None \<Rightarrow> raise ''client did not provide a network-secret proof''
               | Some proof \<Rightarrow>
                   (case network_secret p of
                      None \<Rightarrow> raise ''network secret is not selected''
                    | Some secret \<Rightarrow>
                        (case proof_challenge p of
                           None \<Rightarrow> raise ''proof challenge is missing''
                         | Some challenge \<Rightarrow>
                             if secret_proof C secret challenge \<noteq> proof
                             then raise ''network-secret proof verification failed''
                             else case noise_remote_static C (hs\<lparr>ns_history := ns_history hs @ [(True, pl)]\<rparr>) of
                               None \<Rightarrow> raise ''client Noise static public key is missing''
                             | Some remote \<Rightarrow>
                                 if length remote \<noteq> 32 then raise ''client Noise static public key is missing''
                                 else case sp_session_key p of
                                   None \<Rightarrow> raise ''secure session key is missing''
                                 | Some key \<Rightarrow> Inr (remote, key)))))"

definition finish_msg3 ::
    "crypto \<Rightarrow> codec \<Rightarrow> nat \<Rightarrow> bytes \<Rightarrow> secure_peer \<Rightarrow> session_store
       \<Rightarrow> json res \<times> secure_peer \<times> session_store" where
  "finish_msg3 C K now pkt p store =
     (case split_packet pkt of
        Inl e \<Rightarrow> (Inl e, p, store)
      | Inr (h, pl) \<Rightarrow>
          (case sp_peer_id p of
             None \<Rightarrow> (raise ''message 1 not received'', p, store)
           | Some peer \<Rightarrow>
               if packet_type h \<noteq> 15 \<or> from_peer_id h \<noteq> peer \<or> to_peer_id h \<noteq> server_peer_id p
                  \<or> rs_flags h AND ENCRYPTED_FLAG \<noteq> 0
               then (raise ''invalid NoiseHandshakeMsg3 envelope'', p, store)
               else case handshake p of
                 None \<Rightarrow> (raise ''message 2 not sent'', p, store)
               | Some hs \<Rightarrow>
                   let p1 = p\<lparr>handshake := None\<rparr>
                   in case check_msg3 C K pl hs p1 of
                        Inl e \<Rightarrow> (Inl e, p1, store)
                      | Inr (remote, key) \<Rightarrow>
                          (case confirm_session_public_key now key remote store of
                             (Inl e, store') \<Rightarrow> (Inl e, p1, store')
                           | (Inr _, store') \<Rightarrow>
                               (Inr (JObj [(ustr ''peer_id'', JNum (of_nat (unat peer))),
                                   (ustr ''network_name'', JStr (case sp_network_name p1 of None \<Rightarrow> [] | Some n \<Rightarrow> n)),
                                   (ustr ''remote_public_key_base64'', JStr (b64_encode C remote)),
                                   (ustr ''auth_level'', JStr (ustr ''NetworkSecretConfirmed''))]),
                                p1\<lparr>authenticated := True\<rparr>, store'))))"

definition ensure_authenticated :: "secure_peer \<Rightarrow> unit res" where
  "ensure_authenticated p =
     (if authenticated p \<and> root_key p \<noteq> None then Inr () else raise ''secure session is not authenticated'')"

definition decrypt_packet ::
    "crypto \<Rightarrow> nat \<Rightarrow> bytes \<Rightarrow> secure_peer \<Rightarrow> session_store \<Rightarrow> bytes res \<times> secure_peer \<times> session_store" where
  "decrypt_packet C now pkt p store =
     (case ensure_authenticated p of
        Inl e \<Rightarrow> (Inl e, p, store)
      | Inr _ \<Rightarrow>
        (case load_session_state p store of
           (Inl e, p1) \<Rightarrow> (Inl e, p1, store)
         | (Inr _, p1) \<Rightarrow>
           (case split_packet pkt of
              Inl e \<Rightarrow> (Inl e, p1, store)
            | Inr (h, pl) \<Rightarrow>
                if Some (from_peer_id h) \<noteq> sp_peer_id p1 \<or> to_peer_id h \<noteq> server_peer_id p1
                then (raise ''packet is not addressed over this direct session'', p1, store)
                else if rs_flags h AND ENCRYPTED_FLAG = 0 then (Inr pkt, p1, store)
                else
                  let alg = (case sp_client_algorithm p1 of None \<Rightarrow> ustr ''aes-gcm'' | Some a \<Rightarrow> a);
                      direction = direction_index (from_peer_id h) (to_peer_id h);
                      (result, t) = decrypt_payload C now (root_key p1) alg direction pl (sp_traffic p1);
                      p2 = p1\<lparr>sp_traffic := t\<rparr>
                  in (case persist_session_state now p2 store of
                        (Inl e, store') \<Rightarrow> (Inl e, p2, store')
                      | (Inr _, store') \<Rightarrow>
                          (case result of
                             Inl e \<Rightarrow> (Inl e, p2, store')
                           | Inr None \<Rightarrow> (Inr [], p2, store')
                           | Inr (Some plaintext) \<Rightarrow>
                               (Inr (join_header_payload (h\<lparr>rs_flags := rs_flags h AND NOT ENCRYPTED_FLAG\<rparr>) plaintext),
                                p2, store'))))))"

definition encrypt_packet ::
    "crypto \<Rightarrow> nat \<Rightarrow> bytes \<Rightarrow> secure_peer \<Rightarrow> session_store \<Rightarrow> bytes res \<times> secure_peer \<times> session_store" where
  "encrypt_packet C now pkt p store =
     (case ensure_authenticated p of
        Inl e \<Rightarrow> (Inl e, p, store)
      | Inr _ \<Rightarrow>
        (case load_session_state p store of
           (Inl e, p1) \<Rightarrow> (Inl e, p1, store)
         | (Inr _, p1) \<Rightarrow>
           (case split_packet pkt of
              Inl e \<Rightarrow> (Inl e, p1, store)
            | Inr (h, pl) \<Rightarrow>
                if from_peer_id h \<noteq> server_peer_id p1 \<or> Some (to_peer_id h) \<noteq> sp_peer_id p1
                then (raise ''packet is not addressed over this direct session'', p1, store)
                else if rs_flags h AND ENCRYPTED_FLAG \<noteq> 0
                then (raise ''packet is already encrypted'', p1, store)
                else
                  let direction = direction_index (from_peer_id h) (to_peer_id h);
                      (result, t) = encrypt_payload C now (root_key p1) SERVER_ENCRYPTION_ALGORITHM direction pl
                                      (sp_traffic p1);
                      p2 = p1\<lparr>sp_traffic := t\<rparr>
                  in (case persist_session_state now p2 store of
                        (Inl e, store') \<Rightarrow> (Inl e, p2, store')
                      | (Inr _, store') \<Rightarrow>
                          (case result of
                             Inl e \<Rightarrow> (Inl e, p2, store')
                           | Inr encrypted \<Rightarrow>
                               (Inr (join_header_payload (h\<lparr>rs_flags := rs_flags h OR ENCRYPTED_FLAG\<rparr>) encrypted),
                                p2, store'))))))"

definition drop_secure_peer :: "nat \<Rightarrow> secure_peer \<Rightarrow> session_store \<Rightarrow> session_store" where
  "drop_secure_peer now p store =
     (if \<not> session_attached p then store
      else case sp_session_key p of
        None \<Rightarrow> store
      | Some key \<Rightarrow>
          (case jget store key of
             None \<Rightarrow> store
           | Some session \<Rightarrow>
               jset key (session\<lparr>st_attachments := st_attachments session - 1, st_last_touch_ms := now\<rparr>) store))"

section \<open>Library lemmas\<close>

lemma u32_from_to_be_bytes [simp]: "u32_from_be_bytes (u32_to_be_bytes w) = w"
  by (simp add: u32_from_be_bytes_def u32_to_be_bytes_def u32_to_le_bytes_def)

lemma length_u32_to_be_bytes [simp]: "length (u32_to_be_bytes w) = 4"
  by (simp add: u32_to_be_bytes_def)

lemma length_u64_to_be_bytes [simp]: "length (u64_to_be_bytes w) = 8"
  by (simp add: u64_to_be_bytes_def)

lemma u64_from_to_be_bytes [simp]: "u64_from_be_bytes (u64_to_be_bytes w) = w"
proof -
  have "push_bit 32 (ucast (ucast (drop_bit 32 w) :: u32)) OR ucast (ucast w :: u32) = w"
    (is "?l = w")
  proof (rule bit_word_eqI)
    fix n
    assume "n < LENGTH(64)"
    then show "bit ?l n = bit w n"
      by (cases "n < 32") (auto simp: bit_simps)
  qed
  then show ?thesis by (simp add: u64_from_be_bytes_def u64_to_be_bytes_def)
qed

lemma nonce_of_parts [simp]:
  "length (nonce_of e q) = 12" "u32_from_be_bytes (take 4 (nonce_of e q)) = e"
  "u64_from_be_bytes (drop 4 (nonce_of e q)) = q"
  by (simp_all add: nonce_of_def)

lemma nonce_of_inject [simp]: "nonce_of e q = nonce_of e' q' \<longleftrightarrow> e = e' \<and> q = q'"
  by (metis nonce_of_parts(2,3))

section \<open>Nonces\<close>

datatype session_op = Seal nat bytes | Resync nat | Receive nat nat bytes

text \<open>One operation on the traffic state of a session, and the nonce it puts on the wire.\<close>

fun session_step :: "crypto \<Rightarrow> bytes \<Rightarrow> ustring \<Rightarrow> nat \<Rightarrow> session_op \<Rightarrow> traffic \<Rightarrow> bytes option \<times> traffic" where
  "session_step C rk alg d (Seal now plaintext) t =
     (let (r, t') = encrypt_payload C now (Some rk) SERVER_ENCRYPTION_ALGORITHM d plaintext t
      in (case r of Inl _ \<Rightarrow> None | Inr out \<Rightarrow> Some (drop (length out - 12) out), t'))"
| "session_step C rk alg d (Resync now) t = (None, sync_traffic now t)"
| "session_step C rk alg d (Receive now dir pl) t = (None, snd (decrypt_payload C now (Some rk) alg dir pl t))"

fun wire_nonces :: "crypto \<Rightarrow> bytes \<Rightarrow> ustring \<Rightarrow> nat \<Rightarrow> session_op list \<Rightarrow> traffic \<Rightarrow> bytes list" where
  "wire_nonces C rk alg d [] t = []"
| "wire_nonces C rk alg d (x # xs) t =
     (let (n, t') = session_step C rk alg d x t
      in (case n of None \<Rightarrow> [] | Some v \<Rightarrow> [v]) @ wire_nonces C rk alg d xs t')"

text \<open>
  The 32-bit epoch counter does not wrap during the run: a sealing never starts at the largest epoch, nor a
  resynchronisation when the largest epoch was sent or received.
\<close>

fun epochs_bounded :: "crypto \<Rightarrow> bytes \<Rightarrow> ustring \<Rightarrow> nat \<Rightarrow> session_op list \<Rightarrow> traffic \<Rightarrow> bool" where
  "epochs_bounded C rk alg d [] t = True"
| "epochs_bounded C rk alg d (x # xs) t =
     ((case x of Seal _ _ \<Rightarrow> send_epoch t \<noteq> - 1 | Resync _ \<Rightarrow> sync_epoch t \<noteq> - 1 | Receive _ _ _ \<Rightarrow> True)
        \<and> epochs_bounded C rk alg d xs (snd (session_step C rk alg d x t)))"

definition spent :: "nat \<Rightarrow> traffic \<Rightarrow> bytes set" where
  "spent d t = {nonce_of e q | e q. e < send_epoch t \<or> e = send_epoch t \<and> q < send_seq t ! d}"

lemma evict_send [simp]:
  "send_epoch (evict_old_rx_slots now t) = send_epoch t" "send_seq (evict_old_rx_slots now t) = send_seq t"
  by (simp_all add: evict_old_rx_slots_def Let_def)

lemma commit_send [simp]:
  "send_epoch (snd (commit_replay t e q d now)) = send_epoch t"
  "send_seq (snd (commit_replay t e q d now)) = send_seq t"
  by (simp_all add: commit_replay_def Let_def case_prod_beta split: option.splits)

lemma decrypt_send [simp]:
  "send_epoch (snd (decrypt_payload C now rk alg d pl t)) = send_epoch t"
  "send_seq (snd (decrypt_payload C now rk alg d pl t)) = send_seq t"
  by (simp_all add: decrypt_payload_def Let_def case_prod_beta split: sum.splits)

lemma rotate_send_seq [simp]: "send_seq (maybe_rotate_epoch now t) = send_seq t"
  by (simp add: maybe_rotate_epoch_def Let_def)

lemma encrypt_payload_Inr:
  assumes "encrypt_payload C now rk alg d pl t = (Inr out, t')"
  shows "\<exists>body. out = body @ nonce_of (send_epoch (maybe_rotate_epoch now t)) (send_seq t ! d)"
    and "send_epoch t' = send_epoch (maybe_rotate_epoch now t)"
    and "send_seq t' = (send_seq t)[d := send_seq t ! d + 1]"
    and "send_seq t ! d \<noteq> - 1"
  using assms by (auto simp: encrypt_payload_def Let_def split: if_splits)

lemma encrypt_payload_epoch:
  "send_epoch (snd (encrypt_payload C now rk alg d pl t)) = send_epoch (maybe_rotate_epoch now t)"
  by (simp add: encrypt_payload_def Let_def)

lemma encrypt_payload_seq:
  "send_seq (snd (encrypt_payload C now rk alg d pl t)) =
     (if send_seq t ! d = - 1 then send_seq t else (send_seq t)[d := send_seq t ! d + 1])"
  by (simp add: encrypt_payload_def Let_def)

lemma word_less_Suc:
  fixes x :: "'w::len word"
  assumes "x \<noteq> - 1"
  shows "x < x + 1"
proof -
  have "1 + x \<noteq> 0" using assms by (metis add_eq_0_iff)
  from unatSuc [OF this] show ?thesis by (simp add: word_less_nat_alt add.commute)
qed

lemma nonce_spent [simp]:
  "nonce_of e q \<in> spent d t \<longleftrightarrow> e < send_epoch t \<or> e = send_epoch t \<and> q < send_seq t ! d"
  by (auto simp: spent_def)

lemma spent_mono:
  assumes "send_epoch t \<le> send_epoch t'"
    and "send_epoch t = send_epoch t' \<Longrightarrow> send_seq t ! d \<le> send_seq t' ! d"
  shows "spent d t \<subseteq> spent d t'"
  using assms by (fastforce simp: spent_def)

lemma session_step_length [simp]:
  "length (send_seq t) = 2 \<Longrightarrow> length (send_seq (snd (session_step C rk alg d x t))) = 2"
  by (cases x) (simp_all add: case_prod_beta encrypt_payload_seq sync_traffic_def)

lemma sync_epoch_ge: "send_epoch t \<le> sync_epoch t"
proof -
  have "e \<le> fold (\<lambda>slot e. if es_valid slot then max e (es_epoch slot) else e) slots e" for slots and e :: u32
    by (induction slots arbitrary: e) (auto intro: order_trans [OF max.cobounded1])
  then show ?thesis unfolding sync_epoch_def .
qed

lemma session_step_grows:
  assumes "case x of Seal _ _ \<Rightarrow> send_epoch t \<noteq> - 1 | Resync _ \<Rightarrow> sync_epoch t \<noteq> - 1 | Receive _ _ _ \<Rightarrow> True"
  shows "send_epoch t \<le> send_epoch (snd (session_step C rk alg d x t))"
    and "x = Resync now \<Longrightarrow> send_epoch t < send_epoch (snd (session_step C rk alg d x t))"
proof -
  show strict: "send_epoch t < send_epoch (snd (session_step C rk alg d x t))" if "x = Resync now" for now
    using that assms le_less_trans [OF sync_epoch_ge word_less_Suc, of t] by (simp add: sync_traffic_def)
  show "send_epoch t \<le> send_epoch (snd (session_step C rk alg d x t))"
  proof (cases x)
    case (Seal now pl)
    then show ?thesis
      using assms less_imp_le [OF word_less_Suc, of "send_epoch t"]
      by (simp add: case_prod_beta encrypt_payload_epoch maybe_rotate_epoch_def Let_def)
  next
    case (Resync now)
    with strict show ?thesis by (simp add: less_imp_le)
  qed simp
qed

lemma session_step_spent:
  assumes "d < 2" and "length (send_seq t) = 2"
    and "send_epoch t \<le> send_epoch (snd (session_step C rk alg d x t))"
    and "\<And>now. x = Resync now \<Longrightarrow> send_epoch t < send_epoch (snd (session_step C rk alg d x t))"
  shows "spent d t \<subseteq> spent d (snd (session_step C rk alg d x t))"
proof (cases x)
  case (Seal now pl)
  have "send_seq t ! d \<le> send_seq (snd (encrypt_payload C now (Some rk) SERVER_ENCRYPTION_ALGORITHM d pl t)) ! d"
    using assms(1,2) by (auto simp: encrypt_payload_seq dest: word_less_Suc)
  then show ?thesis using Seal assms(3) by (intro spent_mono) (simp_all add: case_prod_beta)
next
  case (Resync now)
  show ?thesis using assms(3,4) Resync by (intro spent_mono) auto
next
  case (Receive now dir pl)
  then show ?thesis by (intro spent_mono) simp_all
qed

lemma session_step_nonce:
  assumes "d < 2" and "length (send_seq t) = 2"
    and "send_epoch t \<le> send_epoch (snd (session_step C rk alg d x t))"
    and n: "fst (session_step C rk alg d x t) = Some n"
  shows "n \<notin> spent d t" and "n \<in> spent d (snd (session_step C rk alg d x t))"
proof -
  from n obtain now pl where x: "x = Seal now pl" by (cases x) auto
  let ?r = "encrypt_payload C now (Some rk) SERVER_ENCRYPTION_ALGORITHM d pl t"
  from n obtain out where out: "fst ?r = Inr out" and nn: "n = drop (length out - 12) out"
    by (auto simp: x case_prod_beta split: sum.splits)
  then have r: "?r = (Inr out, snd ?r)" by (metis prod.collapse)
  note enc = encrypt_payload_Inr [OF r]
  from enc(1) nn have nn: "n = nonce_of (send_epoch (snd ?r)) (send_seq t ! d)"
    unfolding enc(2) by auto
  have snd: "snd (session_step C rk alg d x t) = snd ?r" by (simp add: x case_prod_beta)
  show "n \<notin> spent d t" using assms(3) by (auto simp: nn snd)
  show "n \<in> spent d (snd (session_step C rk alg d x t))"
    using word_less_Suc [OF enc(4)] assms(1,2) by (simp add: nn snd enc(3))
qed

lemma wire_nonces_fresh:
  assumes "d < 2" and "length (send_seq t) = 2" and "epochs_bounded C rk alg d ops t"
  shows "distinct (wire_nonces C rk alg d ops t) \<and> set (wire_nonces C rk alg d ops t) \<inter> spent d t = {}"
  using assms(2,3)
proof (induction ops arbitrary: t)
  case Nil
  then show ?case by simp
next
  case (Cons x xs)
  let ?t = "snd (session_step C rk alg d x t)"
  have grow: "send_epoch t \<le> send_epoch ?t" "\<And>now. x = Resync now \<Longrightarrow> send_epoch t < send_epoch ?t"
    "epochs_bounded C rk alg d xs ?t"
    using Cons.prems(2) session_step_grows [where x = x and t = t] by simp_all
  have IH: "distinct (wire_nonces C rk alg d xs ?t)" "set (wire_nonces C rk alg d xs ?t) \<inter> spent d ?t = {}"
    using Cons.IH [OF session_step_length [OF Cons.prems(1)] grow(3)] by blast+
  have mono: "spent d t \<subseteq> spent d ?t"
    by (rule session_step_spent [OF assms(1) Cons.prems(1) grow(1,2)])
  show ?case
  proof (cases "fst (session_step C rk alg d x t)")
    case None
    then show ?thesis using IH mono by (auto simp: case_prod_beta Let_def)
  next
    case (Some n)
    from session_step_nonce [OF assms(1) Cons.prems(1) grow(1) Some] IH mono show ?thesis
      by (auto simp: case_prod_beta Let_def Some)
  qed
qed

section \<open>Sealing and opening\<close>

definition aead_correct :: "crypto \<Rightarrow> bool" where
  "aead_correct C \<longleftrightarrow> (\<forall>a k n p c t. aead_seal C a k n p = Some (c, t) \<longrightarrow>
     aead_open C a k n c t = Some p \<and> length t = 16)"

lemma open_seal:
  assumes "aead_correct C" and "seal C alg k n p = Inr (c, t)"
  shows "open_sealed C alg k n c t = Inr p" and "length t = 16"
proof -
  obtain a where a: "normalized_algorithm alg = Inr a" using assms(2) by (auto simp: seal_def)
  let ?k = "if a = ''aes-gcm'' then take 16 k else k"
  have "aead_seal C a ?k n p = Some (c, t)"
    using assms(2) unfolding seal_def a Let_def by (auto split: option.splits simp del: if_split_asm)
  with assms(1) have "aead_open C a ?k n c t = Some p" and len: "length t = 16"
    by (simp_all add: aead_correct_def)
  then show "open_sealed C alg k n c t = Inr p" by (simp add: open_sealed_def a Let_def)
  show "length t = 16" by (rule len)
qed

lemma precheck_fail_count [simp]: "precheck_replay (t\<lparr>decrypt_fail_count := n\<rparr>) e q d = precheck_replay t e q d"
  by (cases t) (simp only: precheck_replay_def grace_slot_def traffic.simps)

lemma encrypt_payload_parts:
  assumes "encrypt_payload C now (Some rk) alg d pl t = (Inr out, t')"
  shows "\<exists>key c g. traffic_key C (Some rk) (send_epoch t') d = Inr key
     \<and> seal C alg key (nonce_of (send_epoch t') (send_seq t ! d)) pl = Inr (c, g)
     \<and> out = c @ g @ nonce_of (send_epoch t') (send_seq t ! d)"
  using assms by (auto simp: encrypt_payload_def Let_def split: if_splits)

lemma evict_slot_lengths [simp]:
  "length (evict_slots now slots) = length slots"
  "d < length slots \<Longrightarrow> length (evict_slots now slots ! d) = length (slots ! d)"
  by (simp_all add: evict_slots_def)

lemma evict_rx_slots: "rx_slots (evict_old_rx_slots now t) = evict_slots now (rx_slots t)"
  by (simp add: evict_old_rx_slots_def Let_def)

lemma split_wrap_packet [simp]:
  "flg AND ENCRYPTED_FLAG = 0 \<Longrightarrow> split_packet (wrap_packet f t ty flg pl) =
     Inr (\<lparr>from_peer_id = f, to_peer_id = t, packet_type = ty, rs_flags = flg, forward_counter = 1,
           rs_reserved = 0, rs_len = of_nat (length pl)\<rparr>, pl)"
  by (simp add: split_packet_def wrap_packet_def join_header_payload_def parse_packet_def)

lemma drop_wrap_packet [simp]: "drop 16 (wrap_packet f t ty flg pl) = pl"
  using to_bytes_length by (simp add: wrap_packet_def join_header_payload_def EASYTIER_HEADER_SIZE_def)

section \<open>Reachable states of a peer\<close>

text \<open>
  The states of a \<open>SecurePeer\<close> under any sequence of calls, with the frames handed to \<open>finish_msg3\<close>
  so far. The session store is arbitrary at every step: other connections change it in between.
\<close>

inductive peer_reach :: "crypto \<Rightarrow> codec \<Rightarrow> secure_peer \<Rightarrow> bytes list \<Rightarrow> bool" for C K where
  start: "new_secure_peer C now priv pub sid = Inr p \<Longrightarrow> peer_reach C K p []"
| msg1: "peer_reach C K p fs \<Longrightarrow> read_msg1 C K seed pkt p = (r, p') \<Longrightarrow> peer_reach C K p' fs"
| msg2: "peer_reach C K p fs \<Longrightarrow> build_msg2 C K now rnd uid secret p store = (r2, p', store') \<Longrightarrow> peer_reach C K p' fs"
| msg3: "peer_reach C K p fs \<Longrightarrow> finish_msg3 C K now pkt p store = (r, p', store') \<Longrightarrow> peer_reach C K p' (pkt # fs)"
| inbound: "peer_reach C K p fs \<Longrightarrow> decrypt_packet C now pkt p store = (r2, p', store') \<Longrightarrow> peer_reach C K p' fs"
| outbound: "peer_reach C K p fs \<Longrightarrow> encrypt_packet C now pkt p store = (r2, p', store') \<Longrightarrow> peer_reach C K p' fs"

text \<open>One of the frames carried the proof of the peer's network secret over its handshake hash.\<close>

definition proved :: "crypto \<Rightarrow> codec \<Rightarrow> secure_peer \<Rightarrow> bytes list \<Rightarrow> bool" where
  "proved C K p fs \<longleftrightarrow>
     (\<exists>pkt\<in>set fs. \<exists>hs decoded m secret challenge.
        noise_read C hs (drop 16 pkt) = Some decoded \<and> dec_noise_msg3 K decoded = Some m
        \<and> network_secret p = Some secret \<and> proof_challenge p = Some challenge
        \<and> m3_secret_proof m = Some (secret_proof C secret challenge))"

lemma proved_cong:
  "proved C K p fs \<Longrightarrow> network_secret p' = network_secret p \<Longrightarrow> proof_challenge p' = proof_challenge p
     \<Longrightarrow> set fs \<subseteq> set fs' \<Longrightarrow> proved C K p' fs'"
  unfolding proved_def by (metis (no_types, lifting) subsetD)

lemma read_msg1_authenticated:
  "read_msg1 C K seed pkt p = (r, p') \<Longrightarrow> authenticated p' = authenticated p \<and> sp_session_key p' = sp_session_key p \<and>
    network_secret p' = network_secret p \<and> proof_challenge p' = proof_challenge p"
  by (auto simp: read_msg1_def Let_def split: sum.splits prod.splits)

lemma load_session_state_proof:
  "load_session_state p store = (r, p') \<Longrightarrow> authenticated p' = authenticated p \<and> sp_session_key p' = sp_session_key p \<and>
    network_secret p' = network_secret p \<and> proof_challenge p' = proof_challenge p"
  by (auto simp: load_session_state_def split: option.splits)

lemma attach_session_proof:
  "attach_session now p store = (r, p', store') \<Longrightarrow> authenticated p' = authenticated p \<and> sp_session_key p' = sp_session_key p \<and>
    network_secret p' = network_secret p \<and> proof_challenge p' = proof_challenge p"
  by (auto simp: attach_session_def split: option.splits if_splits)

lemma build_msg2_authenticated:
  "build_msg2 C K now rnd uid secret p store = (r, p', store') \<Longrightarrow> authenticated p' = authenticated p \<and>
    (sp_session_key p \<noteq> None \<longrightarrow> p' = p)"
  by (auto simp: build_msg2_def Let_def split: sum.splits option.splits prod.splits if_splits
      dest!: load_session_state_proof attach_session_proof)

lemma decrypt_packet_proof:
  "decrypt_packet C now pkt p store = (r, p', store') \<Longrightarrow> authenticated p' = authenticated p \<and> sp_session_key p' = sp_session_key p \<and>
    network_secret p' = network_secret p \<and> proof_challenge p' = proof_challenge p"
  by (auto simp: decrypt_packet_def Let_def split: sum.splits option.splits prod.splits if_splits
      dest!: load_session_state_proof)

lemma encrypt_packet_proof:
  "encrypt_packet C now pkt p store = (r, p', store') \<Longrightarrow> authenticated p' = authenticated p \<and> sp_session_key p' = sp_session_key p \<and>
    network_secret p' = network_secret p \<and> proof_challenge p' = proof_challenge p"
  by (auto simp: encrypt_packet_def Let_def split: sum.splits option.splits prod.splits if_splits
      dest!: load_session_state_proof)

lemma check_msg3_proof:
  assumes "check_msg3 C K pl hs p = Inr (remote, key)"
  shows "\<exists>decoded m secret challenge. noise_read C hs pl = Some decoded \<and> dec_noise_msg3 K decoded = Some m \<and>
     network_secret p = Some secret \<and> proof_challenge p = Some challenge \<and>
     m3_secret_proof m = Some (secret_proof C secret challenge) \<and>
     m3_a_conn_id_echo m = sp_a_conn_id p \<and> m3_b_conn_id_echo m = sp_b_conn_id p \<and>
     noise_remote_static C (hs\<lparr>ns_history := ns_history hs @ [(True, pl)]\<rparr>) = Some remote \<and>
     length remote = 32 \<and> sp_session_key p = Some key"
  using assms by (auto simp: check_msg3_def split: option.splits if_splits)

lemma finish_msg3_cases:
  assumes "finish_msg3 C K now pkt p store = (r, p', store')"
  shows "sp_session_key p' = sp_session_key p \<and> network_secret p' = network_secret p \<and> proof_challenge p' = proof_challenge p
    \<and> (authenticated p' = authenticated p \<or>
       (\<exists>hs remote key. check_msg3 C K (drop 16 pkt) hs (p\<lparr>handshake := None\<rparr>) = Inr (remote, key)))"
  using assms
  by (auto simp: finish_msg3_def split_packet_def Let_def EASYTIER_HEADER_SIZE_def
      split: sum.splits option.splits if_splits prod.splits)

lemma peer_reach_proved:
  "peer_reach C K p fs \<Longrightarrow> authenticated p \<Longrightarrow> proved C K p fs \<and> sp_session_key p \<noteq> None"
proof (induction rule: peer_reach.induct)
  case (start now priv pub sid p)
  then show ?case by (auto simp: new_secure_peer_def decode_key_def Let_def split: if_splits option.splits)
next
  case (msg1 p fs seed pkt r p')
  from read_msg1_authenticated [OF msg1.hyps(2)] msg1.IH msg1.prems show ?case by (auto elim: proved_cong)
next
  case (msg2 p fs now rnd uid secret store r2 p' store')
  from build_msg2_authenticated [OF msg2.hyps(2)] msg2.IH msg2.prems show ?case by auto
next
  case (msg3 p fs now pkt store r p' store')
  note c = finish_msg3_cases [OF msg3.hyps(2)]
  show ?case
  proof (cases "authenticated p")
    case True
    with msg3.IH c show ?thesis by (auto elim: proved_cong)
  next
    case False
    with c msg3.prems obtain hs remote key where ck: "check_msg3 C K (drop 16 pkt) hs (p\<lparr>handshake := None\<rparr>) = Inr (remote, key)" by blast
    from check_msg3_proof [OF ck] c show ?thesis unfolding proved_def by auto
  qed
next
  case (inbound p fs now pkt store r2 p' store')
  from decrypt_packet_proof [OF inbound.hyps(2)] inbound.IH inbound.prems show ?case by (auto elim: proved_cong)
next
  case (outbound p fs now pkt store r2 p' store')
  from encrypt_packet_proof [OF outbound.hyps(2)] outbound.IH outbound.prems show ?case by (auto elim: proved_cong)
qed

section \<open>Concrete peers\<close>

text \<open>A library in the clear and the states of one successful handshake, for the concrete instances below.\<close>

definition toy_crypto :: crypto where
  "toy_crypto = \<lparr>x25519_public = (\<lambda>k. k), b64_decode = (\<lambda>s. Some (replicate 32 1)), b64_encode = map unat,
     hmac_sha256 = (\<lambda>k m. k), aead_seal = (\<lambda>a k n p. Some (p, replicate 16 7)),
     aead_open = (\<lambda>a k n c t. if t = replicate 16 7 then Some c else None),
     noise_read = (\<lambda>hs m. Some m), noise_write = (\<lambda>hs m. Some m), noise_hash = (\<lambda>hs. []),
     noise_remote_static = (\<lambda>hs. Some (replicate 32 1))\<rparr>"

definition toy_key :: session_key where
  "toy_key = \<lparr>sk_network_name = [110], sk_peer_id = 5, sk_server_peer_id = 7, sk_server_public_key = replicate 32 1\<rparr>"

definition toy_session :: stored_session where
  "toy_session = \<lparr>st_root_key = [3], st_generation = 1, st_traffic = new_traffic 10,
     st_client_algorithm = ustr ''aes-gcm'', st_remote_public_key = None, st_last_touch_ms = 10, st_attachments = 1\<rparr>"

definition toy_peer :: secure_peer where
  "toy_peer = \<lparr>local_private = replicate 32 1, local_public = replicate 32 1, server_peer_id = 7,
      sp_peer_id = None, sp_network_name = None, sp_client_algorithm = None,
      sp_a_session_generation = None, sp_a_conn_id = None, sp_b_conn_id = None,
      handshake = None, proof_challenge = None, network_secret = None, root_key = None,
      sp_session_key = None, session_attached = False, sp_traffic = new_traffic 0, authenticated = False\<rparr>"

definition toy_peer1 :: secure_peer where
  "toy_peer1 = toy_peer\<lparr>sp_peer_id := Some 5, sp_network_name := Some [110],
     sp_client_algorithm := Some (ustr ''aes-gcm''),
     handshake := Some \<lparr>ns_private = replicate 32 1, ns_seed = [], ns_history = [(True, [9])]\<rparr>\<rparr>"

definition toy_peer2 :: secure_peer where
  "toy_peer2 = toy_peer1\<lparr>handshake := Some \<lparr>ns_private = replicate 32 1, ns_seed = [], ns_history = [(True, [9]), (False, [])]\<rparr>,
     proof_challenge := Some [], network_secret := Some [115], root_key := Some [3], sp_session_key := Some toy_key,
     session_attached := True, sp_traffic := new_traffic 10,
     sp_b_conn_id := Some \<lparr>part1 = 1, part2 = 2, part3 = 3, part4 = 4\<rparr>\<rparr>"

definition toy_peer3 :: secure_peer where
  "toy_peer3 = toy_peer2\<lparr>handshake := None, authenticated := True\<rparr>"

lemma toy_aead: "aead_correct toy_crypto"
  by (simp add: aead_correct_def toy_crypto_def)

lemma toy_seal: "seal toy_crypto (ustr ''aes-gcm'') k n p = Inr (p, replicate 16 7)"
  by (simp add: seal_def normalized_algorithm_def ustr_def toy_crypto_def)

lemma toy_start: "new_secure_peer toy_crypto 0 [] [] 7 = Inr toy_peer"
  by (simp add: new_secure_peer_def decode_key_def toy_crypto_def toy_peer_def)

lemma toy_msg1: "snd (read_msg1 toy_crypto toy_codec [] (wrap_packet 5 7 13 0 [9]) toy_peer) = toy_peer1"
  by (simp add: read_msg1_def toy_crypto_def toy_codec_def toy_peer1_def toy_peer_def utf8_length_def utf8_width_def
    normalized_algorithm_def ustr_def)

lemma toy_msg2: "snd (build_msg2 toy_crypto toy_codec 10 (Some [3]) (Some \<lparr>part1 = 1, part2 = 2, part3 = 3, part4 = 4\<rparr>) [115] toy_peer1 [])
   = (toy_peer2, [(toy_key, toy_session)])"
  by (simp add: build_msg2_def upsert_session_def toy_crypto_def toy_codec_def toy_peer1_def toy_peer2_def toy_peer_def
     toy_key_def toy_session_def jretain_def MAX_STORED_SESSIONS_def attach_session_def load_session_state_def jset_def
     utf8_encode_def utf8_char_def Let_def)

lemma toy_msg3: "snd (finish_msg3 toy_crypto toy_codec 20 (wrap_packet 5 7 15 0 [115]) toy_peer2 [(toy_key, toy_session)])
   = (toy_peer3, [(toy_key, toy_session\<lparr>st_remote_public_key := Some (replicate 32 1), st_last_touch_ms := 20\<rparr>)])"
  by (simp add: finish_msg3_def check_msg3_def confirm_session_public_key_def toy_crypto_def toy_codec_def
     toy_peer1_def toy_peer2_def toy_peer3_def toy_peer_def secret_proof_def toy_session_def jset_def)

lemma toy_reach: "peer_reach toy_crypto toy_codec toy_peer3 [wrap_packet 5 7 15 0 [115]]"
  by (rule peer_reach.msg3 [OF _ snd_eq_pair [OF toy_msg3]], rule peer_reach.msg2 [OF _ snd_eq_pair [OF toy_msg2]],
      rule peer_reach.msg1 [OF _ snd_eq_pair [OF toy_msg1]], rule peer_reach.start [OF toy_start])

lemma toy_encrypts: "\<exists>out. fst (encrypt_packet toy_crypto 30 (wrap_packet 7 5 9 0 [1]) toy_peer3 [(toy_key, toy_session)]) = Inr out"
  by (simp add: encrypt_packet_def ensure_authenticated_def toy_peer3_def toy_peer2_def toy_peer1_def toy_peer_def
     load_session_state_def toy_session_def persist_session_state_def encrypt_payload_def direction_index_def
     maybe_rotate_epoch_def new_traffic_def edge_simps sat_add64_def traffic_key_def seal_def
     normalized_algorithm_def ustr_def toy_crypto_def SERVER_ENCRYPTION_ALGORITHM_def)

lemma toy_seal_nonce:
  assumes "send_seq t ! 1 = 0" and "send_epoch (maybe_rotate_epoch now t) = e"
  shows "fst (session_step toy_crypto [] alg 1 (Seal now pl) t) = Some (nonce_of e 0)"
  using assms
  by (simp add: case_prod_beta encrypt_payload_def Let_def traffic_key_def seal_def normalized_algorithm_def
     SERVER_ENCRYPTION_ALGORITHM_def ustr_def toy_crypto_def)

definition wrap_datagram :: bytes where
  "wrap_datagram = [1] @ replicate 16 7 @ nonce_of (- 1) 0"

lemma toy_wrap_receive:
  assumes "rx_slots t = default_slots" and "sync_rx_grace t = default_grace" and "send_epoch t = 0"
  shows "sync_epoch (snd (decrypt_payload toy_crypto 6 (Some []) (ustr ''aes-gcm'') 0 wrap_datagram t)) = - 1"
proof -
  let ?t = "evict_old_rx_slots 6 t"
  have e: "rx_slots ?t = default_slots" "sync_rx_grace ?t = default_grace"
    by (simp_all add: evict_old_rx_slots_def assms default_grace_def evict_slots_def default_slots_def
        evict_slot_def default_slot_def Let_def)
  have pre: "precheck_replay ?t (- 1) 0 0"
    by (simp add: precheck_replay_def grace_slot_def e default_grace_def default_slots_def default_slot_def)
  have alg: "normalized_algorithm (ustr ''aes-gcm'') = Inr ''aes-gcm''"
    by (simp add: normalized_algorithm_def ustr_def)
  have "rx_slots (snd (commit_replay (?t\<lparr>decrypt_fail_count := 0\<rparr>) (- 1) 0 0 6)) =
      [[(fresh_slot (- 1) 6)\<lparr>es_window := snd (accept default_window 0)\<rparr>, default_slot], [default_slot, default_slot]]"
    by (simp add: commit_replay_def grace_slot_def e default_grace_def default_slots_def commit_slots_def fresh_slot_def
        default_slot_def slot_accept_def case_prod_beta)
  with pre show ?thesis
    by (simp add: decrypt_payload_def wrap_datagram_def EASYTIER_AEAD_TAIL_SIZE_def Let_def traffic_key_def
        open_sealed_def alg toy_crypto_def case_prod_beta sync_epoch_def assms fresh_slot_def default_slot_def)
qed

section \<open>A stream of sealed datagrams\<close>

text \<open>The sender seals payloads one after the other, each at its time; the receiver opens what it is given.\<close>

fun seal_all :: "crypto \<Rightarrow> bytes \<Rightarrow> ustring \<Rightarrow> nat \<Rightarrow> (nat \<times> bytes) list \<Rightarrow> traffic \<Rightarrow> bytes res list" where
  "seal_all C rk alg d [] t = []"
| "seal_all C rk alg d ((now, pl) # items) t =
     (let (out, t') = encrypt_payload C now (Some rk) alg d pl t in out # seal_all C rk alg d items t')"

fun open_all :: "crypto \<Rightarrow> bytes \<Rightarrow> ustring \<Rightarrow> nat \<Rightarrow> (nat \<times> bytes) list \<Rightarrow> traffic \<Rightarrow> bytes option res list" where
  "open_all C rk alg d [] r = []"
| "open_all C rk alg d ((now, dg) # items) r =
     (let (out, r') = decrypt_payload C now (Some rk) alg d dg r in out # open_all C rk alg d items r')"

text \<open>
  The receiver is in step with the sender: its newest slot, if any, is of the epoch last sealed with and has
  only seen smaller sequence numbers, its older slot is of an earlier epoch, and no grace period is on.
\<close>

definition slots_in_step :: "u32 \<Rightarrow> u64 \<Rightarrow> epoch_slot list \<Rightarrow> bool" where
  "slots_in_step e q slots \<longleftrightarrow> (\<exists>s0 s1. slots = [s0, s1]
     \<and> (es_valid s0 \<longrightarrow> es_epoch s0 = e \<and> (rw_valid (es_window s0) \<longrightarrow> max_seq (es_window s0) < q))
     \<and> (es_valid s1 \<longrightarrow> es_epoch s1 < e))"

definition in_step :: "nat \<Rightarrow> traffic \<Rightarrow> traffic \<Rightarrow> bool" where
  "in_step d t r \<longleftrightarrow> d < length (rx_slots r) \<and> \<not> gr_valid (sync_rx_grace r)
     \<and> slots_in_step (send_epoch t) (send_seq t ! d) (rx_slots r ! d)"

lemma accept_next:
  assumes "rw_valid w \<longrightarrow> max_seq w < q"
  shows "can_accept w q" and "fst (accept w q)" and "max_seq (snd (accept w q)) = q"
  using assms by (auto simp: can_accept_def accept_def set_bit_def)

lemma evict_in_step: "slots_in_step e q slots \<Longrightarrow> slots_in_step e q (map (evict_slot now) slots)"
  by (auto simp: slots_in_step_def evict_slot_def slot_clear_def)

lemma epoch_ahead:
  assumes "e' = e + 1" and "e < e'" and "e \<le> b"
  shows "e' \<le> sat_add_u32 b MAX_ACCEPTED_RX_EPOCH_AHEAD"
proof (cases "unat b + 3 < 2 ^ 32")
  case True
  have "unat (b + 3) = unat b + 3" using True by (simp add: unat_word_ariths)
  moreover have "unat e' \<le> unat e + 1" by (simp add: assms(1) unat_word_ariths)
  ultimately show ?thesis
    using assms(3) True by (simp add: sat_add_u32_def MAX_ACCEPTED_RX_EPOCH_AHEAD_def word_le_nat_alt)
qed (simp add: sat_add_u32_def MAX_ACCEPTED_RX_EPOCH_AHEAD_def)

text \<open>The next datagram of the stream passes the check, and the receiver stays in step.\<close>

lemma commit_in_step:
  assumes "slots_in_step e q slots" and "e' = e \<or> e' = e + 1 \<and> e < e'" and "q \<noteq> - 1"
  shows "fst (commit_slots e' q now slots) \<and> slots_in_step e' (q + 1) (snd (commit_slots e' q now slots))"
proof -
  obtain s0 s1 where s: "slots = [s0, s1]" "es_valid s0 \<longrightarrow> es_epoch s0 = e \<and> (rw_valid (es_window s0) \<longrightarrow> max_seq (es_window s0) < q)"
      "es_valid s1 \<longrightarrow> es_epoch s1 < e"
    using assms(1) by (auto simp: slots_in_step_def)
  note next' = word_less_Suc [OF assms(3)]
  have le: "e \<le> e'" using assms(2) by auto
  show ?thesis
  proof (cases "es_valid s0")
    case False
    then show ?thesis
      using s le next' accept_next [of default_window q]
      by (auto simp: commit_slots_def slot_accept_def fresh_slot_def slots_in_step_def default_window_def case_prod_beta Let_def)
  next
    case True
    with s(2) have s0: "es_epoch s0 = e" "rw_valid (es_window s0) \<longrightarrow> max_seq (es_window s0) < q" by auto
    show ?thesis
    proof (cases "e' = e")
      case same: True
      then show ?thesis
        using s True s0 next' accept_next [OF s0(2)]
        by (auto simp: commit_slots_def slot_accept_def slots_in_step_def case_prod_beta Let_def)
    next
      case False
      with assms(2) have less: "e < e'" by blast
      then have "\<not> (es_valid s1 \<and> es_epoch s1 = e')" using s(3) by auto
      then show ?thesis
        using s True s0 next' less False accept_next [of default_window q]
        by (auto simp: commit_slots_def slot_accept_def fresh_slot_def slots_in_step_def default_window_def case_prod_beta Let_def)
    qed
  qed
qed

lemma precheck_in_step:
  assumes "in_step d t r" and "e' = send_epoch t \<or> e' = send_epoch t + 1 \<and> send_epoch t < e'"
  shows "precheck_replay r e' (send_seq t ! d) d"
proof -
  obtain s0 s1 where s: "rx_slots r ! d = [s0, s1]"
      "es_valid s0 \<longrightarrow> es_epoch s0 = send_epoch t \<and> (rw_valid (es_window s0) \<longrightarrow> max_seq (es_window s0) < send_seq t ! d)"
      "es_valid s1 \<longrightarrow> es_epoch s1 < send_epoch t" and g: "\<not> gr_valid (sync_rx_grace r)"
    using assms(1) by (auto simp: in_step_def slots_in_step_def)
  show ?thesis
    using s g assms(2) accept_next(1) [of "es_window s0" "send_seq t ! d"] epoch_ahead [of e' "send_epoch t"]
    by (auto simp: precheck_replay_def grace_slot_def Let_def le_max_iff_disj)
qed

lemma rotate_epoch_cases:
  "send_epoch (maybe_rotate_epoch now t) = send_epoch t \<or> send_epoch (maybe_rotate_epoch now t) = send_epoch t + 1"
  by (simp add: maybe_rotate_epoch_def Let_def)

lemma decrypt_sealed:
  assumes "aead_correct C" and enc: "encrypt_payload C now (Some rk) alg d pl t = (Inr out, t')"
    and pre: "precheck_replay (evict_old_rx_slots now' r) (send_epoch t') (send_seq t ! d) d"
    and commit: "commit_replay ((evict_old_rx_slots now' r)\<lparr>decrypt_fail_count := 0\<rparr>) (send_epoch t') (send_seq t ! d) d now' = (True, r')"
  shows "decrypt_payload C now' (Some rk) alg d out r = (Inr (Some pl), r')"
proof -
  obtain key c g where key: "traffic_key C (Some rk) (send_epoch t') d = Inr key"
    and seal: "seal C alg key (nonce_of (send_epoch t') (send_seq t ! d)) pl = Inr (c, g)"
    and out: "out = c @ g @ nonce_of (send_epoch t') (send_seq t ! d)"
    using encrypt_payload_parts [OF enc] by blast
  note os = open_seal [OF assms(1) seal]
  show ?thesis
    using pre key os commit by (simp add: decrypt_payload_def out EASYTIER_AEAD_TAIL_SIZE_def Let_def)
qed

lemma deliver_next:
  assumes "aead_correct C" and "in_step d t r" and "d < length (send_seq t)" and "send_epoch t \<noteq> - 1"
    and enc: "encrypt_payload C now (Some rk) alg d pl t = (Inr out, t')"
  shows "\<exists>r'. decrypt_payload C now' (Some rk) alg d out r = (Inr (Some pl), r') \<and> in_step d t' r'"
proof -
  let ?r = "evict_old_rx_slots now' r" and ?q = "send_seq t ! d" and ?e = "send_epoch t'"
  have seq: "?q \<noteq> - 1" "send_seq t' ! d = ?q + 1"
    using enc assms(3) encrypt_payload_seq [of C now "Some rk" alg d pl t]
    by (auto simp: encrypt_payload_def Let_def split: if_splits)
  have epoch: "?e = send_epoch t \<or> ?e = send_epoch t + 1 \<and> send_epoch t < ?e"
    using encrypt_payload_epoch [of C now "Some rk" alg d pl t] enc rotate_epoch_cases [of now t] word_less_Suc [OF assms(4)]
    by auto
  have ev: "in_step d t ?r"
    using assms(2) evict_in_step [of "send_epoch t" ?q "rx_slots r ! d" now']
    by (simp add: in_step_def evict_old_rx_slots_def evict_slots_def Let_def)
  then have g: "grace_slot (?r\<lparr>decrypt_fail_count := 0\<rparr>) ?e d = None" by (simp add: grace_slot_def in_step_def)
  have "slots_in_step (send_epoch t) ?q (rx_slots ?r ! d)" using ev by (simp add: in_step_def)
  from commit_in_step [OF this epoch seq(1), of now']
  obtain ds where ds: "commit_slots ?e ?q now' (rx_slots ?r ! d) = (True, ds)" "slots_in_step ?e (?q + 1) ds"
    by (cases "commit_slots ?e ?q now' (rx_slots ?r ! d)") auto
  let ?r' = "?r\<lparr>decrypt_fail_count := 0, rx_slots := (rx_slots ?r)[d := ds]\<rparr>"
  have "commit_replay (?r\<lparr>decrypt_fail_count := 0\<rparr>) ?e ?q d now' = (True, ?r')"
    using g ds(1) by (simp add: commit_replay_def)
  from decrypt_sealed [OF assms(1) enc precheck_in_step [OF ev epoch] this]
  have "decrypt_payload C now' (Some rk) alg d out r = (Inr (Some pl), ?r')" .
  moreover have "in_step d t' ?r'" using ev ds(2) seq(2) by (simp add: in_step_def)
  ultimately show ?thesis by blast
qed

lemma stream_opened:
  assumes "aead_correct C" and "in_step d t r" and "d < length (send_seq t)"
    and "unat (send_epoch t) + length items < 2 ^ 32"
    and "seal_all C rk alg d items t = map Inr outs" and "length arrivals = length outs"
  shows "open_all C rk alg d (zip arrivals outs) r = map (\<lambda>(_, pl). Inr (Some pl)) items"
  using assms(2-6)
proof (induction items arbitrary: t r outs arrivals)
  case Nil
  then show ?case by simp
next
  case (Cons item items)
  obtain now pl where item: "item = (now, pl)" by (cases item)
  obtain o1 t' where e: "encrypt_payload C now (Some rk) alg d pl t = (o1, t')" by (metis surj_pair)
  then obtain out outs' where outs: "outs = out # outs'" "o1 = Inr out" "seal_all C rk alg d items t' = map Inr outs'"
    using Cons.prems(4) by (auto simp: item Cons_eq_map_conv)
  obtain now' arrivals' where arrivals: "arrivals = now' # arrivals'" "length arrivals' = length outs'"
    using Cons.prems(5) outs(1) by (cases arrivals) auto
  have enc: "encrypt_payload C now (Some rk) alg d pl t = (Inr out, t')" using e outs(2) by simp
  have ne: "send_epoch t \<noteq> - 1"
  proof
    assume "send_epoch t = - 1"
    then have "unat (send_epoch t) = 2 ^ 32 - 1" by (simp add: unsigned_minus_1_eq_mask mask_eq_exp_minus_1)
    with Cons.prems(3) show False by simp
  qed
  obtain r' where r': "decrypt_payload C now' (Some rk) alg d out r = (Inr (Some pl), r')" "in_step d t' r'"
    using deliver_next [OF assms(1) Cons.prems(1,2) ne enc] by blast
  have len: "d < length (send_seq t')"
    using Cons.prems(2) encrypt_payload_seq [of C now "Some rk" alg d pl t] enc by (simp split: if_splits)
  have "unat (send_epoch t') \<le> unat (send_epoch t) + 1"
    using encrypt_payload_epoch [of C now "Some rk" alg d pl t] enc rotate_epoch_cases [of now t]
    by (auto simp: unat_word_ariths)
  then have "unat (send_epoch t') + length items < 2 ^ 32" using Cons.prems(3) by simp
  from Cons.IH [OF r'(2) len this outs(3) arrivals(2)] r'(1) show ?case by (simp add: outs(1) arrivals(1) item)
qed

section \<open>Properties\<close>

text \<open>
  C9. A peer exchanges no protected packet before it has proved the network secret: in every state a
  \<open>SecurePeer\<close> can reach, whatever frames it is fed and whatever happens to the shared session
  store, \<open>decrypt_packet\<close> or \<open>encrypt_packet\<close> succeeds only if one of the frames given to
  \<open>finish_msg3\<close> carried the keyed proof of the configured secret over the handshake hash.
\<close>

theorem no_data_before_proof:
  assumes "peer_reach C K p fs"
    and "fst (decrypt_packet C now pkt p store) = Inr out \<or> fst (encrypt_packet C now pkt p store) = Inr out"
  shows "proved C K p fs"
proof -
  have "authenticated p"
    using assms(2) by (auto simp: decrypt_packet_def encrypt_packet_def ensure_authenticated_def split: if_splits)
  with peer_reach_proved [OF assms(1)] show ?thesis by blast
qed

theorem no_data_before_proof_witness:
  "proved toy_crypto toy_codec toy_peer3 [wrap_packet 5 7 15 0 [115]]"
proof -
  obtain out where "fst (encrypt_packet toy_crypto 30 (wrap_packet 7 5 9 0 [1]) toy_peer3 [(toy_key, toy_session)]) = Inr out"
    using toy_encrypts by blast
  then show ?thesis using no_data_before_proof [OF toy_reach] by blast
qed

text \<open>
  C13. A successful \<open>finish_msg3\<close> has checked everything it is there to check: the frame is an unencrypted message
  3 from the peer announced in message 1 to the server, it decrypts under the Noise handshake,
  echoes both connection ids, and carries the HMAC of the network secret over the handshake
  hash kept with message 2. The peer is then authenticated, the handshake over, and the session
  bound to the static key the Noise handshake authenticated: an already pinned key must be the same
  one, and no other session of the store changes.
\<close>

theorem finish_msg3_pins_identity:
  assumes "finish_msg3 C K now pkt p store = (Inr info, p', store')"
  shows "authenticated p' \<and> sp_peer_id p' = sp_peer_id p \<and> handshake p' = None \<and>
     (\<exists>h pl hs decoded m secret challenge. split_packet pkt = Inr (h, pl) \<and>
        packet_type h = 15 \<and> sp_peer_id p = Some (from_peer_id h) \<and> to_peer_id h = server_peer_id p \<and>
        rs_flags h AND ENCRYPTED_FLAG = 0 \<and>
        handshake p = Some hs \<and> noise_read C hs pl = Some decoded \<and> dec_noise_msg3 K decoded = Some m \<and>
        m3_a_conn_id_echo m = sp_a_conn_id p \<and> m3_b_conn_id_echo m = sp_b_conn_id p \<and>
        network_secret p = Some secret \<and> proof_challenge p = Some challenge \<and>
        m3_secret_proof m = Some (hmac_sha256 C secret (bytes_of ''easytier secret proof'' @ challenge))) \<and>
     (\<exists>hs remote key session. handshake p = Some hs \<and>
        noise_remote_static C (hs\<lparr>ns_history := ns_history hs @ [(True, drop 16 pkt)]\<rparr>) = Some remote \<and>
        sp_session_key p = Some key \<and> length remote = 32 \<and> jget store key = Some session \<and>
        st_remote_public_key session \<in> {None, Some remote} \<and>
        (\<forall>k. jget store' k = (if k = key
             then Some (session\<lparr>st_remote_public_key := Some remote, st_last_touch_ms := now\<rparr>) else jget store k)))"
proof -
  obtain h pl peer hs remote key where parts: "split_packet pkt = Inr (h, pl)" "sp_peer_id p = Some peer"
      "\<not> (packet_type h \<noteq> 15 \<or> from_peer_id h \<noteq> peer \<or> to_peer_id h \<noteq> server_peer_id p \<or> rs_flags h AND ENCRYPTED_FLAG \<noteq> 0)"
      "handshake p = Some hs" "check_msg3 C K pl hs (p\<lparr>handshake := None\<rparr>) = Inr (remote, key)"
      "confirm_session_public_key now key remote store = (Inr (), store')" "p' = p\<lparr>handshake := None, authenticated := True\<rparr>"
    using assms by (auto simp: finish_msg3_def Let_def split: sum.splits option.splits if_splits prod.splits)
  note m3 = check_msg3_proof [OF parts(5)]
  have pl: "pl = drop 16 pkt" using parts(1) by (auto simp: split_packet_def Let_def EASYTIER_HEADER_SIZE_def split: if_splits sum.splits)
  from m3 parts(1-4) have checks: "\<exists>h pl hs decoded m secret challenge. split_packet pkt = Inr (h, pl) \<and>
        packet_type h = 15 \<and> sp_peer_id p = Some (from_peer_id h) \<and> to_peer_id h = server_peer_id p \<and>
        rs_flags h AND ENCRYPTED_FLAG = 0 \<and>
        handshake p = Some hs \<and> noise_read C hs pl = Some decoded \<and> dec_noise_msg3 K decoded = Some m \<and>
        m3_a_conn_id_echo m = sp_a_conn_id p \<and> m3_b_conn_id_echo m = sp_b_conn_id p \<and>
        network_secret p = Some secret \<and> proof_challenge p = Some challenge \<and>
        m3_secret_proof m = Some (hmac_sha256 C secret (bytes_of ''easytier secret proof'' @ challenge))"
    by (auto simp: secret_proof_def)
  from m3 parts(6) have pin: "length remote = 32" "sp_session_key p = Some key"
      "noise_remote_static C (hs\<lparr>ns_history := ns_history hs @ [(True, drop 16 pkt)]\<rparr>) = Some remote"
      "\<exists>session. jget store key = Some session \<and> st_remote_public_key session \<in> {None, Some remote} \<and>
        (\<forall>k. jget store' k = (if k = key
             then Some (session\<lparr>st_remote_public_key := Some remote, st_last_touch_ms := now\<rparr>) else jget store k))"
    by (auto simp: confirm_session_public_key_def pl split: option.splits if_splits)
  from checks pin parts(4,7) show ?thesis by auto
qed

theorem finish_msg3_pins_identity_witness:
  "authenticated toy_peer3 \<and> sp_peer_id toy_peer3 = sp_peer_id toy_peer2"
proof -
  let ?r = "finish_msg3 toy_crypto toy_codec 20 (wrap_packet 5 7 15 0 [115]) toy_peer2 [(toy_key, toy_session)]"
  have "\<exists>info. fst ?r = Inr info"
    by (simp add: finish_msg3_def check_msg3_def confirm_session_public_key_def toy_crypto_def toy_codec_def
     toy_peer1_def toy_peer2_def toy_peer3_def toy_peer_def secret_proof_def toy_session_def jset_def)
  then obtain info where r: "?r = (Inr info, toy_peer3, snd (snd ?r))"
    using toy_msg3 by (metis fst_conv prod.collapse)
  from finish_msg3_pins_identity [OF r] show ?thesis by blast
qed

text \<open>
  C14. What one side seals the other opens: of any number of payloads (fewer than 2 to the 32) that a
  fresh session seals one after the other, at any times and over any epoch rotations, the other
  side's fresh session, given the datagrams in order at any times, recovers every one. The AEAD is the
  library's; \<open>aead_correct\<close> is its documented law (opening a sealed text with the same key and
  nonce returns it, and tags have 16 bytes).
\<close>

theorem seal_open_roundtrip:
  assumes "aead_correct C" and "d < 2" and "length items < 2 ^ 32"
    and "seal_all C rk alg d items (new_traffic started) = map Inr datagrams"
    and "length arrivals = length datagrams"
  shows "open_all C rk alg d (zip arrivals datagrams) (new_traffic started') = map (\<lambda>(_, pl). Inr (Some pl)) items"
proof -
  have "in_step d (new_traffic started) (new_traffic started')"
    using assms(2) less_2_cases [OF assms(2)]
    by (auto simp: in_step_def slots_in_step_def new_traffic_def default_slots_def default_grace_def default_slot_def)
  moreover have "d < length (send_seq (new_traffic started))" "unat (send_epoch (new_traffic started)) + length items < 2 ^ 32"
    using assms(2,3) by (simp_all add: new_traffic_def)
  ultimately show ?thesis using stream_opened [OF assms(1) _ _ _ assms(4,5)] by blast
qed

theorem seal_open_roundtrip_witness:
  "open_all toy_crypto [] (ustr ''aes-gcm'') 1
     (zip [6, 90000] [[1, 2, 3] @ replicate 16 7 @ nonce_of 0 0, [4] @ replicate 16 7 @ nonce_of 0 1]) (new_traffic 5)
   = [Inr (Some [1, 2, 3]), Inr (Some [4])]"
proof -
  have "seal_all toy_crypto [] (ustr ''aes-gcm'') 1 [(5, [1, 2, 3]), (7, [4])] (new_traffic 5) =
      map Inr [[1, 2, 3] @ replicate 16 7 @ nonce_of 0 0, [4] @ replicate 16 7 @ nonce_of 0 1]"
    by (simp add: encrypt_payload_def Let_def maybe_rotate_epoch_def new_traffic_def sat_add64_def edge_simps
        traffic_key_def seal_def normalized_algorithm_def ustr_def toy_crypto_def)
  from seal_open_roundtrip [OF toy_aead _ _ this, of "[6, 90000]" 5] show ?thesis by simp
qed

text \<open>
  C10. No nonce is used twice under one root key: over every sequence of sealings, receptions and
  resynchronisations of a session in which the 32-bit epoch counter does not wrap, the nonces put on
  the wire in a direction are pairwise distinct.
\<close>

theorem wire_nonces_distinct:
  assumes "d < 2" and "length (send_seq t) = 2" and "epochs_bounded C rk alg d ops t"
  shows "distinct (wire_nonces C rk alg d ops t)"
  using wire_nonces_fresh [OF assms] by blast

theorem wire_nonces_distinct_witness:
  "distinct (wire_nonces toy_crypto [] (ustr ''aes-gcm'') 1 [Seal 5 [1], Resync 6, Seal 7 [2]] (new_traffic 5))"
  by (rule wire_nonces_distinct)
    (simp_all add: encrypt_payload_epoch encrypt_payload_seq case_prod_beta sync_traffic_def sync_epoch_def
      maybe_rotate_epoch_def new_traffic_def sat_add64_def default_slots_def default_slot_def edge_simps encrypt_payload_def Let_def)

text \<open>
  The session store never holds more than \<open>MAX_STORED_SESSIONS\<close> entries: \<open>upsert_session\<close>, the only
  operation that adds one, keeps the bound.
\<close>

theorem session_store_bounded: "length store \<le> MAX_STORED_SESSIONS \<Longrightarrow>
   length (snd (upsert_session now r key g alg store)) \<le> MAX_STORED_SESSIONS"
  using length_jretain [of "\<lambda>_ s. st_attachments s > 0 \<or> now - st_last_touch_ms s < SESSION_IDLE_MS" store]
  by (auto simp: upsert_session_def Let_def length_jset jhas_Some split: option.splits)

theorem session_store_bounded_witness:
  "length (snd (upsert_session 70000 (Some [3]) toy_key None (ustr ''aes-gcm'') [(toy_key, toy_session)]))
     \<le> MAX_STORED_SESSIONS"
  by (rule session_store_bounded) (simp add: MAX_STORED_SESSIONS_def)

text \<open>
  The replay protection forgets: a datagram number that was accepted once and refused on replay is
  accepted again when the epoch has been idle for more than 30 seconds, because
  \<open>evict_old_rx_slots\<close> clears the window together with the slot.
\<close>

theorem replay_after_idle_eviction:
  "let (ok1, t1) = commit_replay (new_traffic 0) 0 5 0 1000;
       (dup, t2) = commit_replay t1 0 5 0 2000;
       t3 = evict_old_rx_slots 40000 t2
   in ok1 \<and> \<not> dup \<and> precheck_replay t3 0 5 0 \<and> fst (commit_replay t3 0 5 0 40000)"
  by (simp add: commit_replay_def grace_slot_def new_traffic_def default_grace_def default_slots_def
      default_slot_def commit_slots_def fresh_slot_def slot_accept_def accept_def default_window_def
      set_bit_def test_bit_def as_usize_def evict_old_rx_slots_def evict_slots_def evict_slot_def
      slot_clear_def precheck_replay_def edge_simps)

text \<open>
  C31. Message 2 answers an unproved claim of a peer id with that peer's key: for a session in use, a
  client that merely names the peer and the network in message 1, with no or another session
  generation, is answered with the action \<open>Sync\<close>, and the message 2 it is sent carries the root key of the
  stored session, before it has proved anything.
\<close>

theorem sync_discloses_root_key:
  assumes "build_msg2 C K now rnd uid secret p store = (Inr frame, p', store')"
    and "sp_peer_id p = Some peer" and "sp_network_name p = Some name" and "handshake p = Some hs"
    and "jwf store"
    and "jget store \<lparr>sk_network_name = name, sk_peer_id = peer, sk_server_peer_id = server_peer_id p,
           sk_server_public_key = local_public p\<rparr> = Some session"
    and "0 < st_attachments session" and "sp_a_session_generation p \<noteq> Some (st_generation session)"
    and "\<not> authenticated p"
  shows "\<exists>msg body. m2_action msg = Sync \<and> root_key_32 msg = Some (st_root_key session) \<and>
     noise_write C hs (enc_noise_msg2 K msg) = Some body \<and>
     frame = wrap_packet (server_peer_id p) peer 14 0 body \<and> \<not> authenticated p'"
proof -
  let ?key = "\<lparr>sk_network_name = name, sk_peer_id = peer, sk_server_peer_id = server_peer_id p, sk_server_public_key = local_public p\<rparr>"
  have keep: "jget (jretain (\<lambda>_ s. st_attachments s > 0 \<or> now - st_last_touch_ms s < SESSION_IDLE_MS) store) ?key = Some session"
    using assms(5-7) by (simp add: jget_jretain)
  obtain alg where alg: "sp_client_algorithm p = Some alg"
    using assms(1-4) by (auto simp: build_msg2_def split: if_splits option.splits)
  obtain s store1 where sel: "upsert_session now rnd ?key (sp_a_session_generation p) alg store = (Inr s, store1)"
    using assms(1-4) alg by (auto simp: build_msg2_def Let_def split: if_splits prod.splits sum.splits)
  then have s: "sel_action s = Sync" "sel_root_key_for_peer s = Some (st_root_key session)"
    using keep assms(8) by (auto simp: upsert_session_def Let_def split: if_splits)
  obtain u where u: "uid = Some u"
    using assms(1-4) alg sel by (auto simp: build_msg2_def Let_def split: if_splits option.splits)
  define msg where "msg = \<lparr>b_network_name = name, role_hint = 1, m2_action = sel_action s,
       b_session_generation = sel_generation s, root_key_32 = sel_root_key_for_peer s, m2_initial_epoch = sel_initial_epoch s,
       m2_b_conn_id = Some u, m2_a_conn_id_echo = sp_a_conn_id p,
       m2_secret_proof = Some (secret_proof C (utf8_encode secret) (noise_hash C hs)),
       server_encryption_algorithm = SERVER_ENCRYPTION_ALGORITHM\<rparr>"
  obtain body where body: "noise_write C hs (enc_noise_msg2 K msg) = Some body" "frame = wrap_packet (server_peer_id p) peer 14 0 body"
    using assms(1-4) alg sel u
    by (auto simp: build_msg2_def Let_def msg_def [symmetric] split: if_splits option.splits prod.splits sum.splits)
  have "\<not> authenticated p'" using build_msg2_authenticated [OF assms(1)] assms(9) by blast
  with body s show ?thesis by (intro exI [of _ msg] exI [of _ body]) (simp add: msg_def)
qed

theorem sync_discloses_root_key_witness:
  "\<exists>frame msg body. fst (build_msg2 toy_crypto toy_codec 20 None (Some \<lparr>part1 = 9, part2 = 9, part3 = 9, part4 = 9\<rparr>) [115] toy_peer1
       [(toy_key, toy_session)]) = Inr frame \<and> m2_action msg = Sync \<and> root_key_32 msg = Some [3] \<and>
     noise_write toy_crypto (the (handshake toy_peer1)) (enc_noise_msg2 toy_codec msg) = Some body \<and> frame = wrap_packet 7 5 14 0 body"
proof -
  let ?r = "build_msg2 toy_crypto toy_codec 20 None (Some \<lparr>part1 = 9, part2 = 9, part3 = 9, part4 = 9\<rparr>) [115] toy_peer1
       [(toy_key, toy_session)]"
  have "\<exists>frame. fst ?r = Inr frame"
    by (simp add: build_msg2_def upsert_session_def toy_crypto_def toy_codec_def toy_peer1_def toy_peer_def
       toy_key_def toy_session_def jretain_def attach_session_def load_session_state_def Let_def)
  then obtain frame where r: "?r = (Inr frame, fst (snd ?r), snd (snd ?r))" by (metis prod.collapse)
  from sync_discloses_root_key [OF r, of 5 "[110]" "the (handshake toy_peer1)" toy_session]
  obtain msg body where "m2_action msg = Sync" "root_key_32 msg = Some [3]"
      "noise_write toy_crypto (the (handshake toy_peer1)) (enc_noise_msg2 toy_codec msg) = Some body" "frame = wrap_packet 7 5 14 0 body"
    by (auto simp: toy_peer1_def toy_peer_def toy_key_def toy_session_def jwf_def)
  then show ?thesis using r by (metis fst_conv)
qed

text \<open>
  The epoch counter can be driven to wrap: a client whose first datagram carries the largest epoch
  makes the next resynchronisation restart the server's sending epoch at zero, and the nonce of the
  very first packet is used a second time under the same root key.
\<close>

theorem epoch_wrap_reuses_nonce:
  "wire_nonces toy_crypto [] (ustr ''aes-gcm'') 1
     [Seal 5 [1], Receive 6 0 wrap_datagram, Resync 7, Seal 8 [2]] (new_traffic 5) = [nonce_of 0 0, nonce_of 0 0]"
proof -
  let ?step = "session_step toy_crypto [] (ustr ''aes-gcm'') 1"
  define t1 where "t1 = snd (?step (Seal 5 [1]) (new_traffic 5))"
  define t2 where "t2 = snd (?step (Receive 6 0 wrap_datagram) t1)"
  define t3 where "t3 = snd (?step (Resync 7) t2)"
  have n1: "fst (?step (Seal 5 [1]) (new_traffic 5)) = Some (nonce_of 0 0)"
    by (rule toy_seal_nonce) (simp_all add: new_traffic_def maybe_rotate_epoch_def sat_add64_def edge_simps)
  have "rx_slots t1 = default_slots" "sync_rx_grace t1 = default_grace" "send_epoch t1 = 0"
    by (simp_all add: t1_def case_prod_beta encrypt_payload_def Let_def maybe_rotate_epoch_def new_traffic_def
        sat_add64_def edge_simps)
  then have "sync_epoch t2 = - 1" by (simp add: t2_def toy_wrap_receive)
  then have t3: "send_epoch t3 = 0" "send_seq t3 = [0, 0]" "send_packets_since_epoch t3 = 0" "send_epoch_started_ms t3 = 7"
    by (simp_all add: t3_def sync_traffic_def)
  have n3: "fst (?step (Seal 8 [2]) t3) = Some (nonce_of 0 0)"
    by (rule toy_seal_nonce) (simp_all add: t3 maybe_rotate_epoch_def sat_add64_def edge_simps)
  have "wire_nonces toy_crypto [] (ustr ''aes-gcm'') 1
     [Seal 5 [1], Receive 6 0 wrap_datagram, Resync 7, Seal 8 [2]] (new_traffic 5) =
     (case fst (?step (Seal 5 [1]) (new_traffic 5)) of None \<Rightarrow> [] | Some v \<Rightarrow> [v]) @
     (case fst (?step (Seal 8 [2]) t3) of None \<Rightarrow> [] | Some v \<Rightarrow> [v])"
    by (simp only: wire_nonces.simps t1_def t2_def t3_def case_prod_beta Let_def session_step.simps fst_conv snd_conv
        option.case append_Nil append_Nil2)
  then show ?thesis by (simp only: n1 n3 option.case append.simps)
qed

end
