(* ===== verification/Legacy.thy ===== *)
theory Legacy
  imports Secure
begin

unbundle bit_operations_syntax

text \<open>
  The plaintext handshake and the symmetric packet cipher of \<^verbatim>\<open>wasm/src/legacy.rs\<close>, for clients
  without secure mode. \<open>DefaultHasher\<close> of the Rust standard library is SipHash-1-3 with a zero key; a
  hasher is modelled by the bytes written to it so far. The random nonce of the cipher is an argument,
  \<open>None\<close> when the random source fails.
\<close>

section \<open>SipHash-1-3\<close>

record sip_state =
  v0 :: u64
  v1 :: u64
  v2 :: u64
  v3 :: u64

definition rotl64 :: "nat \<Rightarrow> u64 \<Rightarrow> u64" where
  "rotl64 n w = push_bit n w OR drop_bit (64 - n) w"

definition sip_round :: "sip_state \<Rightarrow> sip_state" where
  "sip_round s =
     (let a0 = v0 s + v1 s;
          b0 = rotl64 13 (v1 s) XOR a0;
          a1 = rotl64 32 a0;
          c0 = v2 s + v3 s;
          d0 = rotl64 16 (v3 s) XOR c0;
          a2 = a1 + d0;
          d1 = rotl64 21 d0 XOR a2;
          c1 = c0 + b0;
          b1 = rotl64 17 b0 XOR c1;
          c2 = rotl64 32 c1
      in \<lparr>v0 = a2, v1 = b1, v2 = c2, v3 = d1\<rparr>)"

definition sip_init :: sip_state where
  "sip_init = \<lparr>v0 = 0x736f6d6570736575, v1 = 0x646f72616e646f6d, v2 = 0x6c7967656e657261, v3 = 0x7465646279746573\<rparr>"

fun le_word :: "bytes \<Rightarrow> u64" where
  "le_word [] = 0"
| "le_word (b # bs) = ucast b OR push_bit 8 (le_word bs)"

definition sip_block :: "u64 \<Rightarrow> sip_state \<Rightarrow> sip_state" where
  "sip_block m s = (let t = sip_round (s\<lparr>v3 := v3 s XOR m\<rparr>) in t\<lparr>v0 := v0 t XOR m\<rparr>)"

fun sip_blocks :: "bytes \<Rightarrow> sip_state \<Rightarrow> bytes \<times> sip_state" where
  "sip_blocks (b0 # b1 # b2 # b3 # b4 # b5 # b6 # b7 # bs) s =
     sip_blocks bs (sip_block (le_word [b0, b1, b2, b3, b4, b5, b6, b7]) s)"
| "sip_blocks bs s = (bs, s)"

definition sip_finish :: "bytes \<Rightarrow> u64" where
  "sip_finish written =
     (let (tail, s) = sip_blocks written sip_init;
          b = push_bit 56 (of_nat (length written)) OR le_word tail;
          t = sip_block b s;
          u = sip_round (sip_round (sip_round (t\<lparr>v2 := v2 t XOR 0xff\<rparr>)))
      in v0 u XOR v1 u XOR v2 u XOR v3 u)"

section \<open>Digest and key derivation\<close>

definition PACKET_TYPE_HANDSHAKE :: byte where "PACKET_TYPE_HANDSHAKE = 2"
definition MAGIC :: u32 where "MAGIC = 0xd1e1a5e1"
definition VERSION :: u32 where "VERSION = 1"
definition DIGEST_SIZE :: nat where "DIGEST_SIZE = 32"

lemmas legacy_consts [edge_simps] = PACKET_TYPE_HANDSHAKE_def MAGIC_def VERSION_def DIGEST_SIZE_def

text \<open>
  The shard loop: the hasher has been given \<open>written\<close>, the shards so far are \<open>digest\<close>; every round
  appends one shard and feeds the whole prefix back.
\<close>

fun digest_shards :: "nat \<Rightarrow> bytes \<Rightarrow> bytes \<Rightarrow> bytes" where
  "digest_shards 0 written digest = digest"
| "digest_shards (Suc n) written digest =
     (let digest' = digest @ u64_to_be_bytes (sip_finish written)
      in digest_shards n (written @ digest') digest')"

definition generate_digest_from_str :: "ustring \<Rightarrow> ustring \<Rightarrow> bytes" where
  "generate_digest_from_str name secret =
     digest_shards (DIGEST_SIZE div 8) (utf8_encode name @ utf8_encode secret) []"

definition derive_key_128 :: "ustring \<Rightarrow> bytes" where
  "derive_key_128 secret =
     (let w = utf8_encode secret;
          k0 = u64_to_be_bytes (sip_finish w);
          k1 = u64_to_be_bytes (sip_finish (w @ k0))
      in k0 @ k1)"

definition constant_time_eq :: "bytes \<Rightarrow> bytes \<Rightarrow> bool" where
  "constant_time_eq left right =
     (if length left \<noteq> length right then False
      else fold (\<lambda>(a, b) diff. diff OR (a XOR b)) (zip left right) 0 = 0)"

section \<open>Handshake\<close>

definition encode_header :: "u32 \<Rightarrow> u32 \<Rightarrow> byte \<Rightarrow> bytes \<Rightarrow> bytes" where
  "encode_header f t ptype pl =
     to_bytes \<lparr>from_peer_id = f, to_peer_id = t, packet_type = ptype, rs_flags = 0, forward_counter = 1,
       rs_reserved = 0, rs_len = of_nat (length pl)\<rparr> @ pl"

definition decode_handshake_request :: "codec \<Rightarrow> rs_header \<Rightarrow> bytes \<Rightarrow> handshake_request res" where
  "decode_handshake_request K h pkt =
     (case dec_handshake_request K (drop EASYTIER_HEADER_SIZE pkt) of
        None \<Rightarrow> raise ''legacy handshake payload is not a valid HandshakeRequest protobuf''
      | Some r \<Rightarrow>
          if hr_magic r \<noteq> MAGIC then raise ''legacy handshake magic mismatch''
          else if hr_version r \<noteq> VERSION then raise ''unsupported legacy handshake version''
          else if hr_my_peer_id r = 0 then raise ''legacy handshake my_peer_id must not be zero''
          else if hr_my_peer_id r \<noteq> from_peer_id h
          then raise ''legacy handshake peer id mismatch between header and payload''
          else if hr_network_name r = [] \<or> utf8_length (hr_network_name r) > 255
          then raise ''legacy handshake network_name must be 1-255 bytes''
          else if length (hr_network_secret_digest r) \<noteq> DIGEST_SIZE
          then raise ''legacy handshake network_secret_digest must be 32 bytes''
          else Inr r)"

record legacy_handshake_info =
  lh_peer_id :: u32
  lh_network_name :: ustring
  lh_digest_base64 :: ustring

definition parse_legacy_handshake_impl :: "crypto \<Rightarrow> codec \<Rightarrow> bytes \<Rightarrow> legacy_handshake_info res" where
  "parse_legacy_handshake_impl C K pkt =
     bind_res (parse_packet pkt) (\<lambda>h.
       if packet_type h \<noteq> PACKET_TYPE_HANDSHAKE
       then raise ''legacy handshake requires PacketType::HandShake''
       else if rs_flags h AND ENCRYPTED_FLAG \<noteq> 0
       then raise ''legacy handshake must not set the encrypted flag''
       else bind_res (decode_handshake_request K h pkt) (\<lambda>r.
         Inr \<lparr>lh_peer_id = hr_my_peer_id r, lh_network_name = hr_network_name r,
              lh_digest_base64 = b64_encode C (hr_network_secret_digest r)\<rparr>))"

text \<open>\<open>serde_json::to_string\<close> of the result, as the JSON value the TypeScript side parses.\<close>

definition parse_legacy_handshake :: "crypto \<Rightarrow> codec \<Rightarrow> bytes \<Rightarrow> json res" where
  "parse_legacy_handshake C K pkt =
     bind_res (parse_legacy_handshake_impl C K pkt) (\<lambda>i.
       Inr (JObj [(ustr ''peer_id'', JNum (of_nat (unat (lh_peer_id i)))),
                  (ustr ''network_name'', JStr (lh_network_name i)),
                  (ustr ''network_secret_digest_base64'', JStr (lh_digest_base64 i))]))"

definition network_secret_digest :: "ustring \<Rightarrow> ustring \<Rightarrow> bytes res" where
  "network_secret_digest name secret =
     (if name = [] then raise ''network_name must not be empty''
      else Inr (generate_digest_from_str name secret))"

definition verify_network_secret_digest :: "bytes \<Rightarrow> ustring \<Rightarrow> ustring \<Rightarrow> bool res" where
  "verify_network_secret_digest digest name secret =
     (if name = [] then raise ''network_name must not be empty''
      else if length digest \<noteq> DIGEST_SIZE then Inr False
      else Inr (constant_time_eq digest (generate_digest_from_str name secret)))"

definition build_legacy_handshake_response :: "codec \<Rightarrow> peer_id \<Rightarrow> ustring \<Rightarrow> ustring \<Rightarrow> bytes res" where
  "build_legacy_handshake_response K sid name secret =
     (if sid = 0 then raise ''server peer id must not be zero''
      else if name = [] \<or> utf8_length name > 255 then raise ''network_name must be 1-255 bytes''
      else if secret = [] then raise ''network_secret must not be empty''
      else Inr (encode_header sid 0 PACKET_TYPE_HANDSHAKE
             (enc_handshake_request K
               \<lparr>hr_magic = MAGIC, hr_my_peer_id = sid, hr_version = VERSION, hr_features = [],
                hr_network_name = name, hr_network_secret_digest = generate_digest_from_str name secret\<rparr>)))"

section \<open>Packet cipher\<close>

record legacy_cipher =
  key_128 :: bytes

definition LEGACY_AEAD_TAG_SIZE :: nat where "LEGACY_AEAD_TAG_SIZE = 16"
definition LEGACY_AEAD_NONCE_SIZE :: nat where "LEGACY_AEAD_NONCE_SIZE = 12"
definition LEGACY_AEAD_TAIL_SIZE :: nat where "LEGACY_AEAD_TAIL_SIZE = LEGACY_AEAD_TAG_SIZE + LEGACY_AEAD_NONCE_SIZE"

lemmas legacy_aead_consts [edge_simps] =
  LEGACY_AEAD_TAG_SIZE_def LEGACY_AEAD_NONCE_SIZE_def LEGACY_AEAD_TAIL_SIZE_def

definition new_legacy_cipher :: "ustring \<Rightarrow> legacy_cipher res" where
  "new_legacy_cipher secret =
     (if secret = [] then raise ''network_secret must not be empty''
      else Inr \<lparr>key_128 = derive_key_128 secret\<rparr>)"

definition legacy_encrypt_packet :: "crypto \<Rightarrow> bytes option \<Rightarrow> legacy_cipher \<Rightarrow> bytes \<Rightarrow> bytes res" where
  "legacy_encrypt_packet C rand12 lc pkt =
     (if length pkt < EASYTIER_HEADER_SIZE then raise ''legacy packet is shorter than the EasyTier header''
      else case rand12 of
        None \<Rightarrow> raise ''legacy nonce generation failed''
      | Some nonce \<Rightarrow>
          (case aead_seal C ''aes-gcm'' (key_128 lc) nonce (drop EASYTIER_HEADER_SIZE pkt) of
             None \<Rightarrow> raise ''legacy AES-128-GCM encryption failed''
           | Some (ciphertext, tag) \<Rightarrow>
               let out = take EASYTIER_HEADER_SIZE pkt @ ciphertext @ tag @ nonce
               in Inr (out[9 := out ! 9 OR ENCRYPTED_FLAG])))"

definition legacy_decrypt_packet :: "crypto \<Rightarrow> legacy_cipher \<Rightarrow> bytes \<Rightarrow> bytes res" where
  "legacy_decrypt_packet C lc pkt =
     (if length pkt < EASYTIER_HEADER_SIZE
      then raise ''legacy encrypted packet is shorter than the EasyTier header''
      else bind_res (from_bytes pkt) (\<lambda>h.
        if rs_flags h AND ENCRYPTED_FLAG = 0 then Inr pkt
        else if length pkt < EASYTIER_HEADER_SIZE + LEGACY_AEAD_TAIL_SIZE
        then raise ''legacy encrypted packet is missing the AEAD tail''
        else
          let ciphertext_len = length pkt - EASYTIER_HEADER_SIZE - LEGACY_AEAD_TAIL_SIZE;
              tag_start = length pkt - LEGACY_AEAD_NONCE_SIZE - LEGACY_AEAD_TAG_SIZE;
              nonce_start = length pkt - LEGACY_AEAD_NONCE_SIZE;
              tag = take LEGACY_AEAD_TAG_SIZE (drop tag_start pkt);
              nonce = drop nonce_start pkt
          in case aead_open C ''aes-gcm'' (key_128 lc) nonce
                    (take ciphertext_len (drop EASYTIER_HEADER_SIZE pkt)) tag of
               None \<Rightarrow> raise ''legacy AES-128-GCM decryption failed''
             | Some plaintext \<Rightarrow>
                 let out = take EASYTIER_HEADER_SIZE pkt @ plaintext
                 in Inr (out[9 := out ! 9 AND NOT ENCRYPTED_FLAG])))"

section \<open>Library lemmas\<close>

lemma fold_or_zero:
  "fold (\<lambda>(a, b) d. d OR (a XOR b)) xs (d :: byte) = 0 \<longleftrightarrow> d = 0 \<and> (\<forall>(a, b) \<in> set xs. a = b)"
proof (induction xs arbitrary: d)
  case (Cons x xs)
  obtain a b where x: "x = (a, b)" by (cases x)
  have "d OR (a XOR b) = 0 \<longleftrightarrow> d = 0 \<and> a = b"
    by (auto simp: bit_eq_iff bit_simps)
  then show ?case by (auto simp: x Cons.IH)
qed simp

lemma constant_time_eq_iff: "constant_time_eq left right \<longleftrightarrow> left = right"
proof (cases "length left = length right")
  case True
  then have "(\<forall>(a, b) \<in> set (zip left right). a = b) \<longleftrightarrow> left = right"
    by (induction left right rule: list_induct2) auto
  with True show ?thesis by (simp add: constant_time_eq_def fold_or_zero)
qed (auto simp: constant_time_eq_def)

lemma length_digest_shards: "length (digest_shards n w d) = length d + 8 * n"
  by (induction n arbitrary: w d) (simp_all add: Let_def)

lemma length_generate_digest [simp]: "length (generate_digest_from_str n s) = 32"
  by (simp add: generate_digest_from_str_def length_digest_shards DIGEST_SIZE_def)

lemma length_derive_key_128 [simp]: "length (derive_key_128 s) = 16"
  by (simp add: derive_key_128_def Let_def)

lemma flag_set_clear [simp]:
  fixes b :: byte
  shows "b AND ENCRYPTED_FLAG = 0 \<Longrightarrow> (b OR ENCRYPTED_FLAG) AND NOT ENCRYPTED_FLAG = b"
    and "(b OR ENCRYPTED_FLAG) AND ENCRYPTED_FLAG \<noteq> 0" and "ENCRYPTED_FLAG \<noteq> 0"
  by (auto simp: ENCRYPTED_FLAG_def bit_eq_iff bit_simps intro: exI [of _ 0])

lemma encode_header_parse [simp]:
  "parse_packet (encode_header f t ty pl) =
     Inr \<lparr>from_peer_id = f, to_peer_id = t, packet_type = ty, rs_flags = 0, forward_counter = 1,
       rs_reserved = 0, rs_len = of_nat (length pl)\<rparr>"
  by (simp add: encode_header_def parse_packet_def)

lemma encode_header_payload [simp]: "drop EASYTIER_HEADER_SIZE (encode_header f t ty pl) = pl"
  by (simp add: encode_header_def)

section \<open>Properties\<close>

text \<open>
  C28. The packet cipher round-trips: a frame without the encrypted flag that \<open>LegacyCipher\<close> encrypts
  under any nonce is restored byte for byte by decrypting it with the same cipher, its header
  (the declared length included) is kept apart from the flag, and the frame grows by exactly the
  28-byte tail. \<open>aead_correct\<close> is the law of the AEAD library.
\<close>

theorem legacy_cipher_roundtrip:
  assumes "aead_correct C" and "\<And>k n p c t. aead_seal C ''aes-gcm'' k n p = Some (c, t) \<Longrightarrow> length c = length p"
    and len: "EASYTIER_HEADER_SIZE \<le> length pkt" and clear: "pkt ! 9 AND ENCRYPTED_FLAG = 0"
    and nonce: "length nonce = 12" and enc: "legacy_encrypt_packet C (Some nonce) lc pkt = Inr out"
  shows "legacy_decrypt_packet C lc out = Inr pkt \<and> length out = length pkt + LEGACY_AEAD_TAIL_SIZE
     \<and> take 16 out = (take 16 pkt)[9 := pkt ! 9 OR ENCRYPTED_FLAG]"
proof -
  from len have len16: "16 \<le> length pkt" by (simp add: EASYTIER_HEADER_SIZE_def)
  from enc len obtain c t where ct: "aead_seal C ''aes-gcm'' (key_128 lc) nonce (drop 16 pkt) = Some (c, t)"
    and out: "out = (take 16 pkt @ c @ t @ nonce)[9 := pkt ! 9 OR ENCRYPTED_FLAG]"
    by (auto simp: legacy_encrypt_packet_def EASYTIER_HEADER_SIZE_def Let_def nth_append split: option.splits if_splits)
  let ?h = "(take 16 pkt)[9 := pkt ! 9 OR ENCRYPTED_FLAG]"
  have out': "out = ?h @ c @ t @ nonce" using len16 by (simp add: out list_update_append)
  have op: "aead_open C ''aes-gcm'' (key_128 lc) nonce c t = Some (drop 16 pkt)" and t: "length t = 16"
    using assms(1) ct by (auto simp: aead_correct_def)
  have c: "length c = length pkt - 16" using assms(2) [OF ct] by simp
  have lh: "length ?h = 16" using len16 by simp
  have fb: "\<exists>h. from_bytes out = Inr h \<and> rs_flags h = pkt ! 9 OR ENCRYPTED_FLAG"
    using len16 lh by (simp add: from_bytes_def out' EASYTIER_HEADER_SIZE_def Let_def nth_append)
  then obtain h where h: "from_bytes out = Inr h" "rs_flags h = pkt ! 9 OR ENCRYPTED_FLAG" by blast
  have lo: "length out = length pkt + 28" using len16 c t nonce by (simp add: out')
  have parts: "take (length pkt - 16) (drop 16 out) = c" "take 16 (drop (length pkt) out) = t"
    "drop (16 + length pkt) out = nonce" "take 16 out = ?h"
    using len16 c t lh by (simp_all add: out')
  have restored: "((?h @ drop 16 pkt)[9 := (?h @ drop 16 pkt) ! 9 AND NOT ENCRYPTED_FLAG]) = pkt"
    using len16 clear list_update_id [of "take 16 pkt" 9] by (simp add: nth_append list_update_append)
  have "legacy_decrypt_packet C lc out = Inr pkt"
    using len16 lo parts op restored
    by (simp add: legacy_decrypt_packet_def h Let_def legacy_aead_consts EASYTIER_HEADER_SIZE_def)
  then show ?thesis using lo parts(4) by (simp add: edge_simps)
qed

theorem legacy_cipher_roundtrip_witness:
  "legacy_decrypt_packet toy_crypto \<lparr>key_128 = []\<rparr>
     ([5, 0, 0, 0, 7, 0, 0, 0, 8, 1, 1, 0, 1, 0, 0, 0] @ [42] @ replicate 16 7 @ replicate 12 3) =
   Inr [5, 0, 0, 0, 7, 0, 0, 0, 8, 0, 1, 0, 1, 0, 0, 0, 42]"
proof -
  have "legacy_encrypt_packet toy_crypto (Some (replicate 12 3)) \<lparr>key_128 = []\<rparr>
      [5, 0, 0, 0, 7, 0, 0, 0, 8, 0, 1, 0, 1, 0, 0, 0, 42] =
    Inr ([5, 0, 0, 0, 7, 0, 0, 0, 8, 1, 1, 0, 1, 0, 0, 0] @ [42] @ replicate 16 7 @ replicate 12 3)"
    by (simp add: legacy_encrypt_packet_def toy_crypto_def EASYTIER_HEADER_SIZE_def ENCRYPTED_FLAG_def
        list_update_append nth_append)
  from legacy_cipher_roundtrip [OF toy_aead _ _ _ _ this] show ?thesis
    by (simp add: toy_crypto_def EASYTIER_HEADER_SIZE_def ENCRYPTED_FLAG_def)
qed

text \<open>
  The digest check accepts exactly the right digest: for a named network
  \<open>verify_network_secret_digest\<close> answers true for the 32-byte digest of the name and the secret and
  false for every other byte string, whatever its length; only an empty name is an error.
\<close>

theorem verify_digest_exact:
  "verify_network_secret_digest d name secret =
     (if name = [] then raise ''network_name must not be empty''
      else Inr (d = generate_digest_from_str name secret))"
  by (auto simp: verify_network_secret_digest_def constant_time_eq_iff DIGEST_SIZE_def)

text \<open>
  The digest does not separate the name from the secret: two different identities whose name and
  secret concatenate to the same bytes have the same digest, so each passes the check of the other.
\<close>

theorem digest_ignores_boundary:
  "verify_network_secret_digest (generate_digest_from_str (ustr ''office'') (ustr ''1secret'')) (ustr ''office1'')
     (ustr ''secret'') = Inr True"
  by (simp add: verify_network_secret_digest_def constant_time_eq_iff DIGEST_SIZE_def)
    (simp add: generate_digest_from_str_def utf8_encode_def ustr_def)

text \<open>
  The server's handshake frame is a well-formed handshake of its own network: with a codec that
  decodes what it encodes, \<open>parse_legacy_handshake_impl\<close> reads back the server's peer id, the network name and the
  digest of the secret, and the digest it carries passes \<open>verify_network_secret_digest\<close>.
\<close>

theorem legacy_response_parses:
  assumes codec: "dec_handshake_request K (enc_handshake_request K r) = Some r"
    and r: "r = \<lparr>hr_magic = MAGIC, hr_my_peer_id = sid, hr_version = VERSION, hr_features = [],
       hr_network_name = name, hr_network_secret_digest = generate_digest_from_str name secret\<rparr>"
    and built: "build_legacy_handshake_response K sid name secret = Inr frame"
  shows "parse_legacy_handshake_impl C K frame = Inr \<lparr>lh_peer_id = sid, lh_network_name = name,
      lh_digest_base64 = b64_encode C (generate_digest_from_str name secret)\<rparr>
     \<and> verify_network_secret_digest (generate_digest_from_str name secret) name secret = Inr True"
proof -
  from built have guards: "sid \<noteq> 0" "name \<noteq> []" "utf8_length name \<le> 255"
    and frame: "frame = encode_header sid 0 PACKET_TYPE_HANDSHAKE (enc_handshake_request K r)"
    by (auto simp: r build_legacy_handshake_response_def split: if_splits)
  then show ?thesis
    by (simp add: parse_legacy_handshake_impl_def decode_handshake_request_def codec [unfolded r] r DIGEST_SIZE_def
        verify_network_secret_digest_def constant_time_eq_iff)
qed

theorem legacy_response_parses_witness:
  "\<exists>frame. build_legacy_handshake_response (toy_codec\<lparr>dec_handshake_request := \<lambda>_. Some
       \<lparr>hr_magic = MAGIC, hr_my_peer_id = 7, hr_version = VERSION, hr_features = [],
        hr_network_name = [110], hr_network_secret_digest = generate_digest_from_str [110] [115]\<rparr>\<rparr>) 7 [110] [115] = Inr frame
     \<and> map_sum id lh_peer_id (parse_legacy_handshake_impl toy_crypto (toy_codec\<lparr>dec_handshake_request := \<lambda>_. Some
       \<lparr>hr_magic = MAGIC, hr_my_peer_id = 7, hr_version = VERSION, hr_features = [],
        hr_network_name = [110], hr_network_secret_digest = generate_digest_from_str [110] [115]\<rparr>\<rparr>) frame) = Inr 7"
  (is "\<exists>frame. build_legacy_handshake_response ?K _ _ _ = _ \<and> _")
proof -
  obtain frame where f: "build_legacy_handshake_response ?K 7 [110] [115] = Inr frame"
    by (simp add: build_legacy_handshake_response_def utf8_length_def utf8_width_def)
  from legacy_response_parses [OF _ refl f] f show ?thesis by simp
qed

end
