(* ===== verification/RouteState.thy ===== *)
theory RouteState
  imports Proto
begin

unbundle bit_operations_syntax

text \<open>
  The link-state route table of \<^verbatim>\<open>wasm/src/route_state.rs\<close>. One \<open>route_group\<close> per network holds the
  direct peers, their announced infos, one connection row per peer with the version its owner keeps,
  the synchronisation session of each peer and the cached topology snapshot. A \<open>BTreeSet\<close> is an
  ascending list without duplicates; the randomness a new group draws is the argument \<open>group_seed\<close>;
  milliseconds are natural numbers.
\<close>

section \<open>Sets and integers of the Rust library\<close>

definition bset_insert :: "peer_id \<Rightarrow> peer_id list \<Rightarrow> peer_id list" where
  "bset_insert x xs = insort_insert x xs"

definition bset_of :: "peer_id list \<Rightarrow> peer_id list" where
  "bset_of xs = sort (remdups xs)"

definition bset_wf :: "peer_id list \<Rightarrow> bool" where
  "bset_wf xs \<longleftrightarrow> sorted xs \<and> distinct xs"

definition digit_value :: "nat \<Rightarrow> nat \<Rightarrow> nat option" where
  "digit_value radix c =
     (let v = (if 48 \<le> c \<and> c \<le> 57 then Some (c - 48)
               else if 97 \<le> c \<and> c \<le> 122 then Some (c - 87)
               else if 65 \<le> c \<and> c \<le> 90 then Some (c - 55) else None)
      in case v of None \<Rightarrow> None | Some d \<Rightarrow> if d < radix then Some d else None)"

fun parse_digits :: "nat \<Rightarrow> nat \<Rightarrow> nat \<Rightarrow> ustring \<Rightarrow> nat option" where
  "parse_digits radix bound acc [] = Some acc"
| "parse_digits radix bound acc (c # cs) =
     (case digit_value radix c of
        None \<Rightarrow> None
      | Some d \<Rightarrow> if acc * radix + d < bound then parse_digits radix bound (acc * radix + d) cs else None)"

text \<open>\<open>from_str_radix\<close> of the unsigned types: an optional plus sign, then at least one digit, no overflow.\<close>

definition from_str_radix :: "nat \<Rightarrow> nat \<Rightarrow> ustring \<Rightarrow> nat option" where
  "from_str_radix bound radix s =
     (let ds = (case s of [] \<Rightarrow> [] | c # cs \<Rightarrow> if c = 43 then cs else s)
      in if ds = [] then None else parse_digits radix bound 0 ds)"

section \<open>State\<close>

record conn_row =
  row_version :: u32
  row_connected :: "peer_id list"

definition default_row :: conn_row where
  "default_row = \<lparr>row_version = 0, row_connected = []\<rparr>"

record saved_version =
  sv_version :: u32
  sv_touched_at_ms :: nat

record session_state =
  ss_my_session_id :: "u64 option"
  ss_dst_session_id :: "u64 option"
  ss_we_are_initiator :: bool
  ss_peer_info_ver_map :: "(peer_id, saved_version) jmap"
  ss_foreign_net_ver :: u32
  ss_last_touch_ms :: nat
  ss_last_topology_version :: u64
  ss_last_topology_touch_ms :: nat

definition default_session :: session_state where
  "default_session = \<lparr>ss_my_session_id = None, ss_dst_session_id = None, ss_we_are_initiator = False,
     ss_peer_info_ver_map = [], ss_foreign_net_ver = 0, ss_last_touch_ms = 0, ss_last_topology_version = 0,
     ss_last_topology_touch_ms = 0\<rparr>"

record route_group =
  rg_peers :: "peer_id list"
  rg_peer_infos :: "(peer_id, route_peer_info) jmap"
  rg_authenticated_peer_keys :: "(peer_id, bytes) jmap"
  rg_sessions :: "(peer_id, session_state) jmap"
  rg_conn_rows :: "(peer_id, conn_row) jmap"
  rg_topology_version :: u64
  rg_cached_conn_bitmap :: "(u64 \<times> route_conn_bitmap) option"
  rg_cached_conn_peer_list :: "(u64 \<times> peer_conn_info list) option"
  rg_my_info :: route_peer_info
  rg_my_info_version :: u32

record route_state =
  rs_groups :: "(ustring, route_group) jmap"
  rs_my_peer_id :: peer_id
  rs_route_id_overrides :: "(ustring, u64) jmap"

record group_seed =
  seed_inst_id :: uuid
  seed_route_id :: u64

record route_sync_outcome =
  so_response :: bytes
  so_route_changed :: bool
  so_session_changed :: bool

record route_update =
  ru_payload :: bytes
  ru_peer_info_versions :: "(peer_id \<times> u32) list"
  ru_topology_version :: "u64 option"

record sweep_outcome =
  sw_route_changed_networks :: "ustring list"
  sw_dead_direct_peers :: "ustring list"

definition EASYTIER_VERSION :: ustring where "EASYTIER_VERSION = ustr ''2.6.4-8428a89d-edge''"
definition MAX_LEGACY_BITMAP_PEERS :: nat where "MAX_LEGACY_BITMAP_PEERS = 8192"
definition SAVED_ROUTE_VERSION_TTL_MS :: nat where "SAVED_ROUTE_VERSION_TTL_MS = 60000"
definition REMOVE_UNREACHABLE_PEER_INFO_AFTER_MS :: nat where "REMOVE_UNREACHABLE_PEER_INFO_AFTER_MS = 90000"
definition REMOVE_DEAD_PEER_INFO_AFTER_MS :: nat where "REMOVE_DEAD_PEER_INFO_AFTER_MS = 3660000"

lemmas route_consts [edge_simps] = MAX_LEGACY_BITMAP_PEERS_def SAVED_ROUTE_VERSION_TTL_MS_def
  REMOVE_UNREACHABLE_PEER_INFO_AFTER_MS_def REMOVE_DEAD_PEER_INFO_AFTER_MS_def

section \<open>Groups\<close>

definition new_route_state :: "peer_id \<Rightarrow> route_state" where
  "new_route_state me = \<lparr>rs_groups = [], rs_my_peer_id = me, rs_route_id_overrides = []\<rparr>"

definition initial_my_info :: "peer_id \<Rightarrow> group_seed \<Rightarrow> u64 option \<Rightarrow> route_peer_info" where
  "initial_my_info me seed persisted =
     \<lparr>pi_peer_id = me, inst_id = Some (seed_inst_id seed), cost = 0, ipv4_addr = None,
      hostname = Some (ustr ''edge''), last_update = None, pi_version = 1,
      easytier_version = EASYTIER_VERSION,
      feature_flag = Some (default_feature_flag\<lparr>is_public_server := True, avoid_relay_data := False,
         kcp_input := False, no_relay_kcp := False, support_conn_list_sync := True, disable_p2p := True\<rparr>),
      peer_route_id = (case persisted of Some r \<Rightarrow> r | None \<Rightarrow> seed_route_id seed),
      network_length = 24, noise_static_pubkey = [], pi_other = []\<rparr>"

definition new_group :: "peer_id \<Rightarrow> group_seed \<Rightarrow> u64 option \<Rightarrow> route_group" where
  "new_group me seed persisted =
     \<lparr>rg_peers = [], rg_peer_infos = [], rg_authenticated_peer_keys = [], rg_sessions = [], rg_conn_rows = [],
      rg_topology_version = 1, rg_cached_conn_bitmap = None, rg_cached_conn_peer_list = None,
      rg_my_info = initial_my_info me seed persisted, rg_my_info_version = 1\<rparr>"

definition ensure_group :: "group_seed \<Rightarrow> ustring \<Rightarrow> route_state \<Rightarrow> route_group \<times> route_state" where
  "ensure_group seed key rs =
     (let persisted = jget (rs_route_id_overrides rs) key;
          rs = rs\<lparr>rs_route_id_overrides := jdel key (rs_route_id_overrides rs)\<rparr>
      in case jget (rs_groups rs) key of
           Some g \<Rightarrow> (g, rs)
         | None \<Rightarrow>
             let g = new_group (rs_my_peer_id rs) seed persisted
             in (g, rs\<lparr>rs_groups := jset key g (rs_groups rs)\<rparr>))"

definition put_group :: "ustring \<Rightarrow> route_group \<Rightarrow> route_state \<Rightarrow> route_state" where
  "put_group key g rs = rs\<lparr>rs_groups := jset key g (rs_groups rs)\<rparr>"

text \<open>An operation that takes the group with \<open>ensure_group\<close> and writes it back.\<close>

definition with_group :: "group_seed \<Rightarrow> ustring \<Rightarrow> (route_group \<Rightarrow> 'a \<times> route_group) \<Rightarrow> route_state \<Rightarrow> 'a \<times> route_state" where
  "with_group seed key f rs =
     (let (g, rs1) = ensure_group seed key rs; (r, g') = f g in (r, put_group key g' rs1))"

definition set_persisted_route_id :: "ustring \<Rightarrow> u64 \<Rightarrow> route_state \<Rightarrow> route_state" where
  "set_persisted_route_id key route_id rs =
     (case jget (rs_groups rs) key of
        Some g \<Rightarrow> put_group key (g\<lparr>rg_my_info := (rg_my_info g)\<lparr>peer_route_id := route_id\<rparr>\<rparr>) rs
      | None \<Rightarrow> rs\<lparr>rs_route_id_overrides := jset key route_id (rs_route_id_overrides rs)\<rparr>)"

definition my_peer_route_id :: "group_seed \<Rightarrow> ustring \<Rightarrow> route_state \<Rightarrow> u64 \<times> route_state" where
  "my_peer_route_id seed key rs = with_group seed key (\<lambda>g. (peer_route_id (rg_my_info g), g)) rs"

section \<open>Topology bookkeeping\<close>

definition update_my_conn_row :: "peer_id \<Rightarrow> route_group \<Rightarrow> route_group" where
  "update_my_conn_row me g =
     (let row = (case jget (rg_conn_rows g) me of Some r \<Rightarrow> r | None \<Rightarrow> default_row);
          row' = (if row_connected row \<noteq> rg_peers g
                  then row\<lparr>row_version := row_version row + 1, row_connected := rg_peers g\<rparr> else row)
      in g\<lparr>rg_conn_rows := jset me row' (rg_conn_rows g)\<rparr>)"

definition note_topology_change :: "route_group \<Rightarrow> route_group" where
  "note_topology_change g = g\<lparr>rg_topology_version := max (rg_topology_version g + 1) 1,
     rg_cached_conn_bitmap := None, rg_cached_conn_peer_list := None\<rparr>"

definition session_of :: "route_group \<Rightarrow> peer_id \<Rightarrow> session_state" where
  "session_of g pid = (case jget (rg_sessions g) pid of Some s \<Rightarrow> s | None \<Rightarrow> default_session)"

text \<open>\<open>sessions.entry(pid).or_default()\<close>, changed by \<open>f\<close>.\<close>

definition with_session :: "peer_id \<Rightarrow> (session_state \<Rightarrow> session_state) \<Rightarrow> route_group \<Rightarrow> route_group" where
  "with_session pid f g = g\<lparr>rg_sessions := jset pid (f (session_of g pid)) (rg_sessions g)\<rparr>"

definition add_peer_group :: "peer_id \<Rightarrow> peer_id \<Rightarrow> bytes \<Rightarrow> nat \<Rightarrow> route_group \<Rightarrow> route_group" where
  "add_peer_group me pid key now g =
     (let g1 = with_session pid (\<lambda>s. s\<lparr>ss_last_touch_ms := now\<rparr>) g;
          g2 = g1\<lparr>rg_authenticated_peer_keys := jset pid key (rg_authenticated_peer_keys g1)\<rparr>
      in if pid \<in> set (rg_peers g2) then g2
         else note_topology_change (update_my_conn_row me (g2\<lparr>rg_peers := bset_insert pid (rg_peers g2)\<rparr>)))"

definition add_peer ::
    "group_seed \<Rightarrow> ustring \<Rightarrow> peer_id \<Rightarrow> bytes \<Rightarrow> nat \<Rightarrow> route_state \<Rightarrow> unit res \<times> route_state" where
  "add_peer seed key pid public_key now rs =
     (if public_key \<noteq> [] \<and> length public_key \<noteq> 32
      then (raise ''authenticated peer public key must be 32 bytes or empty for legacy peers'', rs)
      else with_group seed key (\<lambda>g. (Inr (), add_peer_group (rs_my_peer_id rs) pid public_key now g)) rs)"

definition forget_peer :: "peer_id \<Rightarrow> session_state \<Rightarrow> session_state" where
  "forget_peer pid s = s\<lparr>ss_peer_info_ver_map := jdel pid (ss_peer_info_ver_map s), ss_last_topology_version := 0\<rparr>"

definition remove_peer_group :: "peer_id \<Rightarrow> peer_id \<Rightarrow> route_group \<Rightarrow> route_group" where
  "remove_peer_group me pid g =
     (let was_present = pid \<in> set (rg_peers g);
          had_info = jhas (rg_peer_infos g) pid;
          g1 = g\<lparr>rg_peers := remove1 pid (rg_peers g), rg_peer_infos := jdel pid (rg_peer_infos g),
                 rg_authenticated_peer_keys := jdel pid (rg_authenticated_peer_keys g),
                 rg_sessions := jmap_values (forget_peer pid) (jdel pid (rg_sessions g)),
                 rg_conn_rows := jdel pid (rg_conn_rows g)\<rparr>
      in if was_present \<or> had_info then note_topology_change (update_my_conn_row me g1) else g1)"

definition remove_peer :: "group_seed \<Rightarrow> ustring \<Rightarrow> peer_id \<Rightarrow> route_state \<Rightarrow> route_state" where
  "remove_peer seed key pid rs =
     snd (with_group seed key (\<lambda>g. ((), remove_peer_group (rs_my_peer_id rs) pid g)) rs)"

section \<open>Expiry\<close>

definition session_alive :: "nat \<Rightarrow> route_group \<Rightarrow> peer_id \<Rightarrow> bool" where
  "session_alive now g pid =
     (case jget (rg_sessions g) pid of
        None \<Rightarrow> False
      | Some s \<Rightarrow> now - ss_last_touch_ms s \<le> REMOVE_UNREACHABLE_PEER_INFO_AFTER_MS)"

definition age_ms :: "nat \<Rightarrow> route_peer_info \<Rightarrow> nat" where
  "age_ms now info =
     (case last_update info of
        None \<Rightarrow> 2 ^ 64 - 1
      | Some seconds \<Rightarrow> now - (nat (max seconds 0) * 1000) mod 2 ^ 64)"

definition purge_entry :: "nat \<Rightarrow> route_group \<Rightarrow> peer_id \<times> route_peer_info \<Rightarrow> bool" where
  "purge_entry now g e =
     (let age = age_ms now (snd e)
      in if age \<le> REMOVE_UNREACHABLE_PEER_INFO_AFTER_MS then False
         else if age > REMOVE_DEAD_PEER_INFO_AFTER_MS then True
         else \<not> session_alive now g (fst e))"

definition purge_one :: "peer_id \<Rightarrow> route_group \<Rightarrow> route_group" where
  "purge_one pid g = g\<lparr>rg_peer_infos := jdel pid (rg_peer_infos g),
     rg_authenticated_peer_keys := jdel pid (rg_authenticated_peer_keys g),
     rg_conn_rows := jdel pid (rg_conn_rows g),
     rg_sessions := jmap_values (forget_peer pid) (rg_sessions g)\<rparr>"

text \<open>One group of the sweep: the dead direct peers removed, then the outdated entries purged.\<close>

definition sweep_group :: "peer_id \<Rightarrow> nat \<Rightarrow> route_group \<Rightarrow> peer_id list \<times> bool \<times> route_group" where
  "sweep_group me now g =
     (let dead = filter (\<lambda>pid. \<not> session_alive now g pid) (rg_peers g);
          g1 = fold (remove_peer_group me) dead g;
          purge = map fst (filter (purge_entry now g1) (rg_peer_infos g1));
          g2 = (if purge = [] then g1 else note_topology_change (fold purge_one purge g1))
      in (dead, dead \<noteq> [] \<or> purge \<noteq> [], g2))"

text \<open>Decimal text of an identifier, as \<open>format!\<close> prints it.\<close>

fun dec_digits :: "nat \<Rightarrow> ustring" where
  "dec_digits n = (if n < 10 then [48 + n] else dec_digits (n div 10) @ [48 + n mod 10])"

declare dec_digits.simps [simp del]

definition dead_entry :: "ustring \<Rightarrow> peer_id \<Rightarrow> ustring" where
  "dead_entry key pid = key @ [31] @ dec_digits (unat pid)"

text \<open>The body of the loop over the groups.\<close>

definition sweep_one :: "nat \<Rightarrow> ustring \<Rightarrow> sweep_outcome \<times> route_state \<Rightarrow> sweep_outcome \<times> route_state" where
  "sweep_one now key acc =
     (let (out, rs) = acc
      in case jget (rs_groups rs) key of
           None \<Rightarrow> (out, rs)
         | Some g \<Rightarrow>
             let (dead, changed, g') = sweep_group (rs_my_peer_id rs) now g
             in (out\<lparr>sw_dead_direct_peers := sw_dead_direct_peers out @ map (dead_entry key) dead,
                     sw_route_changed_networks := sw_route_changed_networks out @ (if changed then [key] else [])\<rparr>,
                 put_group key g' rs\<lparr>rs_route_id_overrides :=
                   (if dead = [] then rs_route_id_overrides rs else jdel key (rs_route_id_overrides rs))\<rparr>))"

definition sweep_expired_route_info :: "nat \<Rightarrow> route_state \<Rightarrow> sweep_outcome \<times> route_state" where
  "sweep_expired_route_info now rs =
     fold (sweep_one now) (jkeys (rs_groups rs)) (\<lparr>sw_route_changed_networks = [], sw_dead_direct_peers = []\<rparr>, rs)"

definition get_next_hop :: "ustring \<Rightarrow> peer_id \<Rightarrow> route_state \<Rightarrow> peer_id option" where
  "get_next_hop key target rs =
     (case jget (rs_groups rs) key of
        None \<Rightarrow> None
      | Some g \<Rightarrow> if target \<in> set (rg_peers g) then Some target else None)"

section \<open>Sessions\<close>

definition reset_session :: "session_state \<Rightarrow> session_state" where
  "reset_session s = s\<lparr>ss_peer_info_ver_map := [], ss_foreign_net_ver := 0, ss_last_topology_version := 0\<rparr>"

definition on_route_session_ack ::
    "group_seed \<Rightarrow> ustring \<Rightarrow> peer_id \<Rightarrow> u64 \<Rightarrow> bool \<Rightarrow> nat \<Rightarrow> route_state \<Rightarrow> route_state" where
  "on_route_session_ack seed key pid their_session_id initiator now rs =
     snd (with_group seed key (\<lambda>g. ((), with_session pid (\<lambda>s.
       (if ss_dst_session_id s \<noteq> Some their_session_id then reset_session s else s)
         \<lparr>ss_dst_session_id := Some their_session_id, ss_we_are_initiator := initiator, ss_last_touch_ms := now\<rparr>) g)) rs)"

definition save_version :: "nat \<Rightarrow> peer_id \<times> u32 \<Rightarrow> (peer_id, saved_version) jmap \<Rightarrow> (peer_id, saved_version) jmap" where
  "save_version now pv m =
     (case jget m (fst pv) of
        Some saved \<Rightarrow> jset (fst pv) \<lparr>sv_version = max (sv_version saved) (snd pv), sv_touched_at_ms = now\<rparr> m
      | None \<Rightarrow> jset (fst pv) \<lparr>sv_version = snd pv, sv_touched_at_ms = now\<rparr> m)"

definition commit_session :: "(peer_id \<times> u32) list \<Rightarrow> u64 option \<Rightarrow> nat \<Rightarrow> session_state \<Rightarrow> session_state" where
  "commit_session versions topo now s =
     (let s1 = s\<lparr>ss_peer_info_ver_map := fold (save_version now) versions (ss_peer_info_ver_map s)\<rparr>;
          s2 = (case topo of
                  None \<Rightarrow> s1
                | Some v \<Rightarrow> s1\<lparr>ss_last_topology_version := max (ss_last_topology_version s1) v,
                               ss_last_topology_touch_ms := now\<rparr>)
      in s2\<lparr>ss_last_touch_ms := now\<rparr>)"

definition commit_route_update ::
    "group_seed \<Rightarrow> ustring \<Rightarrow> peer_id \<Rightarrow> (peer_id \<times> u32) list \<Rightarrow> u64 option \<Rightarrow> nat \<Rightarrow> route_state \<Rightarrow> route_state" where
  "commit_route_update seed key pid versions topo now rs =
     snd (with_group seed key (\<lambda>g. ((), with_session pid (commit_session versions topo now) g)) rs)"

section \<open>The relay's own info\<close>

definition bump_my_info :: "route_group \<Rightarrow> route_group" where
  "bump_my_info g = g\<lparr>rg_my_info_version := rg_my_info_version g + 1,
     rg_my_info := (rg_my_info g)\<lparr>pi_version := rg_my_info_version g + 1\<rparr>\<rparr>"

definition set_my_info_field :: "group_seed \<Rightarrow> ustring \<Rightarrow> ustring \<Rightarrow> ustring \<Rightarrow> route_state \<Rightarrow> unit res \<times> route_state" where
  "set_my_info_field seed key field val rs =
     with_group seed key (\<lambda>g.
       if field = ustr ''hostname''
       then (Inr (), bump_my_info (g\<lparr>rg_my_info := (rg_my_info g)\<lparr>hostname := Some val\<rparr>\<rparr>))
       else if field = ustr ''network_length''
       then (case from_str_radix (2 ^ 32) 10 val of
               None \<Rightarrow> (raise ''invalid network_length'', g)
             | Some n \<Rightarrow> (Inr (), bump_my_info (g\<lparr>rg_my_info := (rg_my_info g)\<lparr>network_length := of_nat n\<rparr>\<rparr>)))
       else if field = ustr ''ipv4_addr''
       then (case from_str_radix (2 ^ 32) 10 val of
               None \<Rightarrow> (raise ''invalid ipv4_addr'', g)
             | Some n \<Rightarrow> (Inr (), bump_my_info (g\<lparr>rg_my_info := (rg_my_info g)\<lparr>ipv4_addr := Some (of_nat n)\<rparr>\<rparr>)))
       else (raise ''unknown field'', g)) rs"

definition set_my_noise_public_key :: "group_seed \<Rightarrow> ustring \<Rightarrow> bytes \<Rightarrow> route_state \<Rightarrow> unit res \<times> route_state" where
  "set_my_noise_public_key seed key public_key rs =
     (if length public_key \<noteq> 32 then (raise ''Noise public key must be 32 bytes'', rs)
      else with_group seed key (\<lambda>g. (Inr (),
        bump_my_info (g\<lparr>rg_my_info := (rg_my_info g)\<lparr>noise_static_pubkey := public_key\<rparr>\<rparr>))) rs)"

definition set_my_avoid_relay_data :: "group_seed \<Rightarrow> ustring \<Rightarrow> bool \<Rightarrow> route_state \<Rightarrow> unit res \<times> route_state" where
  "set_my_avoid_relay_data seed key enabled rs =
     with_group seed key (\<lambda>g.
       let flag = (case feature_flag (rg_my_info g) of Some f \<Rightarrow> f | None \<Rightarrow> default_feature_flag);
           g1 = g\<lparr>rg_my_info := (rg_my_info g)\<lparr>feature_flag := Some flag\<rparr>\<rparr>
       in if avoid_relay_data flag = enabled then (Inr (), g1)
          else (Inr (), bump_my_info (g\<lparr>rg_my_info :=
            (rg_my_info g)\<lparr>feature_flag := Some (flag\<lparr>avoid_relay_data := enabled\<rparr>)\<rparr>\<rparr>))) rs"

section \<open>Connection rows\<close>

text \<open>\<open>accept\<close> of \<open>store_conn_rows\<close>: one reported row.\<close>

definition accept_row ::
    "peer_id \<Rightarrow> peer_id \<Rightarrow> peer_id \<times> u32 \<times> peer_id list \<Rightarrow> bool \<times> route_group \<Rightarrow> bool \<times> route_group" where
  "accept_row me from_pid row acc =
     (let (pid, version, connected) = row; (changed, g) = acc
      in if pid \<noteq> from_pid \<or> pid = me \<or> version = 0 then (changed, g)
         else
           let known = filter (\<lambda>n. n = me \<or> n \<in> set (rg_peers g) \<or> jhas (rg_peer_infos g) n) connected;
               entry = (case jget (rg_conn_rows g) pid of Some r \<Rightarrow> r | None \<Rightarrow> default_row)
           in if version > row_version entry
              then (True, g\<lparr>rg_conn_rows := jset pid \<lparr>row_version = version, row_connected = known\<rparr> (rg_conn_rows g)\<rparr>)
              else (changed, g\<lparr>rg_conn_rows := jset pid entry (rg_conn_rows g)\<rparr>))"

text \<open>Row \<open>i\<close> of a bitmap over \<open>ids\<close>; the bit index is computed in the 32-bit \<open>usize\<close> of the core.\<close>

definition bitmap_bit :: "bytes \<Rightarrow> nat \<Rightarrow> bool" where
  "bitmap_bit bm b = (b div 8 < length bm \<and> bm ! (b div 8) AND push_bit (b mod 8) 1 \<noteq> 0)"

definition bitmap_row :: "route_conn_bitmap \<Rightarrow> nat \<Rightarrow> peer_id list" where
  "bitmap_row cb i =
     (let ids = cb_peer_ids cb; n = length ids
      in bset_of (map (\<lambda>j. pv_peer_id (ids ! j))
           (filter (\<lambda>j. i \<noteq> j \<and> bitmap_bit (cb_bitmap cb) ((i * n + j) mod 2 ^ 32)) [0..<n])))"

definition reported_rows :: "conn_info \<Rightarrow> (peer_id \<times> u32 \<times> peer_id list) list" where
  "reported_rows ci =
     (case ci of
        ConnPeerList infos \<Rightarrow>
          concat (map (\<lambda>r. case ci_peer_id r of
              None \<Rightarrow> [] | Some pv \<Rightarrow> [(pv_peer_id pv, pv_version pv, bset_of (connected_peer_ids r))]) infos)
      | ConnBitmap cb \<Rightarrow>
          map (\<lambda>i. (pv_peer_id (cb_peer_ids cb ! i), pv_version (cb_peer_ids cb ! i), bitmap_row cb i))
            [0..<length (cb_peer_ids cb)])"

definition store_conn_rows :: "peer_id \<Rightarrow> peer_id \<Rightarrow> conn_info option \<Rightarrow> route_group \<Rightarrow> bool \<times> route_group" where
  "store_conn_rows me from_pid conn g =
     (case conn of
        None \<Rightarrow> (False, g)
      | Some ci \<Rightarrow> fold (accept_row me from_pid) (reported_rows ci) (False, g))"

definition conn_row_for :: "route_group \<Rightarrow> peer_id \<Rightarrow> u32 \<times> peer_id list" where
  "conn_row_for g pid =
     (case jget (rg_conn_rows g) pid of Some r \<Rightarrow> (row_version r, row_connected r) | None \<Rightarrow> (0, []))"

fun index_of :: "peer_id \<Rightarrow> peer_id list \<Rightarrow> nat option" where
  "index_of x [] = None"
| "index_of x (y # ys) = (if x = y then Some 0 else map_option Suc (index_of x ys))"

definition set_bit_at :: "nat \<Rightarrow> nat \<Rightarrow> nat \<Rightarrow> bytes \<Rightarrow> bytes" where
  "set_bit_at n row col bm =
     (let idx = row * n + col in bm[idx div 8 := bm ! (idx div 8) OR push_bit (idx mod 8) 1])"

definition conn_bitmap :: "route_group \<Rightarrow> peer_id list \<Rightarrow> route_conn_bitmap" where
  "conn_bitmap g relevant =
     (let n = length relevant;
          rows = map (\<lambda>pid. (pid, conn_row_for g pid)) relevant;
          edges = concat (map (\<lambda>i. concat (map (\<lambda>link.
              case index_of link relevant of None \<Rightarrow> [] | Some j \<Rightarrow> [(i, j), (j, i)])
              (snd (snd (rows ! i))))) [0..<n])
      in \<lparr>cb_peer_ids = map (\<lambda>(pid, v, _). \<lparr>pv_peer_id = pid, pv_version = v\<rparr>) rows,
          cb_bitmap = fold (\<lambda>(i, j). set_bit_at n i j) edges (replicate ((n * n + 7) div 8) 0)\<rparr>)"

definition conn_peer_list :: "route_group \<Rightarrow> peer_id list \<Rightarrow> peer_conn_info list" where
  "conn_peer_list g relevant =
     map (\<lambda>pid. let (v, connected) = conn_row_for g pid
        in \<lparr>ci_peer_id = Some \<lparr>pv_peer_id = pid, pv_version = v\<rparr>, connected_peer_ids = connected\<rparr>) relevant"

text \<open>The target has been sent this topology recently.\<close>

definition topology_current :: "nat \<Rightarrow> route_group \<Rightarrow> peer_id \<Rightarrow> bool" where
  "topology_current now g target =
     (case jget (rg_sessions g) target of
        None \<Rightarrow> False
      | Some s \<Rightarrow> ss_last_topology_version s = rg_topology_version g
          \<and> now - ss_last_topology_touch_ms s < SAVED_ROUTE_VERSION_TTL_MS)"

definition build_conn_info ::
    "peer_id list \<Rightarrow> peer_id \<Rightarrow> bool \<Rightarrow> nat \<Rightarrow> route_group \<Rightarrow> conn_info option res \<times> route_group" where
  "build_conn_info relevant target supports_conn_list now g =
     (let tv = rg_topology_version g
      in if relevant = [] then (Inr None, g)
         else if topology_current now g target then (Inr None, g)
         else if supports_conn_list
         then (case rg_cached_conn_peer_list g of
                 Some (v, cached) \<Rightarrow>
                   if v = tv then (Inr (Some (ConnPeerList cached)), g)
                   else (Inr (Some (ConnPeerList (conn_peer_list g relevant))),
                         g\<lparr>rg_cached_conn_peer_list := Some (tv, conn_peer_list g relevant)\<rparr>)
               | None \<Rightarrow> (Inr (Some (ConnPeerList (conn_peer_list g relevant))),
                         g\<lparr>rg_cached_conn_peer_list := Some (tv, conn_peer_list g relevant)\<rparr>))
         else
           let fresh =
             (if length relevant > MAX_LEGACY_BITMAP_PEERS
              then (raise ''peer does not support sparse route synchronization and the legacy bitmap limit was exceeded'', g)
              else (Inr (Some (ConnBitmap (conn_bitmap g relevant))),
                    g\<lparr>rg_cached_conn_bitmap := Some (tv, conn_bitmap g relevant)\<rparr>))
           in case rg_cached_conn_bitmap g of
                Some (v, cached) \<Rightarrow> if v = tv then (Inr (Some (ConnBitmap cached)), g) else fresh
              | None \<Rightarrow> fresh)"

section \<open>Hand-written protobuf framing\<close>

text \<open>The loop of \<open>read_varint\<close>, with the bytes still to read, the value and the shift; \<open>None\<close> for an error.\<close>

fun read_varint_from :: "bytes \<Rightarrow> nat \<Rightarrow> u64 \<Rightarrow> (u64 \<times> bytes) option" where
  "read_varint_from [] shift acc = None"
| "read_varint_from (b # bs) shift acc =
     (let acc' = acc OR push_bit shift (ucast (b AND 0x7f))
      in if b AND 0x80 = 0 then Some (acc', bs)
         else if shift + 7 \<ge> 64 then None
         else read_varint_from bs (shift + 7) acc')"

definition read_varint :: "bytes \<Rightarrow> (u64 \<times> bytes) option" where
  "read_varint bs = read_varint_from bs 0 0"

function push_varint :: "u64 \<Rightarrow> bytes" where
  "push_varint v =
     (let b = (ucast (v AND 0x7f) :: byte); v' = drop_bit 7 v
      in if v' = 0 then [b] else (b OR 0x80) # push_varint v')"
  by pat_completeness auto

termination
proof (relation "measure unat")
  fix v b and v' :: u64
  assume "v' = drop_bit 7 v" and "v' \<noteq> 0"
  then have "v \<noteq> 0" by auto
  have "unat (drop_bit 7 v) = unat v div 128" by (simp add: drop_bit_eq_div unat_div)
  with \<open>v \<noteq> 0\<close> \<open>v' = drop_bit 7 v\<close> show "(v', v) \<in> measure unat" by (simp add: unat_gt_0)
qed simp

declare push_varint.simps [simp del]

definition push_len_delimited :: "nat \<Rightarrow> bytes \<Rightarrow> bytes" where
  "push_len_delimited field bs = push_varint (push_bit 3 (of_nat field) OR 2) @ push_varint (of_nat (length bs)) @ bs"

section \<open>Synchronisation requests\<close>

definition relevant_peers :: "peer_id \<Rightarrow> peer_id \<Rightarrow> route_group \<Rightarrow> peer_id list" where
  "relevant_peers me target g =
     bset_of (rg_peers g @ jkeys (rg_peer_infos g) @ jkeys (rg_conn_rows g) @ [me, target])"

definition known_info :: "peer_id \<Rightarrow> route_group \<Rightarrow> peer_id \<Rightarrow> route_peer_info option" where
  "known_info me g pid = (if pid = me then Some (rg_my_info g) else jget (rg_peer_infos g) pid)"

definition acked_version :: "nat \<Rightarrow> session_state \<Rightarrow> peer_id \<Rightarrow> u32" where
  "acked_version now s pid =
     (case jget (ss_peer_info_ver_map s) pid of
        None \<Rightarrow> 0
      | Some saved \<Rightarrow> if now - sv_touched_at_ms saved < SAVED_ROUTE_VERSION_TTL_MS then sv_version saved else 0)"

definition select_infos ::
    "peer_id \<Rightarrow> peer_id \<Rightarrow> bool \<Rightarrow> nat \<Rightarrow> route_group \<Rightarrow> (peer_id \<times> route_peer_info) list" where
  "select_infos me target full now g =
     concat (map (\<lambda>pid.
         if pid = target then []
         else case known_info me g pid of
           None \<Rightarrow> []
         | Some info \<Rightarrow>
             if full \<or> max (pi_version info) 1 > acked_version now (session_of g target) pid
             then [(pid, info)] else [])
       (relevant_peers me target g))"

definition build_sync_group ::
    "codec \<Rightarrow> peer_id \<Rightarrow> peer_id \<Rightarrow> u64 \<Rightarrow> bool \<Rightarrow> bool \<Rightarrow> nat \<Rightarrow> route_group \<Rightarrow> route_update res \<times> route_group" where
  "build_sync_group K me target server_session_id initiator force_full now g =
     (let g1 = with_session target (\<lambda>s. s\<lparr>ss_my_session_id := Some server_session_id\<rparr>) g;
          full = (force_full \<or> ss_dst_session_id (session_of g1 target) = None);
          items = select_infos me target full now g1;
          supports = (case jget (rg_peer_infos g1) target of
                        None \<Rightarrow> False
                      | Some info \<Rightarrow> (case feature_flag info of None \<Rightarrow> False | Some f \<Rightarrow> support_conn_list_sync f));
          (ci, g2) = build_conn_info (relevant_peers me target g1) target supports now g1
      in (bind_res ci (\<lambda>conn.
            let req = \<lparr>sr_my_peer_id = me, sr_my_session_id = server_session_id, sr_is_initiator = initiator,
                       sr_peer_infos = None, sr_conn_info = conn\<rparr>;
                fields = concat (map (\<lambda>(_, info). push_len_delimited 1 (enc_route_peer_info K info)) items)
            in Inr \<lparr>ru_payload = enc_sync_request K req @ (if items = [] then [] else push_len_delimited 4 fields),
                    ru_peer_info_versions = map (\<lambda>(pid, info). (pid, max (pi_version info) 1)) items,
                    ru_topology_version = map_option (\<lambda>_. rg_topology_version g2) conn\<rparr>), g2))"

definition build_sync_route_info_request ::
    "codec \<Rightarrow> group_seed \<Rightarrow> ustring \<Rightarrow> peer_id \<Rightarrow> u64 \<Rightarrow> bool \<Rightarrow> bool \<Rightarrow> nat \<Rightarrow> route_state \<Rightarrow> route_update res \<times> route_state" where
  "build_sync_route_info_request K seed key target server_session_id initiator force_full now rs =
     with_group seed key
       (build_sync_group K (rs_my_peer_id rs) target server_session_id initiator force_full now) rs"

text \<open>A reported static key is bound on first sight and never refused.\<close>

definition validate_or_bind_reported_key :: "bytes \<Rightarrow> bytes \<Rightarrow> bytes" where
  "validate_or_bind_reported_key bound reported =
     (if length reported \<noteq> 32 then bound else if bound = [] then reported else bound)"

definition store_info :: "peer_id \<Rightarrow> nat \<Rightarrow> route_peer_info \<Rightarrow> bool \<times> bool \<times> route_group \<Rightarrow> bool \<times> bool \<times> route_group" where
  "store_info from_pid now info acc =
     (let (route_changed, need_bump, g) = acc
      in if pi_peer_id info \<noteq> from_pid then acc
         else
           let bound = (case jget (rg_authenticated_peer_keys g) from_pid of Some k \<Rightarrow> k | None \<Rightarrow> []);
               g1 = g\<lparr>rg_authenticated_peer_keys := jset from_pid
                      (validate_or_bind_reported_key bound (noise_static_pubkey info)) (rg_authenticated_peer_keys g)\<rparr>;
               current = jget (rg_peer_infos g1) (pi_peer_id info);
               instance_changed = (case current of None \<Rightarrow> False | Some c \<Rightarrow> inst_id c \<noteq> inst_id info);
               should_update = (instance_changed \<or> (case current of None \<Rightarrow> True | Some c \<Rightarrow> pi_version info > pi_version c))
           in if \<not> should_update then (route_changed, need_bump, g1)
              else
                let g2 = (if instance_changed
                          then g1\<lparr>rg_sessions := jmap_values (\<lambda>s. s\<lparr>ss_peer_info_ver_map :=
                                 jdel (pi_peer_id info) (ss_peer_info_ver_map s)\<rparr>) (rg_sessions g1)\<rparr>
                          else g1);
                    stamped = info\<lparr>last_update := Some (int (now div 1000))\<rparr>
                in (True, need_bump \<or> current = None,
                    g2\<lparr>rg_peer_infos := jset (pi_peer_id info) stamped (rg_peer_infos g2)\<rparr>))"

definition handle_sync_group ::
    "codec \<Rightarrow> peer_id \<Rightarrow> peer_id \<Rightarrow> sync_route_info_request \<Rightarrow> nat \<Rightarrow> route_group \<Rightarrow> route_sync_outcome \<times> route_group" where
  "handle_sync_group K me from_pid req now g =
     (let session_changed = (ss_dst_session_id (session_of g from_pid) \<noteq> Some (sr_my_session_id req));
          g1 = with_session from_pid (\<lambda>s.
             (let s1 = s\<lparr>ss_last_touch_ms := now\<rparr>;
                  s2 = (if session_changed then reset_session s1 else s1)
              in s2\<lparr>ss_dst_session_id := Some (sr_my_session_id req), ss_we_are_initiator := \<not> sr_is_initiator req\<rparr>)) g;
          infos = (case sr_peer_infos req of None \<Rightarrow> [] | Some items \<Rightarrow> items);
          (route_changed, need_bump, g2) = fold (store_info from_pid now) infos (False, False, g1);
          (rows_changed, g3) = store_conn_rows me from_pid (sr_conn_info req) g2;
          g4 = (if need_bump \<or> rows_changed then note_topology_change g3 else g3);
          server_session_id = (case jget (rg_sessions g4) from_pid of
             None \<Rightarrow> 1 | Some s \<Rightarrow> (case ss_my_session_id s of None \<Rightarrow> 1 | Some i \<Rightarrow> i))
      in (\<lparr>so_response = enc_sync_response K
             \<lparr>sp_is_initiator = \<not> sr_is_initiator req, sp_session_id = server_session_id, sp_error = None\<rparr>,
           so_route_changed = route_changed \<or> rows_changed, so_session_changed = session_changed\<rparr>, g4))"

definition handle_sync_route_info_request ::
    "codec \<Rightarrow> group_seed \<Rightarrow> ustring \<Rightarrow> peer_id \<Rightarrow> bytes \<Rightarrow> nat \<Rightarrow> route_state \<Rightarrow> route_sync_outcome res \<times> route_state" where
  "handle_sync_route_info_request K seed key from_pid request_bytes now rs =
     (case dec_sync_request K request_bytes of
        None \<Rightarrow> (raise ''decode SyncRouteInfoRequest failed'', rs)
      | Some req \<Rightarrow>
          if sr_my_peer_id req \<noteq> from_pid
          then (raise ''SyncRouteInfoRequest peer id does not match the authenticated connection'', rs)
          else with_group seed key (\<lambda>g.
            let (out, g') = handle_sync_group K (rs_my_peer_id rs) from_pid req now g in (Inr out, g')) rs)"

section \<open>Library lemmas\<close>

lemma bset_of_conv: "bset_of xs = sorted_list_of_set (set xs)"
  by (simp add: bset_of_def sorted_list_of_set_sort_remdups)

lemma bset_wf_insert [simp]: "bset_wf xs \<Longrightarrow> bset_wf (bset_insert x xs)"
  by (simp add: bset_wf_def bset_insert_def sorted_insort_insert distinct_insort_insert)

lemma set_bset_insert [simp]: "set (bset_insert x xs) = insert x (set xs)"
  by (simp add: bset_insert_def set_insort_insert)

lemma bset_wf_remove1 [simp]: "bset_wf xs \<Longrightarrow> bset_wf (remove1 x xs)"
  by (simp add: bset_wf_def sorted_remove1)

lemma bset_wf_set_remove1 [simp]: "bset_wf xs \<Longrightarrow> set (remove1 x xs) = set xs - {x}"
  by (simp add: bset_wf_def)

section \<open>The group invariant\<close>

text \<open>
  \<open>live_peers\<close>: the relay, its direct peers and the peers it has an info of. A snapshot of the rows \<open>g0\<close> over the
  nodes \<open>ps\<close> is up to date for \<open>g\<close> when it has every live peer with its current row; it may list departed
  nodes too. \<open>coherent\<close>: a cached snapshot of the current topology version is up to date. \<open>my_row_exact\<close>: the
  relay's own row lists the direct peers.
\<close>

definition live_peers :: "peer_id \<Rightarrow> route_group \<Rightarrow> peer_id set" where
  "live_peers me g = insert me (set (rg_peers g) \<union> {q. jhas (rg_peer_infos g) q})"

definition up_to_date :: "peer_id \<Rightarrow> route_group \<Rightarrow> route_group \<Rightarrow> peer_id list \<Rightarrow> bool" where
  "up_to_date me g g0 ps \<longleftrightarrow> distinct ps \<and> live_peers me g \<subseteq> set ps
     \<and> (\<forall>q\<in>live_peers me g. conn_row_for g0 q = conn_row_for g q)"

definition coherent :: "peer_id \<Rightarrow> route_group \<Rightarrow> bool" where
  "coherent me g \<longleftrightarrow>
     (\<forall>l. rg_cached_conn_peer_list g = Some (rg_topology_version g, l) \<longrightarrow>
        (\<exists>g0 ps. up_to_date me g g0 ps \<and> l = conn_peer_list g0 ps))
   \<and> (\<forall>b. rg_cached_conn_bitmap g = Some (rg_topology_version g, b) \<longrightarrow>
        (\<exists>g0 ps. up_to_date me g g0 ps \<and> b = conn_bitmap g0 ps))"

definition my_row_exact :: "peer_id \<Rightarrow> route_group \<Rightarrow> bool" where
  "my_row_exact me g \<longleftrightarrow> snd (conn_row_for g me) = rg_peers g"

definition route_inv :: "peer_id \<Rightarrow> route_group \<Rightarrow> bool" where
  "route_inv me g \<longleftrightarrow> bset_wf (rg_peers g) \<and> me \<notin> set (rg_peers g) \<and> \<not> jhas (rg_peer_infos g) me
     \<and> my_row_exact me g \<and> coherent me g"

definition same_live :: "peer_id \<Rightarrow> route_group \<Rightarrow> route_group \<Rightarrow> bool" where
  "same_live me g g' \<longleftrightarrow> rg_peers g' = rg_peers g \<and> jhas (rg_peer_infos g') = jhas (rg_peer_infos g)
     \<and> (\<forall>q\<in>live_peers me g. conn_row_for g' q = conn_row_for g q)"

definition same_caches :: "route_group \<Rightarrow> route_group \<Rightarrow> bool" where
  "same_caches g g' \<longleftrightarrow> rg_topology_version g' = rg_topology_version g
     \<and> rg_cached_conn_peer_list g' = rg_cached_conn_peer_list g \<and> rg_cached_conn_bitmap g' = rg_cached_conn_bitmap g"

lemma up_to_date_same: "same_live me g g' \<Longrightarrow> up_to_date me g' g0 ps = up_to_date me g g0 ps"
  by (simp add: same_live_def up_to_date_def live_peers_def)

lemma route_inv_same:
  assumes "same_live me g g'" and "same_caches g g'" and "route_inv me g"
  shows "route_inv me g'"
proof -
  have "me \<in> live_peers me g" by (simp add: live_peers_def)
  with assms(1) have "conn_row_for g' me = conn_row_for g me" by (simp add: same_live_def)
  then show ?thesis
    using assms up_to_date_same [OF assms(1)]
    by (simp add: route_inv_def coherent_def my_row_exact_def same_live_def same_caches_def)
qed

lemma coherent_note [simp]: "coherent me (note_topology_change g)"
  by (simp add: coherent_def note_topology_change_def)

lemma note_topology_fields [simp]:
  "rg_peers (note_topology_change g) = rg_peers g" "rg_peer_infos (note_topology_change g) = rg_peer_infos g"
  "rg_conn_rows (note_topology_change g) = rg_conn_rows g" "rg_sessions (note_topology_change g) = rg_sessions g"
  "conn_row_for (note_topology_change g) = conn_row_for g"
  by (simp_all add: note_topology_change_def conn_row_for_def fun_eq_iff)

lemma update_my_row_fields [simp]:
  "rg_peers (update_my_conn_row me g) = rg_peers g" "rg_peer_infos (update_my_conn_row me g) = rg_peer_infos g"
  "rg_sessions (update_my_conn_row me g) = rg_sessions g"
  "jhas (rg_conn_rows (update_my_conn_row me g)) pid \<longleftrightarrow> pid = me \<or> jhas (rg_conn_rows g) pid"
  "snd (conn_row_for (update_my_conn_row me g) me) = rg_peers g"
  by (simp_all add: update_my_conn_row_def Let_def conn_row_for_def)

lemma with_session_same: "same_live me g (with_session pid f g)" "same_caches g (with_session pid f g)"
  by (simp_all add: with_session_def same_live_def same_caches_def conn_row_for_def)

lemma with_session_fields [simp]:
  "rg_peers (with_session pid f g) = rg_peers g" "rg_peer_infos (with_session pid f g) = rg_peer_infos g"
  "rg_conn_rows (with_session pid f g) = rg_conn_rows g"
  by (simp_all add: with_session_def)

lemma route_inv_add:
  assumes "route_inv me g" and "pid \<noteq> me"
  shows "route_inv me (add_peer_group me pid key now g)"
proof (cases "pid \<in> set (rg_peers g)")
  case True
  then have "same_live me g (add_peer_group me pid key now g)" "same_caches g (add_peer_group me pid key now g)"
    by (simp_all add: add_peer_group_def with_session_def same_live_def same_caches_def conn_row_for_def)
  then show ?thesis using assms(1) by (rule route_inv_same)
next
  case False
  with assms show ?thesis
    by (auto simp: add_peer_group_def Let_def route_inv_def my_row_exact_def)
qed

lemma route_inv_remove:
  assumes "route_inv me g" and "pid \<noteq> me"
  shows "route_inv me (remove_peer_group me pid g)"
proof (cases "pid \<in> set (rg_peers g) \<or> jhas (rg_peer_infos g) pid")
  case True
  with assms show ?thesis
    by (auto simp: remove_peer_group_def Let_def route_inv_def my_row_exact_def)
next
  case False
  with assms(2) have "same_live me g (remove_peer_group me pid g)" "same_caches g (remove_peer_group me pid g)"
    by (auto simp: remove_peer_group_def same_live_def same_caches_def jdel_absent remove1_idem live_peers_def conn_row_for_def)
  then show ?thesis using assms(1) by (rule route_inv_same)
qed


lemma purge_one_fields [simp]:
  "rg_peers (purge_one pid g) = rg_peers g" "rg_peer_infos (purge_one pid g) = jdel pid (rg_peer_infos g)"
  "rg_conn_rows (purge_one pid g) = jdel pid (rg_conn_rows g)"
  by (simp_all add: purge_one_def)

lemma purge_fold_fields:
  "rg_peers (fold purge_one ps g) = rg_peers g"
  "jget (rg_peer_infos (fold purge_one ps g)) q = (if q \<in> set ps then None else jget (rg_peer_infos g) q)"
  "jget (rg_conn_rows (fold purge_one ps g)) q = (if q \<in> set ps then None else jget (rg_conn_rows g) q)"
  by (induction ps arbitrary: g) auto

lemma route_inv_remove_fold:
  "route_inv me g \<Longrightarrow> me \<notin> set ps \<Longrightarrow> route_inv me (fold (remove_peer_group me) ps g)"
  by (induction ps arbitrary: g) (auto simp: route_inv_remove)

lemma route_inv_sweep:
  assumes "route_inv me g"
  shows "route_inv me (snd (snd (sweep_group me now g)))"
proof -
  let ?dead = "filter (\<lambda>pid. \<not> session_alive now g pid) (rg_peers g)"
  define g1 where "g1 = fold (remove_peer_group me) ?dead g"
  let ?purge = "map fst (filter (purge_entry now g1) (rg_peer_infos g1))"
  have inv1: "route_inv me g1"
    using assms unfolding g1_def by (intro route_inv_remove_fold) (auto simp: route_inv_def)
  have sub: "set ?purge \<subseteq> {q. jhas (rg_peer_infos g1) q}"
    by (auto simp: jkeys_iff [symmetric] jkeys_def)
  with inv1 have me: "me \<notin> set ?purge" by (auto simp: route_inv_def)
  have "route_inv me (note_topology_change (fold purge_one ?purge g1))"
    using inv1 me
    by (auto simp: route_inv_def my_row_exact_def purge_fold_fields jhas_def conn_row_for_def)
  with inv1 show ?thesis by (simp add: sweep_group_def Let_def g1_def)
qed

lemma store_info_topology:
  assumes "store_info from_pid now info (rc, nb, g) = (rc', nb', g')"
  shows "rg_peers g' = rg_peers g \<and> rg_conn_rows g' = rg_conn_rows g \<and> same_caches g g'
     \<and> (\<forall>q. jhas (rg_peer_infos g') q \<longleftrightarrow> jhas (rg_peer_infos g) q \<or> q = from_pid \<and> jhas (rg_peer_infos g') q)
     \<and> (\<not> nb' \<longrightarrow> jhas (rg_peer_infos g') = jhas (rg_peer_infos g)) \<and> (nb \<longrightarrow> nb')
     \<and> (\<forall>q. q \<noteq> from_pid \<longrightarrow> jget (rg_peer_infos g') q = jget (rg_peer_infos g) q
          \<and> jget (rg_authenticated_peer_keys g') q = jget (rg_authenticated_peer_keys g) q)"
  using assms
  by (auto simp: store_info_def Let_def same_caches_def jhas_def fun_eq_iff split: if_splits option.splits)

lemma store_infos_topology:
  assumes "fold (store_info from_pid now) infos (rc, nb, g) = (rc', nb', g')"
  shows "rg_peers g' = rg_peers g \<and> rg_conn_rows g' = rg_conn_rows g \<and> same_caches g g'
     \<and> (\<forall>q. jhas (rg_peer_infos g) q \<longrightarrow> jhas (rg_peer_infos g') q)
     \<and> (\<not> nb' \<longrightarrow> jhas (rg_peer_infos g') = jhas (rg_peer_infos g)) \<and> (nb \<longrightarrow> nb')
     \<and> (\<forall>q. q \<noteq> from_pid \<longrightarrow> jget (rg_peer_infos g') q = jget (rg_peer_infos g) q
          \<and> jget (rg_authenticated_peer_keys g') q = jget (rg_authenticated_peer_keys g) q)"
  using assms
proof (induction infos arbitrary: rc nb g)
  case Nil
  then show ?case by (simp add: same_caches_def)
next
  case (Cons info infos)
  obtain rc1 nb1 g1 where s: "store_info from_pid now info (rc, nb, g) = (rc1, nb1, g1)"
    by (metis prod_cases3)
  from store_info_topology [OF s] Cons.IH [of rc1 nb1 g1] Cons.prems s show ?case
    by (auto simp: same_caches_def)
qed

lemma accept_row_effect:
  assumes "accept_row me from_pid row (c, g) = (c', g')"
  shows "rg_peers g' = rg_peers g \<and> rg_peer_infos g' = rg_peer_infos g \<and> same_caches g g'
     \<and> rg_sessions g' = rg_sessions g \<and> rg_authenticated_peer_keys g' = rg_authenticated_peer_keys g
     \<and> (\<forall>q. q \<noteq> from_pid \<or> q = me \<longrightarrow> jget (rg_conn_rows g') q = jget (rg_conn_rows g) q)
     \<and> (\<not> c' \<longrightarrow> jget (rg_conn_rows g') = jget (rg_conn_rows g)) \<and> (c \<longrightarrow> c')
     \<and> fst (conn_row_for g from_pid) \<le> fst (conn_row_for g' from_pid)"
proof -
  obtain pid version connected where row: "row = (pid, version, connected)" by (metis prod_cases3)
  have "version \<noteq> 0 \<Longrightarrow> (0 :: u32) < version" by (simp add: word_neq_0_conv)
  then show ?thesis
    using assms unfolding row
    by (auto simp: accept_row_def Let_def same_caches_def fun_eq_iff conn_row_for_def default_row_def
        split: if_splits option.splits)
qed


lemma accept_rows_effect:
  assumes "fold (accept_row me from_pid) rows (c, g) = (c', g')"
  shows "rg_peers g' = rg_peers g \<and> rg_peer_infos g' = rg_peer_infos g \<and> same_caches g g'
     \<and> rg_sessions g' = rg_sessions g \<and> rg_authenticated_peer_keys g' = rg_authenticated_peer_keys g
     \<and> (\<forall>q. q \<noteq> from_pid \<or> q = me \<longrightarrow> jget (rg_conn_rows g') q = jget (rg_conn_rows g) q)
     \<and> (\<not> c' \<longrightarrow> jget (rg_conn_rows g') = jget (rg_conn_rows g)) \<and> (c \<longrightarrow> c')
     \<and> fst (conn_row_for g from_pid) \<le> fst (conn_row_for g' from_pid)"
  using assms
proof (induction rows arbitrary: c g)
  case Nil
  then show ?case by (simp add: same_caches_def)
next
  case (Cons row rows)
  obtain c1 g1 where s: "accept_row me from_pid row (c, g) = (c1, g1)" by (metis surj_pair)
  note e = accept_row_effect [OF s]
  have IH: "fold (accept_row me from_pid) rows (c1, g1) = (c', g')" using Cons.prems s by simp
  note i = Cons.IH [OF IH]
  have "fst (conn_row_for g from_pid) \<le> fst (conn_row_for g' from_pid)" using e i by (meson order_trans)
  with e i show ?case by (auto simp: same_caches_def)
qed

lemma store_conn_rows_effect:
  assumes "store_conn_rows me from_pid conn g = (c', g')"
  shows "rg_peers g' = rg_peers g \<and> rg_peer_infos g' = rg_peer_infos g \<and> same_caches g g'
     \<and> rg_sessions g' = rg_sessions g \<and> rg_authenticated_peer_keys g' = rg_authenticated_peer_keys g
     \<and> (\<forall>q. q \<noteq> from_pid \<or> q = me \<longrightarrow> jget (rg_conn_rows g') q = jget (rg_conn_rows g) q)
     \<and> (\<not> c' \<longrightarrow> jget (rg_conn_rows g') = jget (rg_conn_rows g))
     \<and> fst (conn_row_for g from_pid) \<le> fst (conn_row_for g' from_pid)"
  using assms
proof (cases conn)
  case None
  with assms show ?thesis by (simp add: store_conn_rows_def same_caches_def)
next
  case (Some ci)
  with assms have "fold (accept_row me from_pid) (reported_rows ci) (False, g) = (c', g')"
    by (simp add: store_conn_rows_def)
  from accept_rows_effect [OF this] show ?thesis by blast
qed

text \<open>What one synchronisation request does to the group, step by step.\<close>

lemma handle_sync_group_effect:
  assumes "handle_sync_group K me from_pid req now g = (out, g')"
  shows "rg_peers g' = rg_peers g
     \<and> (\<forall>q. jhas (rg_peer_infos g) q \<longrightarrow> jhas (rg_peer_infos g') q)
     \<and> (\<forall>q. q \<noteq> from_pid \<longrightarrow> jget (rg_peer_infos g') q = jget (rg_peer_infos g) q
          \<and> jget (rg_authenticated_peer_keys g') q = jget (rg_authenticated_peer_keys g) q)
     \<and> (\<forall>q. q \<noteq> from_pid \<or> q = me \<longrightarrow> jget (rg_conn_rows g') q = jget (rg_conn_rows g) q)
     \<and> fst (conn_row_for g from_pid) \<le> fst (conn_row_for g' from_pid)
     \<and> (coherent me g' \<or> same_live me g g' \<and> same_caches g g')"
proof -
  define s1 where "s1 = with_session from_pid (\<lambda>s.
      let s1 = s\<lparr>ss_last_touch_ms := now\<rparr>;
          s2 = (if ss_dst_session_id (session_of g from_pid) \<noteq> Some (sr_my_session_id req) then reset_session s1 else s1)
      in s2\<lparr>ss_dst_session_id := Some (sr_my_session_id req), ss_we_are_initiator := \<not> sr_is_initiator req\<rparr>) g"
  obtain rc nb g2 where st: "fold (store_info from_pid now)
      (case sr_peer_infos req of None \<Rightarrow> [] | Some items \<Rightarrow> items) (False, False, s1) = (rc, nb, g2)"
    by (metis prod_cases3)
  obtain rows g3 where sr: "store_conn_rows me from_pid (sr_conn_info req) g2 = (rows, g3)" by (metis surj_pair)
  have g': "g' = (if nb \<or> rows then note_topology_change g3 else g3)"
    using assms st sr by (simp add: handle_sync_group_def Let_def s1_def)
  have s1: "rg_peers s1 = rg_peers g" "rg_peer_infos s1 = rg_peer_infos g" "rg_conn_rows s1 = rg_conn_rows g"
    "rg_authenticated_peer_keys s1 = rg_authenticated_peer_keys g" "same_caches g s1"
    by (simp_all add: s1_def with_session_def same_caches_def)
  note a = store_infos_topology [OF st, unfolded s1] and b = store_conn_rows_effect [OF sr]
  have row: "conn_row_for g2 = conn_row_for g" using a by (simp add: conn_row_for_def fun_eq_iff)
  have keys: "rg_authenticated_peer_keys g' = rg_authenticated_peer_keys g3"
    by (simp add: g' note_topology_change_def)
  have "coherent me g' \<or> same_live me g g' \<and> same_caches g g'"
  proof (cases "nb \<or> rows")
    case True
    then show ?thesis by (simp add: g')
  next
    case False
    then show ?thesis using a b s1(5) by (simp add: g' same_live_def same_caches_def conn_row_for_def)
  qed
  then show ?thesis using a b row keys by (auto simp: g')
qed

lemma route_inv_sync:
  assumes "route_inv me g" and "from_pid \<noteq> me"
  shows "route_inv me (snd (handle_sync_group K me from_pid req now g))"
proof -
  obtain out g' where r: "handle_sync_group K me from_pid req now g = (out, g')" by (metis surj_pair)
  note e = handle_sync_group_effect [OF r]
  have "coherent me g' \<or> route_inv me g'" using e assms(1) route_inv_same by blast
  then have coh: "coherent me g'" by (auto simp: route_inv_def)
  have rowme: "conn_row_for g' me = conn_row_for g me" using e by (simp add: conn_row_for_def)
  have infos: "\<not> jhas (rg_peer_infos g') me" using e assms by (auto simp: route_inv_def jhas_def)
  show ?thesis using assms e coh rowme infos by (simp add: r route_inv_def my_row_exact_def)
qed

lemma set_relevant_peers:
  "set (relevant_peers me target g) = set (rg_peers g) \<union> {q. jhas (rg_peer_infos g) q} \<union> {q. jhas (rg_conn_rows g) q} \<union> {me, target}"
  by (auto simp: relevant_peers_def bset_of_def set_jkeys)

lemma relevant_up_to_date: "up_to_date me g g (relevant_peers me target g)"
  using set_relevant_peers [of me target g]
  by (auto simp: up_to_date_def live_peers_def) (simp add: relevant_peers_def bset_of_def)

definition current_topology :: "bool \<Rightarrow> route_group \<Rightarrow> peer_id list \<Rightarrow> conn_info" where
  "current_topology supports g ps =
     (if supports then ConnPeerList (conn_peer_list g ps) else ConnBitmap (conn_bitmap g ps))"

lemma build_conn_info_list:
  assumes "build_conn_info ps target True now g = (r, g')"
  shows "g' = g \<and> (\<forall>ci. r \<noteq> Inr (Some ci))
     \<or> g' = g \<and> (\<exists>l. rg_cached_conn_peer_list g = Some (rg_topology_version g, l) \<and> r = Inr (Some (ConnPeerList l)))
     \<or> g' = g\<lparr>rg_cached_conn_peer_list := Some (rg_topology_version g, conn_peer_list g ps)\<rparr>
       \<and> r = Inr (Some (ConnPeerList (conn_peer_list g ps)))"
  using assms unfolding build_conn_info_def Let_def
  by (simp split: if_split_asm option.split_asm prod.split_asm) auto

lemma build_conn_info_bitmap:
  assumes "build_conn_info ps target False now g = (r, g')"
  shows "g' = g \<and> (\<forall>ci. r \<noteq> Inr (Some ci))
     \<or> g' = g \<and> (\<exists>b. rg_cached_conn_bitmap g = Some (rg_topology_version g, b) \<and> r = Inr (Some (ConnBitmap b)))
     \<or> g' = g\<lparr>rg_cached_conn_bitmap := Some (rg_topology_version g, conn_bitmap g ps)\<rparr>
       \<and> r = Inr (Some (ConnBitmap (conn_bitmap g ps)))"
  using assms unfolding build_conn_info_def Let_def
  by (simp split: if_split_asm option.split_asm prod.split_asm) auto

lemma cache_update_same [simp]:
  "same_live me g (g\<lparr>rg_cached_conn_peer_list := x\<rparr>)" "same_live me g (g\<lparr>rg_cached_conn_bitmap := y\<rparr>)" "same_live me g g"
  by (simp_all add: same_live_def conn_row_for_def)

lemma up_to_date_caches [simp]:
  "up_to_date me (g\<lparr>rg_cached_conn_peer_list := x\<rparr>) = up_to_date me g"
  "up_to_date me (g\<lparr>rg_cached_conn_bitmap := y\<rparr>) = up_to_date me g"
  by (simp_all add: up_to_date_same fun_eq_iff)

lemma build_conn_info_effect:
  assumes "coherent me g" and "build_conn_info (relevant_peers me target g) target supports now g = (r, g')"
  shows "same_live me g g' \<and> coherent me g' \<and>
    (\<forall>ci. r = Inr (Some ci) \<longrightarrow> (\<exists>g0 ps. up_to_date me g g0 ps \<and> ci = current_topology supports g0 ps))"
proof (cases supports)
  case True
  with assms(2) have b: "build_conn_info (relevant_peers me target g) target True now g = (r, g')" by simp
  from build_conn_info_list [OF b] show ?thesis
    using assms(1) relevant_up_to_date [of me g target] True
    by (auto simp: coherent_def current_topology_def; blast)
next
  case False
  with assms(2) have b: "build_conn_info (relevant_peers me target g) target False now g = (r, g')" by simp
  from build_conn_info_bitmap [OF b] show ?thesis
    using assms(1) relevant_up_to_date [of me g target] False
    by (auto simp: coherent_def current_topology_def; blast)
qed

lemma route_inv_build:
  assumes "route_inv me g"
  shows "route_inv me (snd (build_sync_group K me target sid initiator full now g))"
proof -
  let ?g1 = "with_session target (\<lambda>s. s\<lparr>ss_my_session_id := Some sid\<rparr>) g"
  have inv1: "route_inv me ?g1" by (rule route_inv_same [OF with_session_same assms])
  then have coh: "coherent me ?g1" by (simp add: route_inv_def)
  obtain supports where sup: "supports = (case jget (rg_peer_infos ?g1) target of None \<Rightarrow> False
      | Some info \<Rightarrow> (case feature_flag info of None \<Rightarrow> False | Some f \<Rightarrow> support_conn_list_sync f))" by blast
  obtain r g2 where b: "build_conn_info (relevant_peers me target ?g1) target supports now ?g1 = (r, g2)"
    by (metis surj_pair)
  have snd: "snd (build_sync_group K me target sid initiator full now g) = g2"
    using b by (simp add: build_sync_group_def Let_def sup case_prod_beta)
  have e: "same_live me ?g1 g2" "coherent me g2" using build_conn_info_effect [OF coh b] by blast+
  then have "conn_row_for g2 me = conn_row_for ?g1 me" by (simp add: same_live_def live_peers_def)
  with inv1 e show ?thesis unfolding snd by (simp add: route_inv_def my_row_exact_def same_live_def)
qed

section \<open>Reachable groups\<close>

definition group_init :: "peer_id \<Rightarrow> route_group \<Rightarrow> bool" where
  "group_init me g \<longleftrightarrow> (\<exists>seed persisted. g = new_group me seed persisted)"

text \<open>
  The operations on a group, as the RPC core issues them. Nothing is asked of a peer but that it is not
  the relay itself, which the listener refuses as a sender: updates are built for peers the sweep has just
  removed, too.
\<close>

inductive route_step :: "codec \<Rightarrow> peer_id \<Rightarrow> route_group \<Rightarrow> route_group \<Rightarrow> bool" for K me where
  join: "pid \<noteq> me \<Longrightarrow> route_step K me g (add_peer_group me pid key now g)"
| leave: "pid \<noteq> me \<Longrightarrow> route_step K me g (remove_peer_group me pid g)"
| sweep: "route_step K me g (snd (snd (sweep_group me now g)))"
| session: "route_step K me g (with_session pid f g)"
| info: "route_step K me g (bump_my_info (g\<lparr>rg_my_info := info\<rparr>))"
| sync: "pid \<noteq> me \<Longrightarrow> route_step K me g (snd (handle_sync_group K me pid req now g))"
| update: "route_step K me g (snd (build_sync_group K me pid sid initiator full now g))"

lemma route_inv_new: "route_inv me (new_group me seed persisted)"
  by (simp add: route_inv_def new_group_def bset_wf_def my_row_exact_def conn_row_for_def coherent_def)

lemma route_inv_step: "route_step K me g g' \<Longrightarrow> route_inv me g \<Longrightarrow> route_inv me g'"
proof (induction rule: route_step.induct)
  case (info g info)
  then show ?case
    by (rule route_inv_same [rotated 2]) (simp_all add: bump_my_info_def same_live_def same_caches_def conn_row_for_def)
next
  case (session g pid f)
  then show ?case by (rule route_inv_same [OF with_session_same])
qed (simp_all add: route_inv_add route_inv_remove route_inv_sweep route_inv_sync route_inv_build)

interpretation route: transition_system "group_init me" "route_step K me" "route_inv me" for K me
  by unfold_locales (auto simp: group_init_def route_inv_new route_inv_step)

section \<open>Properties\<close>

text \<open>
  C15. Topology snapshots are up to date for the live peers: in every reachable group, the connection
  info built for any peer, taken from the cache or not, is the list (or, for peers without list
  support, the bitmap) over a set of nodes that has the relay, every direct peer and every peer with an
  info, each of them with the row the relay currently holds, and the relay's own row is its set of
  direct peers. Nodes that have departed may still be listed.
\<close>

theorem topology_snapshot_current:
  assumes "reach (group_init me) (route_step K me) g"
    and "fst (build_conn_info (relevant_peers me target g) target supports now g) = Inr (Some ci)"
  shows "(\<exists>g0 ps. ci = current_topology supports g0 ps \<and> distinct ps \<and> live_peers me g \<subseteq> set ps
            \<and> (\<forall>q\<in>live_peers me g. conn_row_for g0 q = conn_row_for g q))
     \<and> snd (conn_row_for g me) = rg_peers g"
proof -
  have inv: "route_inv me g" by (rule route.reach_inv [OF assms(1)])
  then have "coherent me g" by (simp add: route_inv_def)
  obtain g' where "build_conn_info (relevant_peers me target g) target supports now g = (Inr (Some ci), g')"
    using assms(2) by (metis prod.collapse)
  from build_conn_info_effect [OF \<open>coherent me g\<close> this] inv show ?thesis
    by (auto simp: route_inv_def my_row_exact_def up_to_date_def)
qed

definition sample_seed :: group_seed where
  "sample_seed = \<lparr>seed_inst_id = \<lparr>part1 = 1, part2 = 2, part3 = 3, part4 = 4\<rparr>, seed_route_id = 99\<rparr>"

theorem topology_snapshot_current_witness:
  "snd (conn_row_for (add_peer_group 7 5 [] 0 (new_group 7 sample_seed None)) 7) = [5]"
proof -
  let ?g = "add_peer_group 7 5 [] 0 (new_group 7 sample_seed None)"
  have "reach (group_init 7) (route_step toy_codec 7) (new_group 7 sample_seed None)"
    by (rule reach_init) (auto simp: group_init_def)
  then have g: "reach (group_init 7) (route_step toy_codec 7) ?g"
    by (rule reach_step) (rule route_step.join, simp)
  have peers: "rg_peers ?g = [5]"
    by (simp add: add_peer_group_def new_group_def Let_def note_topology_change_def update_my_conn_row_def
        with_session_def bset_insert_def insort_insert_key_def)
  have "\<exists>ci. fst (build_conn_info (relevant_peers 7 5 ?g) 5 True 0 ?g) = Inr (Some ci)"
    by (simp add: build_conn_info_def topology_current_def relevant_peers_def bset_of_conv
        add_peer_group_def new_group_def Let_def note_topology_change_def update_my_conn_row_def
        with_session_def session_of_def default_session_def)
  then obtain ci where "fst (build_conn_info (relevant_peers 7 5 ?g) 5 True 0 ?g) = Inr (Some ci)" by blast
  from topology_snapshot_current [OF g this] show ?thesis by (simp add: peers)
qed

lemma jget_with_group:
  "jget (rs_groups (snd (with_group seed key f rs))) k =
     (if k = key then Some (snd (f (fst (ensure_group seed key rs)))) else jget (rs_groups rs) k)"
  by (simp add: with_group_def ensure_group_def put_group_def Let_def case_prod_beta split: option.splits)

text \<open>
  C17. A peer can only speak for itself: a synchronisation request of a peer leaves every other
  network, the set of direct peers, the relay's row, and the info, key and connection row of every
  other peer as they were, and the version of the sender's own row never decreases.
\<close>

theorem sync_speaks_only_for_sender:
  assumes "handle_sync_route_info_request K seed key pid bs now rs = (Inr out, rs')"
  shows "(\<forall>k. k \<noteq> key \<longrightarrow> jget (rs_groups rs') k = jget (rs_groups rs) k) \<and>
    (\<exists>g g'. g = fst (ensure_group seed key rs) \<and> jget (rs_groups rs') key = Some g' \<and>
       rg_peers g' = rg_peers g \<and>
       (\<forall>q. q \<noteq> pid \<longrightarrow> jget (rg_peer_infos g') q = jget (rg_peer_infos g) q
          \<and> jget (rg_authenticated_peer_keys g') q = jget (rg_authenticated_peer_keys g) q) \<and>
       (\<forall>q. q \<noteq> pid \<or> q = rs_my_peer_id rs \<longrightarrow> jget (rg_conn_rows g') q = jget (rg_conn_rows g) q) \<and>
       fst (conn_row_for g pid) \<le> fst (conn_row_for g' pid))"
proof -
  let ?g = "fst (ensure_group seed key rs)"
  from assms obtain req where rs': "rs' = snd (with_group seed key (\<lambda>g. let (o1, g') = handle_sync_group K (rs_my_peer_id rs) pid req now g in (Inr o1 :: route_sync_outcome res, g')) rs)"
    by (auto simp: handle_sync_route_info_request_def split: option.splits if_splits) (metis snd_conv)
  obtain o1 g' where h: "handle_sync_group K (rs_my_peer_id rs) pid req now ?g = (o1, g')" by (metis surj_pair)
  note e = handle_sync_group_effect [OF h]
  have "jget (rs_groups rs') key = Some g'" by (simp add: rs' jget_with_group h)
  moreover have "\<forall>k. k \<noteq> key \<longrightarrow> jget (rs_groups rs') k = jget (rs_groups rs) k" by (simp add: rs' jget_with_group)
  ultimately show ?thesis using e by blast
qed


lemma with_group_out: "fst (with_group seed key f rs) = fst (f (fst (ensure_group seed key rs)))"
  by (simp add: with_group_def Let_def case_prod_beta)

lemma remove_peer_group_sessions:
  "rg_peers (remove_peer_group me pid g) = remove1 pid (rg_peers g)"
  "q \<noteq> pid \<Longrightarrow> session_alive now (remove_peer_group me pid g) q = session_alive now g q"
  by (auto simp: remove_peer_group_def Let_def session_alive_def forget_peer_def split: option.splits)

lemma remove_fold_sessions:
  "bset_wf (rg_peers g) \<Longrightarrow> rg_peers (fold (remove_peer_group me) ps g) = fold remove1 ps (rg_peers g)
     \<and> (\<forall>q. q \<notin> set ps \<longrightarrow> session_alive now (fold (remove_peer_group me) ps g) q = session_alive now g q)"
  by (induction ps arbitrary: g) (simp_all add: remove_peer_group_sessions)

lemma set_fold_remove1: "bset_wf xs \<Longrightarrow> set (fold remove1 ps xs) = set xs - set ps"
  by (induction ps arbitrary: xs) auto

lemma purge_alive [simp]: "session_alive now (fold purge_one ps g) q = session_alive now g q"
proof (induction ps arbitrary: g)
  case (Cons p ps)
  have "session_alive now (purge_one p g) q = session_alive now g q"
    by (auto simp: session_alive_def purge_one_def forget_peer_def split: option.splits)
  with Cons show ?case by simp
qed simp

lemma note_alive [simp]: "session_alive now (note_topology_change g) q = session_alive now g q"
  by (simp add: session_alive_def)

lemma sweep_group_effect:
  assumes "bset_wf (rg_peers g)" and "sweep_group me now g = (dead, changed, g')"
  shows "set dead = {pid \<in> set (rg_peers g). \<not> session_alive now g pid}
     \<and> set (rg_peers g') = {pid \<in> set (rg_peers g). session_alive now g pid}
     \<and> (\<forall>pid\<in>set (rg_peers g'). session_alive now g' pid) \<and> (dead \<noteq> [] \<longrightarrow> changed)"
proof -
  let ?dead = "filter (\<lambda>pid. \<not> session_alive now g pid) (rg_peers g)"
  let ?g1 = "fold (remove_peer_group me) ?dead g"
  let ?purge = "map fst (filter (purge_entry now ?g1) (rg_peer_infos ?g1))"
  from assms(2) have dead: "dead = ?dead" and changed: "changed \<longleftrightarrow> ?dead \<noteq> [] \<or> ?purge \<noteq> []"
    and g': "g' = (if ?purge = [] then ?g1 else note_topology_change (fold purge_one ?purge ?g1))"
    by (auto simp: sweep_group_def Let_def)
  note r = remove_fold_sessions [OF assms(1), where me = me and ps = ?dead and now = now]
  have peers: "rg_peers g' = rg_peers ?g1" and alive: "session_alive now g' q = session_alive now ?g1 q" for q
    by (simp_all add: g' purge_fold_fields)
  show ?thesis using r set_fold_remove1 [OF assms(1)] by (auto simp: dead peers alive changed)
qed

lemma sweep_group_parts:
  assumes "bset_wf (rg_peers g)"
  shows "set (fst (sweep_group me now g)) = {pid \<in> set (rg_peers g). \<not> session_alive now g pid}
     \<and> set (rg_peers (snd (snd (sweep_group me now g)))) = {pid \<in> set (rg_peers g). session_alive now g pid}
     \<and> (\<forall>pid\<in>set (rg_peers (snd (snd (sweep_group me now g)))). session_alive now (snd (snd (sweep_group me now g))) pid)
     \<and> (fst (sweep_group me now g) \<noteq> [] \<longrightarrow> fst (snd (sweep_group me now g)))"
  using sweep_group_effect [OF assms, of me now "fst (sweep_group me now g)" "fst (snd (sweep_group me now g))"
      "snd (snd (sweep_group me now g))"] by simp

text \<open>The loop over the groups: each is swept once and its outcome appended to the report.\<close>

lemma sweep_one_effect:
  assumes "sweep_one now key (out, rs) = (out', rs')" and "jget (rs_groups rs) key = Some g"
    and "sweep_group (rs_my_peer_id rs) now g = (dead, changed, g')"
  shows "rs_my_peer_id rs' = rs_my_peer_id rs
     \<and> jget (rs_groups rs') = (jget (rs_groups rs))(key \<mapsto> g')
     \<and> set (sw_dead_direct_peers out') = set (sw_dead_direct_peers out) \<union> dead_entry key ` set dead
     \<and> set (sw_route_changed_networks out') = set (sw_route_changed_networks out) \<union> (if changed then {key} else {})"
  using assms by (auto simp: sweep_one_def put_group_def fun_eq_iff)

lemma sweep_fold_effect:
  assumes "fold (sweep_one now) keys (out, rs) = (out', rs')" and "distinct keys"
    and "\<forall>key\<in>set keys. jhas (rs_groups rs) key"
  shows "rs_my_peer_id rs' = rs_my_peer_id rs
     \<and> (\<forall>k. jget (rs_groups rs') k = (if k \<in> set keys
          then map_option (\<lambda>g. snd (snd (sweep_group (rs_my_peer_id rs) now g))) (jget (rs_groups rs) k)
          else jget (rs_groups rs) k))
     \<and> set (sw_dead_direct_peers out') = set (sw_dead_direct_peers out) \<union>
         (\<Union>k\<in>set keys. dead_entry k ` set (fst (sweep_group (rs_my_peer_id rs) now (the (jget (rs_groups rs) k)))))
     \<and> set (sw_route_changed_networks out') = set (sw_route_changed_networks out) \<union>
         {k \<in> set keys. fst (snd (sweep_group (rs_my_peer_id rs) now (the (jget (rs_groups rs) k))))}"
  using assms
proof (induction keys arbitrary: out rs)
  case Nil
  then show ?case by simp
next
  case (Cons key keys)
  obtain out1 rs1 where one: "sweep_one now key (out, rs) = (out1, rs1)" by (metis surj_pair)
  from Cons.prems(3) obtain g where g: "jget (rs_groups rs) key = Some g" by (auto simp: jhas_def)
  obtain dead changed g' where sw: "sweep_group (rs_my_peer_id rs) now g = (dead, changed, g')" by (metis prod_cases3)
  note e = sweep_one_effect [OF one g sw]
  have rest: "fold (sweep_one now) keys (out1, rs1) = (out', rs')" using Cons.prems(1) one by simp
  have other: "jget (rs_groups rs1) k = jget (rs_groups rs) k" if "k \<in> set keys" for k
    using that e Cons.prems(2) by auto
  have "\<forall>k\<in>set keys. jhas (rs_groups rs1) k" using Cons.prems(3) other by (auto simp: jhas_def)
  from Cons.IH [OF rest _ this] Cons.prems(2) e g sw other show ?case by (auto split: if_splits)
qed

text \<open>
  C18. No half-open peer survives a sweep: in every network the direct peers left are exactly the ones
  heard from within 90 seconds, the report names exactly the removed ones of all networks for the host to
  close, each with its network, and every network that lost a direct peer is reported as changed.
\<close>

theorem sweep_leaves_no_half_open:
  assumes "sweep_expired_route_info now rs = (out, rs')" and "jwf (rs_groups rs)"
    and "\<forall>key g. jget (rs_groups rs) key = Some g \<longrightarrow> bset_wf (rg_peers g)"
  shows "(\<forall>key g. jget (rs_groups rs) key = Some g \<longrightarrow> (\<exists>g'. jget (rs_groups rs') key = Some g'
         \<and> set (rg_peers g') = {pid \<in> set (rg_peers g). session_alive now g pid}
         \<and> (\<forall>pid\<in>set (rg_peers g'). session_alive now g' pid)
         \<and> (set (rg_peers g') \<noteq> set (rg_peers g) \<longrightarrow> key \<in> set (sw_route_changed_networks out))))
     \<and> set (sw_dead_direct_peers out) = {dead_entry key pid | key pid g. jget (rs_groups rs) key = Some g
         \<and> pid \<in> set (rg_peers g) \<and> \<not> session_alive now g pid}"
proof -
  let ?sw = "sweep_group (rs_my_peer_id rs) now"
  have keys: "distinct (jkeys (rs_groups rs))" "\<forall>k\<in>set (jkeys (rs_groups rs)). jhas (rs_groups rs) k"
    using assms(2) by (simp_all add: jwf_def jkeys_def set_jkeys jkeys_iff [symmetric])
  note f = sweep_fold_effect [OF assms(1) [unfolded sweep_expired_route_info_def] keys]
  have one: "jget (rs_groups rs) key = Some g \<Longrightarrow> bset_wf (rg_peers g)" for key g
    using assms(3) by blast
  note one = sweep_group_parts [OF one, where me = "rs_my_peer_id rs" and now = now]
  have group: "\<exists>g'. jget (rs_groups rs') key = Some g'
         \<and> set (rg_peers g') = {pid \<in> set (rg_peers g). session_alive now g pid}
         \<and> (\<forall>pid\<in>set (rg_peers g'). session_alive now g' pid)
         \<and> (set (rg_peers g') \<noteq> set (rg_peers g) \<longrightarrow> key \<in> set (sw_route_changed_networks out))"
    if g: "jget (rs_groups rs) key = Some g" for key g
  proof -
    have key: "key \<in> set (jkeys (rs_groups rs))" using g by (simp add: jkeys_iff jhas_def)
    have "fst (?sw g) \<noteq> []" if "set (rg_peers (snd (snd (?sw g)))) \<noteq> set (rg_peers g)"
      using that one [OF g] by auto
    with one [OF g] f key g have "set (rg_peers (snd (snd (?sw g)))) \<noteq> set (rg_peers g) \<longrightarrow> key \<in> set (sw_route_changed_networks out)"
      by simp
    moreover have "jget (rs_groups rs') key = Some (snd (snd (?sw g)))" using f key g by simp
    ultimately show ?thesis using one [OF g] by blast
  qed
  have "set (sw_dead_direct_peers out) = {dead_entry key pid | key pid g. jget (rs_groups rs) key = Some g
         \<and> pid \<in> set (rg_peers g) \<and> \<not> session_alive now g pid}"
  proof -
    have "set (sw_dead_direct_peers out) = (\<Union>k\<in>set (jkeys (rs_groups rs)). dead_entry k ` set (fst (?sw (the (jget (rs_groups rs) k)))))"
      using f by simp
    also have "\<dots> = {dead_entry key pid | key pid g. jget (rs_groups rs) key = Some g \<and> pid \<in> set (fst (?sw g))}"
      by (force simp: set_jkeys jhas_def)
    also have "\<dots> = {dead_entry key pid | key pid g. jget (rs_groups rs) key = Some g
         \<and> pid \<in> set (rg_peers g) \<and> \<not> session_alive now g pid}"
      using one by blast
    finally show ?thesis .
  qed
  with group show ?thesis by blast
qed

lemmas add_peer_simps = add_peer_group_def new_group_def Let_def note_topology_change_def update_my_conn_row_def
  with_session_def session_of_def default_session_def

definition two_peers :: route_group where
  "two_peers = add_peer_group 7 6 [] 50000 (add_peer_group 7 5 [] 0 (new_group 7 sample_seed None))"

lemma two_peers_facts:
  "rg_peers two_peers = [5, 6]" "\<not> session_alive 100000 two_peers 5" "session_alive 100000 two_peers 6"
  by (simp_all add: two_peers_def add_peer_simps bset_insert_def insort_insert_key_def session_alive_def
      REMOVE_UNREACHABLE_PEER_INFO_AFTER_MS_def)

theorem sweep_leaves_no_half_open_witness:
  "\<exists>out rs' g'. sweep_expired_route_info 100000
       \<lparr>rs_groups = [([110], two_peers)], rs_my_peer_id = 7, rs_route_id_overrides = []\<rparr> = (out, rs')
     \<and> jget (rs_groups rs') [110] = Some g' \<and> set (rg_peers g') = {6}
     \<and> set (sw_dead_direct_peers out) = {dead_entry [110] 5} \<and> [110] \<in> set (sw_route_changed_networks out)"
proof -
  let ?rs = "\<lparr>rs_groups = [([110], two_peers)], rs_my_peer_id = 7, rs_route_id_overrides = []\<rparr>"
  obtain out rs' where sw: "sweep_expired_route_info 100000 ?rs = (out, rs')" by (metis surj_pair)
  have live: "{pid \<in> set (rg_peers two_peers). session_alive 100000 two_peers pid} = {6}"
    using two_peers_facts by auto
  have wf: "\<forall>key g. jget (rs_groups ?rs) key = Some g \<longrightarrow> bset_wf (rg_peers g)"
    by (simp add: two_peers_facts bset_wf_def)
  have w: "jwf (rs_groups ?rs)" by (simp add: jwf_def)
  note t = sweep_leaves_no_half_open [OF sw w wf]
  have "jget (rs_groups ?rs) [110] = Some two_peers" by simp
  with t obtain g' where g': "jget (rs_groups rs') [110] = Some g'" "set (rg_peers g') = {6}"
      "set (rg_peers g') \<noteq> set (rg_peers two_peers) \<longrightarrow> [110] \<in> set (sw_route_changed_networks out)"
    unfolding live [symmetric] by blast
  moreover have "set (sw_dead_direct_peers out) = {dead_entry [110] 5}"
    using t two_peers_facts by auto
  ultimately show ?thesis using sw two_peers_facts by auto
qed

theorem sync_speaks_only_for_sender_witness:
  "jget (rs_groups (snd (handle_sync_route_info_request
       (toy_codec\<lparr>dec_sync_request := \<lambda>_. Some \<lparr>sr_my_peer_id = 5, sr_my_session_id = 1, sr_is_initiator = True,
          sr_peer_infos = None, sr_conn_info = None\<rparr>\<rparr>) sample_seed [110] 5 [] 0
       \<lparr>rs_groups = [([111], new_group 7 sample_seed None)], rs_my_peer_id = 7, rs_route_id_overrides = []\<rparr>))) [111]
   = Some (new_group 7 sample_seed None)"
  (is "jget (rs_groups (snd (handle_sync_route_info_request ?K _ _ _ _ _ ?rs))) _ = _")
proof -
  have "\<exists>out. fst (handle_sync_route_info_request ?K sample_seed [110] 5 [] 0 ?rs) = Inr out"
    by (simp add: handle_sync_route_info_request_def with_group_out case_prod_beta)
  then obtain out rs' where h: "handle_sync_route_info_request ?K sample_seed [110] 5 [] 0 ?rs = (Inr out, rs')"
    by (metis prod.collapse)
  from sync_speaks_only_for_sender [OF h] show ?thesis by (simp add: h)
qed

lemma unat_drop_bit7: "unat (drop_bit 7 (v :: u64)) = unat v div 128"
  by (simp add: drop_bit_eq_div unat_div)

lemma varint_mask_bits: "bit (127 :: int) n \<longleftrightarrow> n < 7" "bit (128 :: int) n \<longleftrightarrow> n = 7"
  using bit_mask_iff [where 'a = int, of 7 n] bit_exp_iff [where 'a = int, of 7 n]
  by (auto simp: mask_eq_exp_minus_1)

lemma varint_byte:
  fixes v :: u64
  defines "b \<equiv> ucast (v AND 0x7f) :: byte"
  shows "b AND 0x7f = b" and "b AND 0x80 = 0" and "(b OR 0x80) AND 0x7f = b" and "(b OR 0x80) AND 0x80 \<noteq> 0"
proof -
  show "b AND 0x7f = b" "b AND 0x80 = 0" "(b OR 0x80) AND 0x7f = b"
    unfolding b_def by (auto intro!: bit_word_eqI simp: bit_simps varint_mask_bits)
  have "bit ((b OR 0x80) AND 0x80) 7" by (simp add: bit_simps varint_mask_bits)
  then show "(b OR 0x80) AND 0x80 \<noteq> 0" by (metis bit_0_eq bot_apply bot_bool_def)
qed

lemma varint_split:
  fixes v :: u64
  shows "push_bit shift (ucast (ucast (v AND 0x7f) :: byte)) OR push_bit (shift + 7) (drop_bit 7 v) = push_bit shift v"
    (is "?l = _")
proof (rule bit_word_eqI)
  fix n
  assume n: "n < LENGTH(64)"
  show "bit ?l n = bit (push_bit shift v) n"
  proof (cases "n < shift + 7")
    case True
    with n show ?thesis by (auto simp: bit_simps varint_mask_bits)
  next
    case False
    then have "7 + (n - (shift + 7)) = n - shift" by simp
    with n False show ?thesis by (auto simp: bit_simps varint_mask_bits)
  qed
qed

lemma read_push_varint:
  fixes v :: u64
  assumes "unat v < 2 ^ (64 - shift)" and "shift < 64"
  shows "read_varint_from (push_varint v @ rest) shift acc = Some (acc OR push_bit shift v, rest)"
  using assms
proof (induction v arbitrary: shift acc rule: push_varint.induct)
  case (1 v)
  let ?b = "ucast (v AND 0x7f) :: byte" and ?v = "drop_bit 7 v"
  note split = varint_split [of shift v] and byte = varint_byte [of v]
  show ?case
  proof (cases "?v = 0")
    case True
    with split have "push_bit shift (ucast ?b) = push_bit shift v" by simp
    with True show ?thesis
      by (subst push_varint.simps) (simp add: Let_def byte)
  next
    case False
    have big: "128 \<le> unat v"
      using False unat_drop_bit7 [of v] by (metis div_less linorder_not_le unat_eq_zero)
    have "64 - shift > 7"
    proof (rule ccontr)
      assume "\<not> 64 - shift > 7"
      then have "(2 :: nat) ^ (64 - shift) \<le> 2 ^ 7" by (intro power_increasing) auto
      with big "1.prems"(1) show False by simp
    qed
    then have s: "shift + 7 < 64" by simp
    have "64 - shift = 7 + (64 - (shift + 7))" using s by simp
    then have "(2 :: nat) ^ (64 - shift) = 2 ^ 7 * 2 ^ (64 - (shift + 7))"
      by (simp only: power_add)
    then have lt: "unat ?v < 2 ^ (64 - (shift + 7))"
      using "1.prems"(1) by (simp add: unat_drop_bit7 less_mult_imp_div_less mult.commute)
    have IH: "read_varint_from (push_varint ?v @ rest) (shift + 7) acc' = Some (acc' OR push_bit (shift + 7) ?v, rest)" for acc'
      using "1.IH" [OF refl refl False lt s] .
    show ?thesis
      using False s split
      by (subst push_varint.simps) (simp add: Let_def byte IH or.assoc)
  qed
qed

text \<open>
  The hand-written framing is the protobuf framing: the variable-length integer \<open>push_varint\<close>
  writes is read back by \<open>read_varint\<close>, for every 64-bit value and whatever follows it.
\<close>

theorem varint_roundtrip: "read_varint (push_varint v @ rest) = Some (v, rest)"
  using read_push_varint [of v 0 rest 0] unsigned_less [of v] by (simp add: read_varint_def)

text \<open>What \<open>select_infos\<close> takes: current infos only, and every one the target has not acknowledged.\<close>

lemma select_infos_sound:
  "(pid, info) \<in> set (select_infos me target full now g) \<Longrightarrow> pid \<noteq> target \<and> known_info me g pid = Some info"
  by (auto simp: select_infos_def split: if_splits option.splits)

lemma select_infos_complete:
  assumes "known_info me g pid = Some info" and "pid \<noteq> target"
  shows "(pid, info) \<in> set (select_infos me target full now g) \<or>
     (\<not> full \<and> (\<exists>saved. jget (ss_peer_info_ver_map (session_of g target)) pid = Some saved
        \<and> now - sv_touched_at_ms saved < SAVED_ROUTE_VERSION_TTL_MS \<and> max (pi_version info) 1 \<le> sv_version saved))"
proof -
  have rel: "pid \<in> set (relevant_peers me target g)"
    using assms(1) by (auto simp: set_relevant_peers known_info_def jhas_def split: if_splits)
  have pos: "(0 :: u32) < max (pi_version info) 1" by (simp add: less_max_iff_disj word_neq_0_conv [symmetric])
  show ?thesis
  proof (cases "full \<or> max (pi_version info) 1 > acked_version now (session_of g target) pid")
    case True
    with assms rel show ?thesis unfolding select_infos_def by (intro disjI1) (force intro!: bexI [of _ pid])
  next
    case False
    with pos show ?thesis by (auto simp: acked_version_def not_less split: option.splits if_splits)
  qed
qed

lemma session_of_with [simp]: "session_of (with_session pid f g) q = (if q = pid then f (session_of g pid) else session_of g q)"
  by (simp add: with_session_def session_of_def)

lemma known_info_with_session [simp]: "known_info me (with_session pid f g) q = known_info me g q"
  by (simp add: known_info_def with_session_def)

definition update_payload :: "codec \<Rightarrow> sync_route_info_request \<Rightarrow> (peer_id \<times> route_peer_info) list \<Rightarrow> bytes" where
  "update_payload K req items = enc_sync_request K req @
     (if items = [] then [] else push_len_delimited 4 (concat (map (\<lambda>(_, info). push_len_delimited 1 (enc_route_peer_info K info)) items)))"

text \<open>The update that is built is the one of the selected infos.\<close>

lemma build_sync_items:
  assumes "build_sync_route_info_request K seed key target sid initiator force_full now rs = (Inr upd, rs')"
    and "g = with_session target (\<lambda>s. s\<lparr>ss_my_session_id := Some sid\<rparr>) (fst (ensure_group seed key rs))"
    and "items = select_infos (rs_my_peer_id rs) target
          (force_full \<or> ss_dst_session_id (session_of (fst (ensure_group seed key rs)) target) = None) now g"
  shows "(\<exists>conn. ru_payload upd = update_payload K \<lparr>sr_my_peer_id = rs_my_peer_id rs, sr_my_session_id = sid,
        sr_is_initiator = initiator, sr_peer_infos = None, sr_conn_info = conn\<rparr> items)
     \<and> ru_peer_info_versions upd = map (\<lambda>(pid, info). (pid, max (pi_version info) 1)) items"
proof -
  have "fst (build_sync_group K (rs_my_peer_id rs) target sid initiator force_full now (fst (ensure_group seed key rs))) = Inr upd"
    using assms(1) with_group_out [of seed key "build_sync_group K (rs_my_peer_id rs) target sid initiator force_full now" rs]
    by (simp add: build_sync_route_info_request_def)
  then show ?thesis
    by (auto simp: build_sync_group_def Let_def case_prod_beta bind_res_def update_payload_def assms(2,3)
        split: sum.splits)
qed

text \<open>
  C16. An update misses nobody: the update built for a peer carries, in its payload and in the versions to
  be acknowledged, only the current infos of the relay and of other peers; and it carries each of them,
  unless it is neither forced nor the first of its session and the peer has acknowledged that
  version or a newer one less than a minute ago.
\<close>

theorem update_misses_nobody:
  assumes "build_sync_route_info_request K seed key target sid initiator force_full now rs = (Inr upd, rs')"
    and "g = fst (ensure_group seed key rs)" and "me = rs_my_peer_id rs"
  shows "\<exists>conn items.
      ru_payload upd = update_payload K \<lparr>sr_my_peer_id = me, sr_my_session_id = sid,
        sr_is_initiator = initiator, sr_peer_infos = None, sr_conn_info = conn\<rparr> items
    \<and> ru_peer_info_versions upd = map (\<lambda>(pid, info). (pid, max (pi_version info) 1)) items
    \<and> (\<forall>(pid, info)\<in>set items. pid \<noteq> target \<and> known_info me g pid = Some info)
    \<and> (\<forall>pid info. known_info me g pid = Some info \<and> pid \<noteq> target \<longrightarrow> (pid, info) \<in> set items
        \<or> \<not> force_full \<and> ss_dst_session_id (session_of g target) \<noteq> None
          \<and> (\<exists>saved. jget (ss_peer_info_ver_map (session_of g target)) pid = Some saved
             \<and> now - sv_touched_at_ms saved < SAVED_ROUTE_VERSION_TTL_MS \<and> max (pi_version info) 1 \<le> sv_version saved))"
proof -
  let ?full = "force_full \<or> ss_dst_session_id (session_of g target) = None"
  let ?g = "with_session target (\<lambda>s. s\<lparr>ss_my_session_id := Some sid\<rparr>) g"
  define items where "items = select_infos me target ?full now ?g"
  have sound: "\<forall>(pid, info)\<in>set items. pid \<noteq> target \<and> known_info me g pid = Some info"
    using select_infos_sound [of _ _ me target ?full now ?g] by (auto simp: items_def)
  have complete: "(pid, info) \<in> set items \<or> \<not> ?full
          \<and> (\<exists>saved. jget (ss_peer_info_ver_map (session_of g target)) pid = Some saved
             \<and> now - sv_touched_at_ms saved < SAVED_ROUTE_VERSION_TTL_MS \<and> max (pi_version info) 1 \<le> sv_version saved)"
    if "known_info me g pid = Some info" "pid \<noteq> target" for pid info
    using select_infos_complete [of me ?g pid info target ?full now] that by (simp add: items_def)
  from build_sync_items [OF assms(1) refl refl] assms(2,3) items_def sound complete show ?thesis by blast
qed

definition sample_info :: "peer_id \<Rightarrow> u32 \<Rightarrow> u32 \<Rightarrow> route_peer_info" where
  "sample_info pid inst v = (initial_my_info pid sample_seed None)\<lparr>
     inst_id := Some \<lparr>part1 = inst, part2 = 0, part3 = 0, part4 = 0\<rparr>, pi_version := v\<rparr>"

theorem update_misses_nobody_witness:
  "\<exists>upd rs'. build_sync_route_info_request toy_codec sample_seed [110] 5 1 True True 0 (new_route_state 7) = (Inr upd, rs')
     \<and> (7, 1) \<in> set (ru_peer_info_versions upd)"
proof -
  let ?g = "fst (ensure_group sample_seed [110] (new_route_state 7))"
  have g: "?g = new_group 7 sample_seed None" by (simp add: ensure_group_def new_route_state_def Let_def)
  have "\<exists>upd. fst (build_sync_route_info_request toy_codec sample_seed [110] 5 1 True True 0 (new_route_state 7)) = Inr upd"
    by (simp add: build_sync_route_info_request_def with_group_out g)
      (simp add: build_sync_group_def build_conn_info_def relevant_peers_def bset_of_def new_route_state_def new_group_def
        jkeys_def with_session_def topology_current_def session_of_def default_session_def Let_def bind_res_def
        MAX_LEGACY_BITMAP_PEERS_def)
  then obtain upd rs' where b: "build_sync_route_info_request toy_codec sample_seed [110] 5 1 True True 0 (new_route_state 7) = (Inr upd, rs')"
    by (metis prod.collapse)
  have "known_info 7 ?g 7 = Some (initial_my_info 7 sample_seed None)" by (simp add: g known_info_def new_group_def)
  with update_misses_nobody [OF b refl refl] have "(7, max (pi_version (initial_my_info 7 sample_seed None)) 1) \<in> set (ru_peer_info_versions upd)"
    by (force simp: new_route_state_def)
  with b show ?thesis by (simp add: initial_my_info_def)
qed

section \<open>An acknowledgement that arrives after a restart\<close>

lemma select_infos_unacked:
  "(pid, info) \<in> set (select_infos me target False now g) \<Longrightarrow>
     acked_version now (session_of g target) pid < max (pi_version info) 1"
  by (auto simp: select_infos_def split: if_splits option.splits)

lemma save_version_keeps:
  assumes "jget m pid = Some saved" and "v \<le> sv_version saved" and "sv_touched_at_ms saved = now"
  shows "\<exists>saved'. jget (fold (save_version now) vs m) pid = Some saved' \<and> v \<le> sv_version saved' \<and> sv_touched_at_ms saved' = now"
  using assms
proof (induction vs arbitrary: m saved)
  case (Cons pv vs)
  have "\<exists>saved'. jget (save_version now pv m) pid = Some saved' \<and> v \<le> sv_version saved' \<and> sv_touched_at_ms saved' = now"
    using Cons.prems by (auto simp: save_version_def le_max_iff_disj split: option.splits)
  with Cons.IH show ?case by auto
qed simp

lemma save_versions_records:
  assumes "(pid, v) \<in> set vs"
  shows "\<exists>saved. jget (fold (save_version now) vs m) pid = Some saved \<and> v \<le> sv_version saved \<and> sv_touched_at_ms saved = now"
  using assms
proof (induction vs arbitrary: m)
  case (Cons pv vs)
  show ?case
  proof (cases "pv = (pid, v)")
    case True
    then have "\<exists>saved. jget (save_version now pv m) pid = Some saved \<and> v \<le> sv_version saved \<and> sv_touched_at_ms saved = now"
      by (auto simp: save_version_def split: option.splits)
    then show ?thesis using save_version_keeps [of "save_version now pv m" pid _ v now vs] by auto
  next
    case False
    with Cons show ?thesis by auto
  qed
qed simp

text \<open>A report of a new instance is stored and clears the version every session has acknowledged.\<close>

lemma restart_clears_acks:
  assumes "handle_sync_group K me pid req now g = (out, g')" and "sr_peer_infos req = Some [info]" and "pi_peer_id info = pid"
    and "jget (rg_peer_infos g) pid = Some old" and "inst_id old \<noteq> inst_id info" and "target \<noteq> pid"
  shows "jget (rg_peer_infos g') pid = Some (info\<lparr>last_update := Some (int (now div 1000))\<rparr>)
     \<and> session_of g' target = (session_of g target)\<lparr>ss_peer_info_ver_map := jdel pid (ss_peer_info_ver_map (session_of g target))\<rparr>"
proof -
  define g1 where "g1 = with_session pid (\<lambda>s.
      let s1 = s\<lparr>ss_last_touch_ms := now\<rparr>;
          s2 = (if ss_dst_session_id (session_of g pid) \<noteq> Some (sr_my_session_id req) then reset_session s1 else s1)
      in s2\<lparr>ss_dst_session_id := Some (sr_my_session_id req), ss_we_are_initiator := \<not> sr_is_initiator req\<rparr>) g"
  have g1: "jget (rg_peer_infos g1) pid = Some old" "session_of g1 target = session_of g target"
    using assms(4,6) by (simp_all add: g1_def)
  obtain rc nb g2 where st: "store_info pid now info (False, False, g1) = (rc, nb, g2)" by (metis prod_cases3)
  obtain rows g3 where sr: "store_conn_rows me pid (sr_conn_info req) g2 = (rows, g3)" by (metis surj_pair)
  have g': "g' = (if nb \<or> rows then note_topology_change g3 else g3)"
    using assms(1,2) st sr by (simp add: handle_sync_group_def Let_def g1_def)
  have g2: "jget (rg_peer_infos g2) pid = Some (info\<lparr>last_update := Some (int (now div 1000))\<rparr>)"
    "rg_sessions g2 = jmap_values (\<lambda>s. s\<lparr>ss_peer_info_ver_map := jdel pid (ss_peer_info_ver_map s)\<rparr>) (rg_sessions g1)"
    using st g1(1) assms(3,5) by (auto simp: store_info_def Let_def)
  have "session_of g2 target = (session_of g1 target)\<lparr>ss_peer_info_ver_map := jdel pid (ss_peer_info_ver_map (session_of g1 target))\<rparr>"
    using g2(2) by (auto simp: session_of_def default_session_def jdel_absent split: option.splits)
  note g2 = g2(1) this [unfolded g1(2)]
  have "rg_peer_infos g' = rg_peer_infos g2" "rg_sessions g' = rg_sessions g2"
    using store_conn_rows_effect [OF sr] by (simp_all add: g')
  with g2 show ?thesis by (simp add: session_of_def)
qed

lemma with_group_me [simp]: "rs_my_peer_id (snd (with_group seed key f rs)) = rs_my_peer_id rs"
  by (simp add: with_group_def ensure_group_def put_group_def Let_def case_prod_beta split: option.splits)

lemma ensure_group_present: "jget (rs_groups rs) key = Some g \<Longrightarrow> fst (ensure_group seed key rs) = g"
  by (simp add: ensure_group_def Let_def)

text \<open>An acknowledgement of the running session: the versions sent are recorded, and the infos stay.\<close>

definition late_ack ::
    "group_seed \<Rightarrow> ustring \<Rightarrow> peer_id \<Rightarrow> u64 \<Rightarrow> bool \<Rightarrow> (peer_id \<times> u32) list \<Rightarrow> u64 option \<Rightarrow> nat \<Rightarrow> route_state \<Rightarrow> route_state" where
  "late_ack seed key target dst initiator versions topo now rs =
     commit_route_update seed key target versions topo now (on_route_session_ack seed key target dst initiator now rs)"

lemma late_ack_group:
  assumes "jget (rs_groups rs) key = Some g" and "ss_dst_session_id (session_of g target) = Some dst"
  shows "\<exists>g'. jget (rs_groups (late_ack seed key target dst initiator versions topo now rs)) key = Some g'
     \<and> rg_peer_infos g' = rg_peer_infos g \<and> ss_dst_session_id (session_of g' target) = Some dst
     \<and> ss_peer_info_ver_map (session_of g' target) = fold (save_version now) versions (ss_peer_info_ver_map (session_of g target))"
proof -
  let ?rs1 = "on_route_session_ack seed key target dst initiator now rs"
  obtain g1 where g1: "jget (rs_groups ?rs1) key = Some g1" "rg_peer_infos g1 = rg_peer_infos g"
      "ss_dst_session_id (session_of g1 target) = Some dst"
      "ss_peer_info_ver_map (session_of g1 target) = ss_peer_info_ver_map (session_of g target)"
    using assms by (simp add: on_route_session_ack_def jget_with_group ensure_group_present)
  then show ?thesis
    by (auto simp: late_ack_def commit_route_update_def jget_with_group ensure_group_present commit_session_def Let_def
        split: option.splits)
qed

lemma recorded_left_out:
  assumes "build_sync_route_info_request K seed key target sid i False now rs = (Inr upd, rs')"
    and "jget (rs_groups rs) key = Some g" and "ss_dst_session_id (session_of g target) \<noteq> None"
    and "pid \<noteq> rs_my_peer_id rs" and "jget (rg_peer_infos g) pid = Some info"
    and "jget (ss_peer_info_ver_map (session_of g target)) pid = Some saved"
    and "max (pi_version info) 1 \<le> sv_version saved" and "now - sv_touched_at_ms saved < SAVED_ROUTE_VERSION_TTL_MS"
  shows "pid \<notin> fst ` set (ru_peer_info_versions upd)"
proof
  let ?g = "with_session target (\<lambda>s. s\<lparr>ss_my_session_id := Some sid\<rparr>) g"
  assume "pid \<in> fst ` set (ru_peer_info_versions upd)"
  then obtain info' where "(pid, info') \<in> set (select_infos (rs_my_peer_id rs) target False now ?g)"
    using build_sync_items [OF assms(1) refl refl] assms(2,3) by (auto simp: ensure_group_present)
  then have "known_info (rs_my_peer_id rs) ?g pid = Some info'" "acked_version now (session_of ?g target) pid < max (pi_version info') 1"
    using select_infos_sound select_infos_unacked by blast+
  with assms(4-8) show False by (auto simp: known_info_def acked_version_def less_max_iff_disj)
qed

lemma unrecorded_carried:
  assumes "build_sync_route_info_request K seed key target sid i False now rs = (Inr upd, rs')"
    and "jget (rs_groups rs) key = Some g" and "ss_dst_session_id (session_of g target) \<noteq> None"
    and "pid \<noteq> rs_my_peer_id rs" and "pid \<noteq> target" and "jget (rg_peer_infos g) pid = Some info"
    and "jget (ss_peer_info_ver_map (session_of g target)) pid = None"
  shows "(pid, max (pi_version info) 1) \<in> set (ru_peer_info_versions upd)"
proof -
  let ?g = "with_session target (\<lambda>s. s\<lparr>ss_my_session_id := Some sid\<rparr>) g"
  have "known_info (rs_my_peer_id rs) ?g pid = Some info" using assms(4,6) by (simp add: known_info_def)
  from select_infos_complete [OF this assms(5), of False now] assms(7)
  have "(pid, info) \<in> set (select_infos (rs_my_peer_id rs) target False now ?g)" by simp
  then show ?thesis
    using build_sync_items [OF assms(1) refl refl] assms(2,3) by (force simp: ensure_group_present)
qed

text \<open>
  C30. A restart can be hidden by an acknowledgement in flight: a peer restarts and reports a new instance
  with a version no higher than the one an unacknowledged update to another peer carries. The relay stores
  the new instance and clears the acknowledged versions, so the next update would carry it; but when
  the late acknowledgement arrives in between, the old version is recorded again and every
  incremental update to that peer leaves the new instance out for as long as the record is fresh.
\<close>

theorem restart_hidden_by_late_ack:
  assumes group: "jget (rs_groups rs) key = Some g" "ss_dst_session_id (session_of g target) = Some dst"
      "jget (rg_peer_infos g) pid = Some old" "pid \<noteq> target" "pid \<noteq> rs_my_peer_id rs"
    and report: "dec_sync_request K bs = Some req" "sr_peer_infos req = Some [info]" "pi_peer_id info = pid"
      "inst_id old \<noteq> inst_id info"
    and restart: "handle_sync_route_info_request K seed key pid bs t1 rs = (Inr out, rs1)"
    and in_flight: "(pid, v) \<in> set versions" "max (pi_version info) 1 \<le> v"
    and ack: "rs2 = commit_route_update seed key target versions topo t2
      (on_route_session_ack seed key target dst initiator t2 rs1)"
    and fresh: "t3 - t2 < SAVED_ROUTE_VERSION_TTL_MS"
  shows "(\<forall>sid i upd rs'. build_sync_route_info_request K seed key target sid i False t3 rs1 = (Inr upd, rs')
            \<longrightarrow> (pid, max (pi_version info) 1) \<in> set (ru_peer_info_versions upd))
     \<and> (\<forall>sid i upd rs'. build_sync_route_info_request K seed key target sid i False t3 rs2 = (Inr upd, rs')
            \<longrightarrow> pid \<notin> fst ` set (ru_peer_info_versions upd))
     \<and> (\<exists>g2. jget (rs_groups rs2) key = Some g2
            \<and> map_option inst_id (jget (rg_peer_infos g2) pid) = Some (inst_id info))"
proof -
  let ?me = "rs_my_peer_id rs"
  obtain o1 g1 where h: "handle_sync_group K ?me pid req t1 g = (o1, g1)" by (metis surj_pair)
  have rs1: "rs1 = snd (with_group seed key (\<lambda>g. let (o1, g') = handle_sync_group K ?me pid req t1 g in (Inr o1 :: route_sync_outcome res, g')) rs)"
    using restart report(1) by (auto simp: handle_sync_route_info_request_def split: if_splits)
  then have grp1: "jget (rs_groups rs1) key = Some g1" and me1: "rs_my_peer_id rs1 = ?me"
    using h group(1) by (simp_all add: jget_with_group ensure_group_present with_group_me)
  note c = restart_clears_acks [OF h report(2,3) group(3) report(4) group(4) [symmetric]]
  then have dst1: "ss_dst_session_id (session_of g1 target) = Some dst" using group(2) by simp
  from late_ack_group [OF grp1 dst1, of seed initiator versions topo t2]
  obtain g2 where g2: "jget (rs_groups rs2) key = Some g2" "rg_peer_infos g2 = rg_peer_infos g1"
      "ss_dst_session_id (session_of g2 target) = Some dst"
      "ss_peer_info_ver_map (session_of g2 target) = fold (save_version t2) versions (ss_peer_info_ver_map (session_of g1 target))"
    by (auto simp: ack late_ack_def)
  have me2: "rs_my_peer_id rs2 = ?me" by (simp add: ack commit_route_update_def on_route_session_ack_def with_group_me me1)
  obtain saved where saved: "jget (ss_peer_info_ver_map (session_of g2 target)) pid = Some saved"
      "v \<le> sv_version saved" "sv_touched_at_ms saved = t2"
    using save_versions_records [OF in_flight(1), of t2 "ss_peer_info_ver_map (session_of g1 target)"] g2(4) by auto
  show ?thesis
  proof (intro conjI allI impI)
    fix sid i upd rs'
    assume "build_sync_route_info_request K seed key target sid i False t3 rs1 = (Inr upd, rs')"
    from unrecorded_carried [OF this grp1, of pid "info\<lparr>last_update := Some (int (t1 div 1000))\<rparr>"] c dst1 group(4,5) me1
    show "(pid, max (pi_version info) 1) \<in> set (ru_peer_info_versions upd)" by simp
  next
    fix sid i upd rs'
    assume "build_sync_route_info_request K seed key target sid i False t3 rs2 = (Inr upd, rs')"
    from recorded_left_out [OF this g2(1)] c g2 saved group(5) me2 fresh in_flight(2)
    show "pid \<notin> fst ` set (ru_peer_info_versions upd)" by fastforce
  next
    show "\<exists>g2. jget (rs_groups rs2) key = Some g2 \<and> map_option inst_id (jget (rg_peer_infos g2) pid) = Some (inst_id info)"
      using g2(1,2) c by simp
  qed
qed

lemma build_sync_returns:
  assumes "length (relevant_peers (rs_my_peer_id rs) target (fst (ensure_group seed key rs))) \<le> MAX_LEGACY_BITMAP_PEERS"
  shows "\<exists>upd rs'. build_sync_route_info_request K seed key target sid i full now rs = (Inr upd, rs')"
proof -
  let ?g = "with_session target (\<lambda>s. s\<lparr>ss_my_session_id := Some sid\<rparr>) (fst (ensure_group seed key rs))"
  have "relevant_peers (rs_my_peer_id rs) target ?g = relevant_peers (rs_my_peer_id rs) target (fst (ensure_group seed key rs))"
    by (simp add: relevant_peers_def)
  then have "\<exists>conn. fst (build_conn_info (relevant_peers (rs_my_peer_id rs) target ?g) target supports now ?g) = Inr conn" for supports
    using assms by (auto simp: build_conn_info_def Let_def split: option.splits)
  then have "\<exists>upd. fst (build_sync_route_info_request K seed key target sid i full now rs) = Inr upd"
    by (auto simp: build_sync_route_info_request_def with_group_out build_sync_group_def Let_def case_prod_beta bind_res_def
        split: sum.splits) (metis Inl_Inr_False)
  then show ?thesis by (metis prod.collapse)
qed

definition restart_codec :: codec where
  "restart_codec = toy_codec\<lparr>dec_sync_request := \<lambda>bs. Some
     (if bs = [6] then \<lparr>sr_my_peer_id = 6, sr_my_session_id = 1, sr_is_initiator = True, sr_peer_infos = None, sr_conn_info = None\<rparr>
      else \<lparr>sr_my_peer_id = 5, sr_my_session_id = (if bs = [5] then 1 else 2), sr_is_initiator = True,
        sr_peer_infos = Some [if bs = [5] then sample_info 5 1 10 else sample_info 5 2 1], sr_conn_info = None\<rparr>)\<rparr>"

text \<open>Peers 5 and 6 join, and both report: peer 5 with version 10 of its info.\<close>

definition restart_run :: route_state where
  "restart_run =
     snd (handle_sync_route_info_request restart_codec sample_seed [110] 6 [6] 0
       (snd (handle_sync_route_info_request restart_codec sample_seed [110] 5 [5] 0
         (snd (add_peer sample_seed [110] 6 [] 0 (snd (add_peer sample_seed [110] 5 [] 0 (new_route_state 7))))))))"

lemma restart_run_facts:
  "rs_my_peer_id restart_run = 7"
  "\<exists>g. jget (rs_groups restart_run) [110] = Some g \<and> ss_dst_session_id (session_of g 6) = Some 1
     \<and> ss_peer_info_ver_map (session_of g 6) = []
     \<and> map_option (\<lambda>i. (inst_id i, pi_version i)) (jget (rg_peer_infos g) 5) = Some (inst_id (sample_info 5 1 10), 10)
     \<and> length (relevant_peers 7 6 g) \<le> MAX_LEGACY_BITMAP_PEERS"
  by (simp_all add: restart_run_def handle_sync_route_info_request_def add_peer_def restart_codec_def
      new_route_state_def jget_with_group with_group_def ensure_group_def put_group_def Let_def handle_sync_group_def store_info_def store_conn_rows_def
      add_peer_simps sample_info_def initial_my_info_def reset_session_def case_prod_beta relevant_peers_def bset_of_def
      MAX_LEGACY_BITMAP_PEERS_def bset_insert_def insort_insert_key_def jset_def jdel_def jmap_values_def jkeys_def jhas_def jget_def)

lemma build_sync_keeps:
  assumes "jget (rs_groups rs) key = Some g"
    and "build_sync_route_info_request K seed key target sid i full now rs = (r, rs')"
  shows "\<exists>g'. jget (rs_groups rs') key = Some g' \<and> rg_peer_infos g' = rg_peer_infos g
     \<and> session_of g' target = (session_of g target)\<lparr>ss_my_session_id := Some sid\<rparr> \<and> rs_my_peer_id rs' = rs_my_peer_id rs"
proof -
  let ?g = "with_session target (\<lambda>s. s\<lparr>ss_my_session_id := Some sid\<rparr>) g"
  have c: "rg_peer_infos (snd (build_conn_info ps target b now ?g)) = rg_peer_infos g
      \<and> rg_sessions (snd (build_conn_info ps target b now ?g)) = rg_sessions ?g" for ps b
    by (simp add: build_conn_info_def Let_def split: option.splits)
  have "rs' = snd (with_group seed key (build_sync_group K (rs_my_peer_id rs) target sid i full now) rs)"
    using assms(2) by (simp add: build_sync_route_info_request_def)
  moreover have "session_of (snd (build_conn_info ps target b now ?g)) target = session_of ?g target" for ps b
    using c by (simp add: session_of_def)
  ultimately show ?thesis
    using assms(1) c by (simp add: jget_with_group ensure_group_present build_sync_group_def Let_def case_prod_beta)
qed

theorem restart_hidden_by_late_ack_witness:
  "\<exists>sent rs out rs1. build_sync_route_info_request restart_codec sample_seed [110] 6 9 True False 1000 restart_run = (Inr sent, rs)
     \<and> (5, 10) \<in> set (ru_peer_info_versions sent)
     \<and> handle_sync_route_info_request restart_codec sample_seed [110] 5 [] 1500 rs = (Inr out, rs1)
     \<and> (\<forall>sid i upd rs'. build_sync_route_info_request restart_codec sample_seed [110] 6 sid i False 3000
          (commit_route_update sample_seed [110] 6 (ru_peer_info_versions sent) (ru_topology_version sent) 2000
            (on_route_session_ack sample_seed [110] 6 1 True 2000 rs1)) = (Inr upd, rs')
          \<longrightarrow> 5 \<notin> fst ` set (ru_peer_info_versions upd))"
proof -
  obtain g where g: "jget (rs_groups restart_run) [110] = Some g" "ss_dst_session_id (session_of g 6) = Some 1"
      "ss_peer_info_ver_map (session_of g 6) = []" "length (relevant_peers 7 6 g) \<le> MAX_LEGACY_BITMAP_PEERS"
      "map_option (\<lambda>i. (inst_id i, pi_version i)) (jget (rg_peer_infos g) 5) = Some (inst_id (sample_info 5 1 10), 10)"
    using restart_run_facts(2) by blast
  then obtain old where old: "jget (rg_peer_infos g) 5 = Some old" "inst_id old = inst_id (sample_info 5 1 10)" "pi_version old = 10"
    by auto
  obtain sent rs where sent: "build_sync_route_info_request restart_codec sample_seed [110] 6 9 True False 1000 restart_run = (Inr sent, rs)"
    using build_sync_returns [of restart_run 6 sample_seed "[110]" restart_codec 9 True False 1000] g(1,4) restart_run_facts(1)
    by (auto simp: ensure_group_present)
  have carried: "(5, 10) \<in> set (ru_peer_info_versions sent)"
    using unrecorded_carried [OF sent g(1), of 5 old] old g restart_run_facts(1) by simp
  obtain gb where gb: "jget (rs_groups rs) [110] = Some gb" "rg_peer_infos gb = rg_peer_infos g"
      "session_of gb 6 = (session_of g 6)\<lparr>ss_my_session_id := Some 9\<rparr>" "rs_my_peer_id rs = 7"
    using build_sync_keeps [OF g(1) sent] restart_run_facts(1) by auto
  have "\<exists>out. fst (handle_sync_route_info_request restart_codec sample_seed [110] 5 [] 1500 rs) = Inr out"
    by (simp add: handle_sync_route_info_request_def restart_codec_def with_group_out case_prod_beta)
  then obtain out rs1 where restart: "handle_sync_route_info_request restart_codec sample_seed [110] 5 [] 1500 rs = (Inr out, rs1)"
    by (metis prod.collapse)
  let ?req = "\<lparr>sr_my_peer_id = 5, sr_my_session_id = 2, sr_is_initiator = True,
        sr_peer_infos = Some [sample_info 5 2 1], sr_conn_info = None\<rparr>"
  have side: "ss_dst_session_id (session_of gb 6) = Some 1" "jget (rg_peer_infos gb) 5 = Some old"
      "(5 :: peer_id) \<noteq> 6" "5 \<noteq> rs_my_peer_id rs" "dec_sync_request restart_codec [] = Some ?req"
      "sr_peer_infos ?req = Some [sample_info 5 2 1]" "pi_peer_id (sample_info 5 2 1) = 5"
      "inst_id old \<noteq> inst_id (sample_info 5 2 1)" "max (pi_version (sample_info 5 2 1)) 1 \<le> 10"
      "(3000 :: nat) - 2000 < SAVED_ROUTE_VERSION_TTL_MS"
    using gb old(1,2) g(2)
    by (simp_all add: restart_codec_def sample_info_def initial_my_info_def SAVED_ROUTE_VERSION_TTL_MS_def)
  note hidden = restart_hidden_by_late_ack [OF gb(1) side(1-8) restart carried side(9) refl side(10)]
  show ?thesis using sent carried restart hidden by blast
qed

text \<open>
  What may still be listed: peer 5 is swept as dead, the update that was in flight to it is built anew, which
  caches a bitmap over nodes with the swept peer, and the removal that follows does not advance the topology
  version, so that the snapshot for peer 6 lists peer 5, of which the relay knows nothing any more.
\<close>

definition swept_group :: route_group where
  "swept_group = remove_peer_group 7 5 (snd (build_sync_group toy_codec 7 5 1 True True 100000
     (snd (snd (sweep_group 7 100000 two_peers)))))"

lemma remove_two_peers:
  "remove_peer_group 7 5 two_peers = \<lparr>rg_peers = [6], rg_peer_infos = [], rg_authenticated_peer_keys = [(6, [])],
     rg_sessions = [(6, default_session\<lparr>ss_last_touch_ms := 50000\<rparr>)],
     rg_conn_rows = [(7, \<lparr>row_version = 3, row_connected = [6]\<rparr>)], rg_topology_version = 4,
     rg_cached_conn_bitmap = None, rg_cached_conn_peer_list = None,
     rg_my_info = initial_my_info 7 sample_seed None, rg_my_info_version = 1\<rparr>"
  by (simp add: two_peers_def remove_peer_group_def add_peer_simps bset_insert_def insort_insert_key_def
      jset_def jdel_def jmap_values_def forget_peer_def default_row_def)

lemma sweep_two_peers:
  "snd (snd (sweep_group 7 100000 two_peers)) = remove_peer_group 7 5 two_peers"
  by (simp add: sweep_group_def two_peers_facts Let_def) (simp add: remove_two_peers)

lemma swept_group_facts:
  "rg_peers swept_group = [6] \<and> rg_peer_infos swept_group = [] \<and> jkeys (rg_conn_rows swept_group) = [7]"
  "\<exists>b. rg_cached_conn_bitmap swept_group = Some (rg_topology_version swept_group, b) \<and> map pv_peer_id (cb_peer_ids b) = [5, 6, 7]"
  "ss_last_topology_version (session_of swept_group 6) = 0 \<and> rg_topology_version swept_group = 4"
proof -
  let ?g = "with_session 5 (\<lambda>s. s\<lparr>ss_my_session_id := Some 1\<rparr>) (remove_peer_group 7 5 two_peers)"
  have rel: "relevant_peers 7 5 ?g = [5, 6, 7]"
    by (simp add: relevant_peers_def remove_two_peers bset_of_def jkeys_def)
  have "\<not> topology_current 100000 ?g 5"
    by (simp add: topology_current_def remove_two_peers with_session_def session_of_def default_session_def)
  then have "snd (build_sync_group toy_codec 7 5 1 True True 100000 (remove_peer_group 7 5 two_peers)) =
      ?g\<lparr>rg_cached_conn_bitmap := Some (4, conn_bitmap ?g [5, 6, 7])\<rparr>" (is "_ = ?g2")
    by (simp add: build_sync_group_def rel case_prod_beta Let_def)
      (simp add: build_conn_info_def remove_two_peers with_session_def MAX_LEGACY_BITMAP_PEERS_def)
  then have g: "swept_group = remove_peer_group 7 5 ?g2" by (simp add: swept_group_def sweep_two_peers)
  have ids: "map pv_peer_id (cb_peer_ids (conn_bitmap h [5, 6, 7])) = [5, 6, 7]" for h
    by (simp add: conn_bitmap_def Let_def case_prod_beta)
  show "rg_peers swept_group = [6] \<and> rg_peer_infos swept_group = [] \<and> jkeys (rg_conn_rows swept_group) = [7]"
    unfolding g by (simp add: remove_peer_group_def [of 7 5 ?g2]) (simp add: remove_two_peers jdel_def jkeys_def)
  show "\<exists>b. rg_cached_conn_bitmap swept_group = Some (rg_topology_version swept_group, b) \<and> map pv_peer_id (cb_peer_ids b) = [5, 6, 7]"
    unfolding g by (simp add: remove_peer_group_def [of 7 5 ?g2]) (simp add: remove_two_peers ids with_session_def)
  show "ss_last_topology_version (session_of swept_group 6) = 0 \<and> rg_topology_version swept_group = 4"
    unfolding g by (simp add: remove_peer_group_def [of 7 5 ?g2])
      (simp add: remove_two_peers session_of_def with_session_def forget_peer_def)
qed

theorem swept_peer_stays_listed:
  "reach (group_init 7) (route_step toy_codec 7) swept_group \<and> 5 \<notin> live_peers 7 swept_group
     \<and> \<not> jhas (rg_conn_rows swept_group) 5
     \<and> (\<exists>b. fst (build_conn_info (relevant_peers 7 6 swept_group) 6 False now swept_group) = Inr (Some (ConnBitmap b))
          \<and> 5 \<in> pv_peer_id ` set (cb_peer_ids b))"
proof (intro conjI)
  have "reach (group_init 7) (route_step toy_codec 7) (new_group 7 sample_seed None)"
    by (rule reach_init) (auto simp: group_init_def)
  note start = this and step = reach_step [of "group_init 7" "route_step toy_codec 7"]
  have "reach (group_init 7) (route_step toy_codec 7) two_peers"
    unfolding two_peers_def by (rule step [OF step [OF start route_step.join] route_step.join]) simp_all
  then show "reach (group_init 7) (route_step toy_codec 7) swept_group"
    unfolding swept_group_def
    by (rule step [OF step [OF step [OF _ route_step.sweep] route_step.update] route_step.leave]) simp
  show "5 \<notin> live_peers 7 swept_group" by (simp add: live_peers_def swept_group_facts(1) jhas_def)
  show "\<not> jhas (rg_conn_rows swept_group) 5" by (simp add: jkeys_iff [symmetric] swept_group_facts(1))
  obtain b where b: "rg_cached_conn_bitmap swept_group = Some (rg_topology_version swept_group, b)"
      "map pv_peer_id (cb_peer_ids b) = [5, 6, 7]" using swept_group_facts(2) by (elim exE conjE) (rule that)
  have "5 \<in> set (map pv_peer_id (cb_peer_ids b))" unfolding b(2) by simp
  moreover have "relevant_peers 7 6 swept_group \<noteq> []"
  proof -
    have "7 \<in> set (relevant_peers 7 6 swept_group)" by (simp add: set_relevant_peers)
    then show ?thesis by auto
  qed
  moreover have "\<not> topology_current now swept_group 6"
    using swept_group_facts(3) by (auto simp: topology_current_def session_of_def split: option.splits)
  ultimately show "\<exists>b. fst (build_conn_info (relevant_peers 7 6 swept_group) 6 False now swept_group) = Inr (Some (ConnBitmap b))
          \<and> 5 \<in> pv_peer_id ` set (cb_peer_ids b)"
    using b(1) by (simp add: build_conn_info_def)
qed

end
