(* ===== verification/PeerCenter.thy ===== *)
theory PeerCenter
  imports Legacy
begin

text \<open>
  The peer center of \<^verbatim>\<open>wasm/src/peer_center.rs\<close>: per network, the latency each peer reports to each of
  its direct neighbours, the time of every report, and a digest of the map that lets a client skip an
  unchanged answer. \<open>Date.now()\<close> is an argument.
\<close>

section \<open>State\<close>

record src_dst_pair =
  pair_src :: peer_id
  pair_dst :: peer_id

record peer_center_entry =
  pe_info :: direct_connected_peer_info
  pe_update_time_ms :: nat

record peer_center_group =
  pg_global_peer_map :: "(src_dst_pair, peer_center_entry) jmap"
  pg_peer_report_time :: "(peer_id, nat) jmap"
  pg_digest :: u64

type_synonym peer_center = "(ustring, peer_center_group) jmap"

definition default_center_group :: peer_center_group where
  "default_center_group = \<lparr>pg_global_peer_map = [], pg_peer_report_time = [], pg_digest = 0\<rparr>"

definition group_mut :: "ustring \<Rightarrow> peer_center \<Rightarrow> peer_center_group" where
  "group_mut key pc = (case jget pc key of Some g \<Rightarrow> g | None \<Rightarrow> default_center_group)"

section \<open>Operations\<close>

text \<open>
  The keys are hashed in ascending order; a pair and an info hash as their 32-bit fields in little-endian
  bytes.
\<close>

definition pair_rank :: "src_dst_pair \<Rightarrow> nat" where
  "pair_rank p = unat (pair_src p) * 2 ^ 32 + unat (pair_dst p)"

definition hashed_entry :: "src_dst_pair \<times> peer_center_entry \<Rightarrow> bytes" where
  "hashed_entry e = u32_to_le_bytes (pair_src (fst e)) @ u32_to_le_bytes (pair_dst (fst e))
     @ u32_to_le_bytes (latency_ms (pe_info (snd e)))"

definition calc_digest_internal :: "(src_dst_pair, peer_center_entry) jmap \<Rightarrow> u64" where
  "calc_digest_internal m = sip_finish (concat (map hashed_entry (sort_key (pair_rank \<circ> fst) m)))"

definition insert_report ::
    "peer_id \<Rightarrow> nat \<Rightarrow> peer_id \<times> direct_connected_peer_info
       \<Rightarrow> (src_dst_pair, peer_center_entry) jmap \<Rightarrow> (src_dst_pair, peer_center_entry) jmap" where
  "insert_report me now p m =
     jset \<lparr>pair_src = me, pair_dst = fst p\<rparr> \<lparr>pe_info = snd p, pe_update_time_ms = now\<rparr> m"

definition report_peers ::
    "codec \<Rightarrow> nat \<Rightarrow> ustring \<Rightarrow> peer_id \<Rightarrow> bytes \<Rightarrow> peer_center \<Rightarrow> bytes res \<times> peer_center" where
  "report_peers K now key authenticated_pid report_bytes pc =
     (case dec_report_peers K report_bytes of
        None \<Rightarrow> (raise ''decode ReportPeersRequest failed'', pc)
      | Some req \<Rightarrow>
          if rpr_my_peer_id req \<noteq> authenticated_pid
          then (raise ''ReportPeersRequest peer id does not match the authenticated connection'', pc)
          else
            let direct = (case rpr_peer_infos req of None \<Rightarrow> [] | Some d \<Rightarrow> d);
                data = group_mut key pc;
                m = fold (insert_report (rpr_my_peer_id req) now) direct (pg_global_peer_map data)
            in (Inr (enc_report_peers_response K),
                jset key \<lparr>pg_global_peer_map = m,
                   pg_peer_report_time = jset (rpr_my_peer_id req) now (pg_peer_report_time data),
                   pg_digest = calc_digest_internal m\<rparr> pc))"

definition center_remove_peer :: "ustring \<Rightarrow> peer_id \<Rightarrow> peer_center \<Rightarrow> peer_center" where
  "center_remove_peer key pid pc =
     (case jget pc key of
        None \<Rightarrow> pc
      | Some data \<Rightarrow>
          let times = jdel pid (pg_peer_report_time data);
              m = jretain (\<lambda>p _. pair_src p \<noteq> pid \<and> pair_dst p \<noteq> pid) (pg_global_peer_map data)
          in if m = [] \<and> times = [] then jdel key pc
             else jset key \<lparr>pg_global_peer_map = m, pg_peer_report_time = times,
                            pg_digest = calc_digest_internal m\<rparr> pc)"

text \<open>The answer groups the entries by source; both levels are ascending maps.\<close>

definition by_key :: "(peer_id, 'a) jmap \<Rightarrow> (peer_id, 'a) jmap" where
  "by_key m = sort_key (unat \<circ> fst) m"

definition add_source ::
    "src_dst_pair \<times> peer_center_entry \<Rightarrow> (peer_id, (peer_id, direct_connected_peer_info) jmap) jmap
       \<Rightarrow> (peer_id, (peer_id, direct_connected_peer_info) jmap) jmap" where
  "add_source x acc = (let (p, e) = x;
       direct = (case jget acc (pair_src p) of Some d \<Rightarrow> d | None \<Rightarrow> [])
     in jset (pair_src p) (jset (pair_dst p) (pe_info e) direct) acc)"

definition group_by_source ::
    "(src_dst_pair, peer_center_entry) jmap \<Rightarrow> (peer_id, (peer_id, direct_connected_peer_info) jmap) jmap" where
  "group_by_source m = by_key (jmap_values by_key (fold add_source m []))"

definition get_global_peer_map :: "codec \<Rightarrow> ustring \<Rightarrow> bytes \<Rightarrow> peer_center \<Rightarrow> bytes res \<times> peer_center" where
  "get_global_peer_map K key request_bytes pc =
     (case dec_global_map_request K request_bytes of
        None \<Rightarrow> (raise ''decode GetGlobalPeerMapRequest failed'', pc)
      | Some digest \<Rightarrow>
          let data = group_mut key pc; pc' = jset key data pc
          in if digest = pg_digest data \<and> digest \<noteq> 0
             then (Inr (enc_global_map_response K \<lparr>global_peer_map = [], gm_digest = None\<rparr>), pc')
             else (Inr (enc_global_map_response K
                     \<lparr>global_peer_map = group_by_source (pg_global_peer_map data),
                      gm_digest = Some (pg_digest data)\<rparr>), pc'))"

definition clean_group :: "nat \<Rightarrow> nat \<Rightarrow> peer_center_group \<Rightarrow> peer_center_group" where
  "clean_group now ttl_ms data =
     (let m = jretain (\<lambda>_ e. now - pe_update_time_ms e < ttl_ms) (pg_global_peer_map data)
      in \<lparr>pg_global_peer_map = m,
          pg_peer_report_time = jretain (\<lambda>_ t. now - t < ttl_ms) (pg_peer_report_time data),
          pg_digest = calc_digest_internal m\<rparr>)"

definition clean_outdated :: "nat \<Rightarrow> nat \<Rightarrow> peer_center \<Rightarrow> peer_center" where
  "clean_outdated now ttl_sec pc =
     jretain (\<lambda>_ g. pg_global_peer_map g \<noteq> [] \<or> pg_peer_report_time g \<noteq> [])
       (jmap_values (clean_group now (min (ttl_sec * 1000) (2 ^ 64 - 1))) pc)"

section \<open>The digest invariant\<close>

definition digest_ok :: "peer_center_group \<Rightarrow> bool" where
  "digest_ok g \<longleftrightarrow> pg_digest g = calc_digest_internal (pg_global_peer_map g)
     \<or> g = default_center_group"

definition center_ok :: "peer_center \<Rightarrow> bool" where
  "center_ok pc \<longleftrightarrow> jwf pc \<and> (\<forall>key g. jget pc key = Some g \<longrightarrow> digest_ok g)"

datatype center_op = Report nat ustring peer_id bytes | RemovePeer ustring peer_id | GetMap ustring bytes | Clean nat nat

fun center_apply :: "codec \<Rightarrow> center_op \<Rightarrow> peer_center \<Rightarrow> peer_center" where
  "center_apply K (Report now key pid bs) pc = snd (report_peers K now key pid bs pc)"
| "center_apply K (RemovePeer key pid) pc = center_remove_peer key pid pc"
| "center_apply K (GetMap key bs) pc = snd (get_global_peer_map K key bs pc)"
| "center_apply K (Clean now ttl) pc = clean_outdated now ttl pc"

lemma group_mut_ok: "center_ok pc \<Longrightarrow> digest_ok (group_mut key pc)"
  by (auto simp: center_ok_def group_mut_def digest_ok_def split: option.splits)

lemma clean_group_ok: "digest_ok (clean_group now ttl g)"
  by (simp add: digest_ok_def clean_group_def Let_def)

lemma center_apply_ok: "center_ok pc \<Longrightarrow> center_ok (center_apply K op pc)"
proof (cases op)
  case (Clean now ttl)
  assume "center_ok pc"
  then show ?thesis
    by (auto simp: Clean center_ok_def clean_outdated_def jget_jretain clean_group_ok split: option.splits if_splits)
qed (auto simp: center_ok_def report_peers_def center_remove_peer_def get_global_peer_map_def digest_ok_def Let_def
    group_mut_def split: option.splits if_splits)

interpretation center: transition_system "\<lambda>pc. pc = []" "\<lambda>pc pc'. \<exists>op. pc' = center_apply K op pc" center_ok for K
  by unfold_locales (auto simp: center_apply_ok, simp add: center_ok_def)

section \<open>Properties\<close>

text \<open>
  C23. A client is told that its map is unchanged only when it is: in every reachable peer center the
  empty answer is given exactly for a non-zero digest equal to the digest of the network's current
  map, and any other request is answered with the whole map and that digest (or with the empty map of
  a network nobody has reported to).
\<close>

theorem unchanged_answer_is_sound:
  assumes "reach (\<lambda>pc. pc = []) (\<lambda>pc pc'. \<exists>op. pc' = center_apply K op pc) pc"
    and "dec_global_map_request K bs = Some digest" and "jget pc key = Some g" and "g \<noteq> default_center_group"
  shows "fst (get_global_peer_map K key bs pc) = Inr (enc_global_map_response K
     (if digest = calc_digest_internal (pg_global_peer_map g) \<and> digest \<noteq> 0
      then \<lparr>global_peer_map = [], gm_digest = None\<rparr>
      else \<lparr>global_peer_map = group_by_source (pg_global_peer_map g),
            gm_digest = Some (calc_digest_internal (pg_global_peer_map g))\<rparr>))"
proof -
  have "center_ok pc" by (rule center.reach_inv [OF assms(1)])
  then have "pg_digest g = calc_digest_internal (pg_global_peer_map g)"
    using assms(3,4) by (auto simp: center_ok_def digest_ok_def)
  then show ?thesis by (simp add: get_global_peer_map_def assms group_mut_def Let_def) auto
qed

theorem unchanged_answer_is_sound_witness:
  "\<exists>pc g. jget pc [110] = Some g \<and> fst (get_global_peer_map (toy_codec\<lparr>dec_global_map_request := \<lambda>_. Some 0,
       dec_report_peers := \<lambda>_. Some \<lparr>rpr_my_peer_id = 5, rpr_peer_infos = None\<rparr>\<rparr>) [110] [] pc) = Inr []"
proof -
  let ?K = "toy_codec\<lparr>dec_global_map_request := \<lambda>_. Some 0, dec_report_peers := \<lambda>_. Some \<lparr>rpr_my_peer_id = 5, rpr_peer_infos = None\<rparr>\<rparr>"
  let ?pc = "center_apply ?K (Report 9 [110] 5 []) []"
  have "reach (\<lambda>pc. pc = []) (\<lambda>pc pc'. \<exists>op. pc' = center_apply ?K op pc) ?pc"
    by (rule reach_step [OF reach_init], rule refl, rule exI, rule refl)
  moreover obtain g where g: "jget ?pc [110] = Some g" "g \<noteq> default_center_group"
    by (simp add: report_peers_def default_center_group_def group_mut_def Let_def jset_def)
  ultimately have "fst (get_global_peer_map ?K [110] [] ?pc) = Inr []"
    using unchanged_answer_is_sound [of ?K ?pc "[]" 0 "[110]" g] by (simp add: toy_codec_def)
  with g(1) show ?thesis by blast
qed

section \<open>The answer\<close>

lemma by_key_lookup [simp]:
  assumes "jwf m"
  shows "jget (by_key m) k = jget m k" and "jwf (by_key m)"
proof -
  have "distinct (map fst m)" using assms by (simp add: jwf_def)
  then show wf: "jwf (by_key m)"
    unfolding jwf_def by_key_def by (metis distinct_map distinct_sort set_sort)
  show "jget (by_key m) k = jget m k"
  proof (cases "jget m k")
    case None
    then have "k \<notin> fst ` set (by_key m)" by (simp add: jget_def map_of_eq_None_iff by_key_def)
    then have "jget (by_key m) k = None" by (simp add: jget_def map_of_eq_None_iff)
    then show ?thesis using None by simp
  next
    case (Some v)
    then have "(k, v) \<in> set (by_key m)" using jentries_get [OF assms] by (simp add: by_key_def)
    then show ?thesis using jentries_get [OF wf] Some by simp
  qed
qed

definition nested_wf :: "(peer_id, (peer_id, 'a) jmap) jmap \<Rightarrow> bool" where
  "nested_wf acc \<longleftrightarrow> jwf acc \<and> (\<forall>s d. jget acc s = Some d \<longrightarrow> jwf d)"

definition nested_get :: "(peer_id, (peer_id, 'a) jmap) jmap \<Rightarrow> src_dst_pair \<Rightarrow> 'a option" where
  "nested_get acc p = (case jget acc (pair_src p) of None \<Rightarrow> None | Some d \<Rightarrow> jget d (pair_dst p))"

lemma add_source_spec:
  assumes "nested_wf acc"
  shows "nested_wf (add_source (p, e) acc)"
    and "nested_get (add_source (p, e) acc) q = (if q = p then Some (pe_info e) else nested_get acc q)"
  using assms by (auto simp: add_source_def nested_wf_def nested_get_def Let_def split: option.splits)

lemma fold_add_source:
  assumes "nested_wf acc" and "jwf m"
  shows "nested_wf (fold add_source m acc) \<and>
    nested_get (fold add_source m acc) q =
      (case jget m q of Some e \<Rightarrow> Some (pe_info e) | None \<Rightarrow> nested_get acc q)"
  using assms
proof (induction m arbitrary: acc)
  case (Cons x m)
  obtain p e where x: "x = (p, e)" by (cases x)
  have m: "jwf m" "jget m p = None" using Cons.prems(2) by (auto simp: jwf_def x jget_def map_of_eq_None_iff)
  from Cons.IH [OF add_source_spec(1) [OF Cons.prems(1)] m(1), of p e]
  show ?case using Cons.prems(1) m(2) by (auto simp: x add_source_spec split: option.splits)
qed simp

text \<open>
  The global map answer is the reported map: for every pair of peers, the latency the answer lists
  under the source and the destination is the one on record, and there are no other entries.
\<close>

theorem global_map_is_report_map:
  assumes "jwf m"
  shows "nested_get (group_by_source m) p = map_option pe_info (jget m p)"
proof -
  show ?thesis
    using fold_add_source [of "[]" m p, OF _ assms]
    by (auto simp: group_by_source_def nested_wf_def nested_get_def split: option.splits)
qed

theorem global_map_is_report_map_witness:
  "nested_get (group_by_source [(\<lparr>pair_src = 5, pair_dst = 6\<rparr>, \<lparr>pe_info = \<lparr>latency_ms = 12\<rparr>, pe_update_time_ms = 0\<rparr>)])
     \<lparr>pair_src = 5, pair_dst = 6\<rparr> = Some \<lparr>latency_ms = 12\<rparr>"
  by (subst global_map_is_report_map) (simp_all add: jwf_def)

end
