(* ===== verification/RpcCore.thy ===== *)
theory RpcCore
  imports RouteState PeerCenter
begin

unbundle bit_operations_syntax

text \<open>
  The RPC core of \<^verbatim>\<open>wasm/src/rpc.rs\<close>: reassembly of fragmented requests, dispatch to the route table
  and the peer center, outstanding route transactions and their expiry. \<open>K\<close> is the generated codec,
  \<open>seed\<close> the randomness of a new route group, \<open>clock\<close> the value of \<open>Date.now()\<close> inside the core, and a
  transaction id is picked from a list of random draws. A \<open>usize\<close> is a natural number; the
  saturating operations are those of the 32-bit type.
\<close>

section \<open>State\<close>

definition MAX_RPC_PIECES :: nat where "MAX_RPC_PIECES = 32768"
definition MAX_PENDING_TRANSACTIONS_PER_PEER :: nat where "MAX_PENDING_TRANSACTIONS_PER_PEER = 64"
definition MAX_PENDING_BYTES :: nat where "MAX_PENDING_BYTES = 32 * 1024 * 1024"
definition MAX_PENDING_PIECES :: nat where "MAX_PENDING_PIECES = 32768"
definition RPC_FRAGMENT_TTL_MS :: nat where "RPC_FRAGMENT_TTL_MS = 10000"
definition ROUTE_RPC_TIMEOUT_MS :: nat where "ROUTE_RPC_TIMEOUT_MS = 3000"
definition PEER_CENTER_TTL_SECONDS :: nat where "PEER_CENTER_TTL_SECONDS = 180"
definition RESULT_HANDLED :: byte where "RESULT_HANDLED = 1"
definition RESULT_ROUTE :: byte where "RESULT_ROUTE = 2"
definition RESULT_ROUTE_SESSION :: byte where "RESULT_ROUTE_SESSION = 3"

lemmas rpc_consts [edge_simps] = MAX_RPC_PIECES_def MAX_PENDING_TRANSACTIONS_PER_PEER_def MAX_PENDING_BYTES_def
  MAX_PENDING_PIECES_def RPC_FRAGMENT_TTL_MS_def ROUTE_RPC_TIMEOUT_MS_def PEER_CENTER_TTL_SECONDS_def
  RESULT_HANDLED_def RESULT_ROUTE_def RESULT_ROUTE_SESSION_def

record rpc_key =
  rk_network :: ustring
  rk_peer_id :: peer_id
  rk_transaction_id :: u64
  rk_is_request :: bool

record pending_rpc =
  pr_total_pieces :: u32
  pr_pieces :: "bytes option list"
  pr_first :: "rpc_packet option"
  pr_received_pieces :: nat
  pr_body_bytes :: nat
  pr_updated_at_ms :: nat

record outstanding_route =
  or_deadline_ms :: nat
  or_peer_info_versions :: "(peer_id \<times> u32) list"
  or_topology_version :: "u64 option"

datatype merged_packet = Pending | Complete rpc_packet

record wasm_rpc_core =
  rc_routes :: route_state
  rc_peer_center :: peer_center
  rc_configured_groups :: "ustring list"
  rc_peer_initiator :: "(ustring \<times> peer_id, bool) jmap"
  rc_pending :: "(rpc_key, pending_rpc) jmap"
  rc_pending_bytes :: nat
  rc_pending_pieces :: nat
  rc_outstanding_routes :: "(rpc_key, outstanding_route) jmap"
  rc_public_key :: bytes
  rc_hostname :: ustring
  rc_server_peer_id :: peer_id
  rc_avoid_relay_data :: bool

definition sat_add32 :: "nat \<Rightarrow> nat \<Rightarrow> nat" where
  "sat_add32 a b = min (a + b) (2 ^ 32 - 1)"

definition new_rpc_core :: "bytes \<Rightarrow> ustring \<Rightarrow> peer_id \<Rightarrow> wasm_rpc_core res" where
  "new_rpc_core public_key host sid =
     (if length public_key \<noteq> 32 then raise ''Noise public key must be 32 bytes''
      else if sid = 0 then raise ''server peer id must not be zero''
      else Inr \<lparr>rc_routes = new_route_state sid, rc_peer_center = [], rc_configured_groups = [],
             rc_peer_initiator = [], rc_pending = [], rc_pending_bytes = 0, rc_pending_pieces = 0,
             rc_outstanding_routes = [], rc_public_key = public_key, rc_hostname = host,
             rc_server_peer_id = sid, rc_avoid_relay_data = False\<rparr>)"

section \<open>Peers and the relay's own info\<close>

text \<open>A route operation run inside the core.\<close>

definition on_routes :: "(route_state \<Rightarrow> 'a \<times> route_state) \<Rightarrow> wasm_rpc_core \<Rightarrow> 'a \<times> wasm_rpc_core" where
  "on_routes f c = (let (r, rs) = f (rc_routes c) in (r, c\<lparr>rc_routes := rs\<rparr>))"

fun set_avoid_groups :: "group_seed \<Rightarrow> bool \<Rightarrow> ustring list \<Rightarrow> wasm_rpc_core \<Rightarrow> unit res \<times> wasm_rpc_core" where
  "set_avoid_groups seed enabled [] c = (Inr (), c)"
| "set_avoid_groups seed enabled (key # keys) c =
     (case on_routes (set_my_avoid_relay_data seed key enabled) c of
        (Inl e, c') \<Rightarrow> (Inl e, c')
      | (Inr _, c') \<Rightarrow> set_avoid_groups seed enabled keys c')"

definition set_avoid_relay_data :: "group_seed \<Rightarrow> bool \<Rightarrow> wasm_rpc_core \<Rightarrow> unit res \<times> wasm_rpc_core" where
  "set_avoid_relay_data seed enabled c =
     set_avoid_groups seed enabled (rc_configured_groups c) (c\<lparr>rc_avoid_relay_data := enabled\<rparr>)"

definition core_add_peer ::
    "group_seed \<Rightarrow> ustring \<Rightarrow> peer_id \<Rightarrow> bytes \<Rightarrow> nat \<Rightarrow> wasm_rpc_core \<Rightarrow> unit res \<times> wasm_rpc_core" where
  "core_add_peer seed network pid remote_public_key now c =
     (let finish = (\<lambda>c. (Inr (), c\<lparr>rc_peer_initiator := jset (network, pid) False (rc_peer_initiator c)\<rparr>))
      in case on_routes (add_peer seed network pid remote_public_key now) c of
           (Inl e, c1) \<Rightarrow> (Inl e, c1)
         | (Inr _, c1) \<Rightarrow>
             if network \<in> set (rc_configured_groups c1) then finish c1
             else
               let c2 = c1\<lparr>rc_configured_groups := network # rc_configured_groups c1\<rparr>
               in case on_routes (set_my_info_field seed network (ustr ''hostname'') (rc_hostname c2)) c2 of
                    (Inl e, c3) \<Rightarrow> (Inl e, c3)
                  | (Inr _, c3) \<Rightarrow>
                      (case on_routes (set_my_noise_public_key seed network (rc_public_key c3)) c3 of
                         (Inl e, c4) \<Rightarrow> (Inl e, c4)
                       | (Inr _, c4) \<Rightarrow>
                           if \<not> rc_avoid_relay_data c4 then finish c4
                           else (case on_routes (set_my_avoid_relay_data seed network True) c4 of
                                   (Inl e, c5) \<Rightarrow> (Inl e, c5)
                                 | (Inr _, c5) \<Rightarrow> finish c5)))"

section \<open>Reassembly\<close>

definition remove_pending :: "rpc_key \<Rightarrow> wasm_rpc_core \<Rightarrow> wasm_rpc_core" where
  "remove_pending key c =
     (case jget (rc_pending c) key of
        None \<Rightarrow> c
      | Some p \<Rightarrow> c\<lparr>rc_pending := jdel key (rc_pending c),
                   rc_pending_bytes := rc_pending_bytes c - pr_body_bytes p,
                   rc_pending_pieces := rc_pending_pieces c - unat (pr_total_pieces p)\<rparr>)"

definition clean_pending :: "nat \<Rightarrow> wasm_rpc_core \<Rightarrow> wasm_rpc_core" where
  "clean_pending now c =
     fold remove_pending
       (jkeys (jretain (\<lambda>_ p. now - pr_updated_at_ms p \<ge> RPC_FRAGMENT_TTL_MS) (rc_pending c))) c"

definition clean_rpc_state :: "nat \<Rightarrow> wasm_rpc_core \<Rightarrow> wasm_rpc_core" where
  "clean_rpc_state now c =
     (let c1 = fold remove_pending
          (jkeys (jretain (\<lambda>_ p. now - pr_updated_at_ms p \<ge> RPC_FRAGMENT_TTL_MS) (rc_pending c))) c
      in c1\<lparr>rc_outstanding_routes := jretain (\<lambda>_ r. now \<le> or_deadline_ms r) (rc_outstanding_routes c1)\<rparr>)"

definition core_remove_peer :: "group_seed \<Rightarrow> ustring \<Rightarrow> peer_id \<Rightarrow> wasm_rpc_core \<Rightarrow> wasm_rpc_core" where
  "core_remove_peer seed network pid c =
     (let c1 = c\<lparr>rc_routes := remove_peer seed network pid (rc_routes c),
                 rc_peer_center := center_remove_peer network pid (rc_peer_center c),
                 rc_peer_initiator := jdel (network, pid) (rc_peer_initiator c)\<rparr>;
          c2 = fold remove_pending
            (filter (\<lambda>k. rk_network k = network \<and> rk_peer_id k = pid) (jkeys (rc_pending c1))) c1
      in c2\<lparr>rc_outstanding_routes :=
           jretain (\<lambda>k _. rk_network k \<noteq> network \<or> rk_peer_id k \<noteq> pid) (rc_outstanding_routes c2)\<rparr>)"

definition rpc_key_of :: "ustring \<Rightarrow> peer_id \<Rightarrow> u64 \<Rightarrow> bool \<Rightarrow> rpc_key" where
  "rpc_key_of network pid tid req =
     \<lparr>rk_network = network, rk_peer_id = pid, rk_transaction_id = tid, rk_is_request = req\<rparr>"

definition pieces_body :: "bytes option list \<Rightarrow> bytes option" where
  "pieces_body ps = (if None \<in> set ps then None else Some (concat (map the ps)))"

text \<open>The part of \<open>merge_packet\<close> after the entry for \<open>key\<close> exists: the piece is stored, and the message taken out when complete.\<close>

definition store_piece ::
    "rpc_key \<Rightarrow> rpc_packet \<Rightarrow> nat \<Rightarrow> wasm_rpc_core \<Rightarrow> merged_packet res \<times> wasm_rpc_core" where
  "store_piece key pkt now c =
     (case jget (rc_pending c) key of
        None \<Rightarrow> (raise ''pending RPC state disappeared during merge'', c)
      | Some p \<Rightarrow>
          let i = unat (piece_idx pkt);
              previous = (case pr_pieces p ! i of None \<Rightarrow> 0 | Some b \<Rightarrow> length b);
              next_total = sat_add32 (rc_pending_bytes c - previous) (length (rp_body pkt))
          in if next_total > MAX_PENDING_BYTES
             then (raise ''pending fragmented RPC byte limit exceeded'', remove_pending key c)
             else
               let p' = p\<lparr>pr_received_pieces := (if pr_pieces p ! i = None then pr_received_pieces p + 1
                                               else pr_received_pieces p),
                        pr_body_bytes := sat_add32 (pr_body_bytes p - previous) (length (rp_body pkt)),
                        pr_pieces := (pr_pieces p)[i := Some (rp_body pkt)],
                        pr_updated_at_ms := now,
                        pr_first := (if i = 0 then Some pkt else pr_first p)\<rparr>;
                   c1 = c\<lparr>rc_pending_bytes := next_total, rc_pending := jset key p' (rc_pending c)\<rparr>
               in if pr_received_pieces p' \<noteq> unat (total_pieces pkt) then (Inr Pending, c1)
                  else
                    let c2 = c1\<lparr>rc_pending := jdel key (rc_pending c1),
                                rc_pending_bytes := rc_pending_bytes c1 - pr_body_bytes p',
                                rc_pending_pieces := rc_pending_pieces c1 - unat (pr_total_pieces p')\<rparr>
                    in (case pr_first p' of
                          None \<Rightarrow> (raise ''fragmented RPC first piece was not received'', c2)
                        | Some first \<Rightarrow>
                            (case pieces_body (pr_pieces p') of
                               None \<Rightarrow> (raise ''fragmented RPC contains a missing piece'', c2)
                             | Some body \<Rightarrow>
                                 (Inr (Complete (first\<lparr>rp_body := body, total_pieces := 1, piece_idx := 0\<rparr>)), c2))))"

definition new_pending :: "u32 \<Rightarrow> nat \<Rightarrow> pending_rpc" where
  "new_pending tp now = \<lparr>pr_total_pieces = tp, pr_pieces = replicate (unat tp) None, pr_first = None,
     pr_received_pieces = 0, pr_body_bytes = 0, pr_updated_at_ms = now\<rparr>"

definition merge_packet ::
    "ustring \<Rightarrow> peer_id \<Rightarrow> rpc_packet \<Rightarrow> nat \<Rightarrow> wasm_rpc_core \<Rightarrow> merged_packet res \<times> wasm_rpc_core" where
  "merge_packet network pid pkt now c =
     (let tp = total_pieces pkt
      in if tp = 0 \<and> piece_idx pkt = 0 then (Inr (Complete pkt), c)
         else if tp = 0 \<or> unat tp > MAX_RPC_PIECES \<or> piece_idx pkt \<ge> tp
         then (raise ''invalid fragmented RPC envelope'', c)
         else if tp = 1 then (Inr (Complete pkt), c)
         else if piece_idx pkt = 0 \<and> descriptor pkt = None
         then (raise ''fragmented RPC first piece is missing its descriptor'', c)
         else
           let c1 = clean_pending now c;
               key = rpc_key_of network pid (transaction_id pkt) (is_request pkt)
           in if (case jget (rc_pending c1) key of None \<Rightarrow> False | Some p \<Rightarrow> pr_total_pieces p \<noteq> tp)
              then (raise ''fragmented RPC changed its declared piece count'', remove_pending key c1)
              else if jhas (rc_pending c1) key then store_piece key pkt now c1
              else if length (filter (\<lambda>k. rk_network k = network \<and> rk_peer_id k = pid) (jkeys (rc_pending c1)))
                        \<ge> MAX_PENDING_TRANSACTIONS_PER_PEER
              then (raise ''too many pending fragmented RPC transactions'', c1)
              else if sat_add32 (rc_pending_pieces c1) (unat tp) > MAX_PENDING_PIECES
              then (raise ''pending fragmented RPC piece limit exceeded'', c1)
              else store_piece key pkt now
                     (c1\<lparr>rc_pending := jset key (new_pending tp now) (rc_pending c1),
                         rc_pending_pieces := rc_pending_pieces c1 + unat tp\<rparr>))"

section \<open>Requests\<close>

definition core_get_next_hop :: "ustring \<Rightarrow> peer_id \<Rightarrow> wasm_rpc_core \<Rightarrow> peer_id" where
  "core_get_next_hop network pid c = (case get_next_hop network pid (rc_routes c) of None \<Rightarrow> 0 | Some h \<Rightarrow> h)"

text \<open>The 16-digit lower-case hexadecimal form of a route id.\<close>

definition hex_digit :: "nat \<Rightarrow> nat" where
  "hex_digit d = (if d < 10 then 48 + d else 87 + d)"

fun hex_digits :: "nat \<Rightarrow> nat \<Rightarrow> ustring" where
  "hex_digits 0 v = []"
| "hex_digits (Suc n) v = hex_digits n (v div 16) @ [hex_digit (v mod 16)]"

definition set_peer_route_id :: "ustring \<Rightarrow> ustring \<Rightarrow> wasm_rpc_core \<Rightarrow> unit res \<times> wasm_rpc_core" where
  "set_peer_route_id network route_id c =
     (case from_str_radix (2 ^ 64) 16 route_id of
        None \<Rightarrow> (raise ''peer route id must be a 16-digit hex string'', c)
      | Some v \<Rightarrow> (Inr (), c\<lparr>rc_routes := set_persisted_route_id network (of_nat v) (rc_routes c)\<rparr>))"

definition get_peer_route_id :: "group_seed \<Rightarrow> ustring \<Rightarrow> wasm_rpc_core \<Rightarrow> ustring \<times> wasm_rpc_core" where
  "get_peer_route_id seed network c =
     (let (v, c') = on_routes (my_peer_route_id seed network) c in (hex_digits 16 (unat v), c'))"

definition validate_envelope :: "wasm_rpc_core \<Rightarrow> rpc_packet \<Rightarrow> ustring \<Rightarrow> peer_id \<Rightarrow> bool \<Rightarrow> unit res" where
  "validate_envelope c pkt network pid req =
     (if from_peer pkt \<noteq> pid \<or> to_peer pkt \<noteq> rc_server_peer_id c
      then raise ''RPC protobuf envelope does not match its EasyTier header''
      else if is_request pkt \<noteq> req then raise ''unexpected RPC request/response direction''
      else if (case descriptor pkt of None \<Rightarrow> False | Some d \<Rightarrow> domain_name d \<noteq> network)
      then raise ''cross-network RPC domain rejected''
      else Inr ())"

text \<open>\<open>CompressionAlgoPb::None\<close> is the value 1 of the enumeration.\<close>

definition validate_compression :: "rpc_packet \<Rightarrow> unit res" where
  "validate_compression pkt =
     (if (case compression_info pkt of None \<Rightarrow> False | Some ci \<Rightarrow> algo ci > 1)
      then raise ''compressed RPC is not negotiated by this relay'' else Inr ())"

definition no_compression :: rpc_compression_info where
  "no_compression = \<lparr>algo = 1, accepted_algo = 1\<rparr>"

definition is_service :: "rpc_descriptor \<Rightarrow> string \<Rightarrow> bool" where
  "is_service d expected \<longleftrightarrow> service_name d = ustr expected
     \<and> (proto_name d = ustr (''peer_rpc.'' @ expected) \<or> proto_name d = ustr ''peer_rpc''
        \<or> proto_name d = ustr expected)"

definition invalid_method_error :: "rpc_descriptor \<Rightarrow> rpc_error_kind" where
  "invalid_method_error d = InvalidMethodIndex (service_name d) (method_index d)"

definition result_with_packet :: "codec \<Rightarrow> byte \<Rightarrow> rpc_packet \<Rightarrow> bytes" where
  "result_with_packet K result pkt = result # enc_rpc_packet K pkt"

text \<open>The dispatch on the descriptor: the response body, the RPC error and the result code.\<close>

definition dispatch ::
    "codec \<Rightarrow> group_seed \<Rightarrow> nat \<Rightarrow> ustring \<Rightarrow> peer_id \<Rightarrow> rpc_descriptor \<Rightarrow> bytes \<Rightarrow> nat \<Rightarrow> wasm_rpc_core
       \<Rightarrow> (bytes \<times> rpc_error_kind option \<times> byte) res \<times> wasm_rpc_core" where
  "dispatch K seed clock network pid d request now c =
     (if is_service d ''OspfRouteRpc''
      then if method_index d \<noteq> 1 then (Inr ([], Some (invalid_method_error d), RESULT_HANDLED), c)
           else
             let initiator = (case dec_sync_request K request of None \<Rightarrow> True | Some s \<Rightarrow> \<not> sr_is_initiator s);
                 c1 = c\<lparr>rc_peer_initiator := jset (network, pid) initiator (rc_peer_initiator c)\<rparr>;
                 (r, c2) = on_routes (handle_sync_route_info_request K seed network pid request now) c1;
                 out = (case r of
                          Inr o1 \<Rightarrow> o1
                        | Inl _ \<Rightarrow> \<lparr>so_response = enc_sync_response K
                            \<lparr>sp_is_initiator = False, sp_session_id = 0, sp_error = Some Stopped\<rparr>,
                            so_route_changed = False, so_session_changed = False\<rparr>)
             in (Inr (so_response out, None,
                   if so_route_changed out then RESULT_ROUTE
                   else if so_session_changed out then RESULT_ROUTE_SESSION else RESULT_HANDLED), c2)
      else if is_service d ''PeerCenterRpc''
      then if method_index d = 1
           then (let (r, pc) = report_peers K clock network pid request (rc_peer_center c)
                 in (bind_res r (\<lambda>b. Inr (b, None, RESULT_HANDLED)), c\<lparr>rc_peer_center := pc\<rparr>))
           else if method_index d = 2
           then (let (r, pc) = get_global_peer_map K network request (rc_peer_center c)
                 in (bind_res r (\<lambda>b. Inr (b, None, RESULT_HANDLED)), c\<lparr>rc_peer_center := pc\<rparr>))
           else (Inr ([], Some (invalid_method_error d), RESULT_HANDLED), c)
      else (Inr ([], Some (InvalidService (service_name d)), RESULT_HANDLED), c))"

definition handle_request ::
    "codec \<Rightarrow> group_seed \<Rightarrow> nat \<Rightarrow> ustring \<Rightarrow> peer_id \<Rightarrow> bytes \<Rightarrow> nat \<Rightarrow> wasm_rpc_core \<Rightarrow> bytes res \<times> wasm_rpc_core" where
  "handle_request K seed clock network pid pl now c =
     (case dec_rpc_packet K pl of
        None \<Rightarrow> (raise ''decode RpcPacket failed'', c)
      | Some pkt0 \<Rightarrow>
          (case validate_envelope c pkt0 network pid True of
             Inl e \<Rightarrow> (Inl e, c)
           | Inr _ \<Rightarrow>
               (case merge_packet network pid pkt0 now c of
                  (Inl e, c1) \<Rightarrow> (Inl e, c1)
                | (Inr Pending, c1) \<Rightarrow> (Inr [0], c1)
                | (Inr (Complete pkt), c1) \<Rightarrow>
                    (case validate_compression pkt of
                       Inl e \<Rightarrow> (Inl e, c1)
                     | Inr _ \<Rightarrow>
                         (case descriptor pkt of
                            None \<Rightarrow> (raise ''RPC request is missing its descriptor'', c1)
                          | Some d \<Rightarrow>
                              (case dec_rpc_request K (rp_body pkt) of
                                 None \<Rightarrow> (raise ''decode RpcRequest failed'', c1)
                               | Some request \<Rightarrow>
                                   (case dispatch K seed clock network pid d (rq_request request) now c1 of
                                      (Inl e, c2) \<Rightarrow> (Inl e, c2)
                                    | (Inr (body, err, result), c2) \<Rightarrow>
                                        (Inr (result_with_packet K result
                                          \<lparr>from_peer = rc_server_peer_id c2, to_peer = pid,
                                           transaction_id = transaction_id pkt, descriptor = descriptor pkt,
                                           rp_body = enc_rpc_response K
                                             \<lparr>rr_response = body, rr_error = err, runtime_us = 0\<rparr>,
                                           is_request = False, total_pieces = 1, piece_idx = 0,
                                           trace_id = trace_id pkt, compression_info = Some no_compression\<rparr>),
                                         c2))))))))"

section \<open>Responses and route updates\<close>

definition peer_initiator_of :: "wasm_rpc_core \<Rightarrow> ustring \<Rightarrow> peer_id \<Rightarrow> bool" where
  "peer_initiator_of c network pid = (case jget (rc_peer_initiator c) (network, pid) of Some b \<Rightarrow> b | None \<Rightarrow> True)"

definition drop_outstanding :: "rpc_key \<Rightarrow> wasm_rpc_core \<Rightarrow> wasm_rpc_core" where
  "drop_outstanding key c = c\<lparr>rc_outstanding_routes := jdel key (rc_outstanding_routes c)\<rparr>"

text \<open>What a complete response does to the transaction \<open>key\<close>.\<close>

definition finish_response ::
    "codec \<Rightarrow> group_seed \<Rightarrow> ustring \<Rightarrow> peer_id \<Rightarrow> rpc_key \<Rightarrow> rpc_packet \<Rightarrow> nat \<Rightarrow> wasm_rpc_core \<Rightarrow> bool res \<times> wasm_rpc_core" where
  "finish_response K seed network pid key pkt now c =
     (case validate_compression pkt of
        Inl e \<Rightarrow> (Inl e, c)
      | Inr _ \<Rightarrow>
          (case descriptor pkt of
             None \<Rightarrow> (raise ''RPC response is missing its descriptor'', c)
           | Some d \<Rightarrow>
               if \<not> is_service d ''OspfRouteRpc'' \<or> method_index d \<noteq> 1 then (Inr False, c)
               else (case dec_rpc_response K (rp_body pkt) of
                  None \<Rightarrow> (Inr False, c)
                | Some response \<Rightarrow>
                    if rr_error response \<noteq> None then (Inr True, drop_outstanding key c)
                    else (case dec_sync_response K (rr_response response) of
                       None \<Rightarrow> (Inr False, c)
                     | Some sync \<Rightarrow>
                         if sp_error sync \<noteq> None then (Inr True, drop_outstanding key c)
                         else (case jget (rc_outstanding_routes c) key of
                            None \<Rightarrow> (raise ''route synchronization transaction disappeared'', c)
                          | Some o1 \<Rightarrow>
                              let c1 = drop_outstanding key c;
                                  rs1 = on_route_session_ack seed network pid (sp_session_id sync)
                                          (peer_initiator_of c1 network pid) now (rc_routes c1);
                                  rs2 = commit_route_update seed network pid (or_peer_info_versions o1)
                                          (or_topology_version o1) now rs1
                              in (Inr True, c1\<lparr>rc_routes := rs2\<rparr>))))))"

definition handle_response ::
    "codec \<Rightarrow> group_seed \<Rightarrow> ustring \<Rightarrow> peer_id \<Rightarrow> bytes \<Rightarrow> nat \<Rightarrow> wasm_rpc_core \<Rightarrow> bool res \<times> wasm_rpc_core" where
  "handle_response K seed network pid pl now c =
     (case dec_rpc_packet K pl of
        None \<Rightarrow> (raise ''decode RpcPacket failed'', c)
      | Some pkt0 \<Rightarrow>
          (case validate_envelope c pkt0 network pid False of
             Inl e \<Rightarrow> (Inl e, c)
           | Inr _ \<Rightarrow>
               let key = rpc_key_of network pid (transaction_id pkt0) False
               in (case jget (rc_outstanding_routes c) key of
                     None \<Rightarrow> (Inr False, c)
                   | Some route \<Rightarrow>
                       if now > or_deadline_ms route then (Inr False, drop_outstanding key c)
                       else (case merge_packet network pid pkt0 now c of
                          (Inl e, c1) \<Rightarrow> (Inl e, c1)
                        | (Inr Pending, c1) \<Rightarrow> (Inr False, c1)
                        | (Inr (Complete pkt), c1) \<Rightarrow> finish_response K seed network pid key pkt now c1))))"

text \<open>At most 16 draws; \<open>None\<close> is a failing random source, and the sign bit is masked off.\<close>

fun next_transaction_id :: "ustring \<Rightarrow> peer_id \<Rightarrow> u64 option list \<Rightarrow> wasm_rpc_core \<Rightarrow> u64 res" where
  "next_transaction_id network pid [] c = raise ''failed to allocate a unique RPC transaction id''"
| "next_transaction_id network pid (None # ds) c = raise ''getrandom failed''"
| "next_transaction_id network pid (Some w # ds) c =
     (let tid = w AND 0x7fffffffffffffff
      in if tid \<noteq> 0 \<and> \<not> jhas (rc_outstanding_routes c) (rpc_key_of network pid tid False) then Inr tid
         else next_transaction_id network pid ds c)"

definition build_route_update ::
    "codec \<Rightarrow> group_seed \<Rightarrow> u64 option list \<Rightarrow> ustring \<Rightarrow> peer_id \<Rightarrow> u64 \<Rightarrow> bool \<Rightarrow> nat \<Rightarrow> wasm_rpc_core
       \<Rightarrow> bytes res \<times> wasm_rpc_core" where
  "build_route_update K seed draws network pid server_session_id force_full now c =
     (let c1 = clean_rpc_state now c
      in case on_routes (build_sync_route_info_request K seed network pid server_session_id
               (peer_initiator_of c1 network pid) force_full now) c1 of
           (Inl e, c2) \<Rightarrow> (Inl e, c2)
         | (Inr u, c2) \<Rightarrow>
             (case next_transaction_id network pid (take 16 draws) c2 of
                Inl e \<Rightarrow> (Inl e, c2)
              | Inr tid \<Rightarrow>
                  (Inr (enc_rpc_packet K
                     \<lparr>from_peer = rc_server_peer_id c2, to_peer = pid, transaction_id = tid,
                      descriptor = Some \<lparr>domain_name = network, proto_name = ustr ''OspfRouteRpc'',
                        service_name = ustr ''OspfRouteRpc'', method_index = 1\<rparr>,
                      rp_body = enc_rpc_request K
                        \<lparr>rq_request = ru_payload u, timeout_ms = of_nat ROUTE_RPC_TIMEOUT_MS\<rparr>,
                      is_request = True, total_pieces = 1, piece_idx = 0, trace_id = 0,
                      compression_info = Some no_compression\<rparr>),
                   c2\<lparr>rc_outstanding_routes := jset (rpc_key_of network pid tid False)
                     \<lparr>or_deadline_ms = min (now + ROUTE_RPC_TIMEOUT_MS) (2 ^ 64 - 1),
                      or_peer_info_versions = ru_peer_info_versions u,
                      or_topology_version = ru_topology_version u\<rparr> (rc_outstanding_routes c2)\<rparr>)))"

text \<open>The outcome is serialised to JSON and parsed by the host; the model hands over the record.\<close>

definition clean_expired :: "nat \<Rightarrow> nat \<Rightarrow> wasm_rpc_core \<Rightarrow> sweep_outcome \<times> wasm_rpc_core" where
  "clean_expired clock now c =
     (let (out, c1) = on_routes (sweep_expired_route_info now) (clean_rpc_state now c)
      in (out, c1\<lparr>rc_peer_center := clean_outdated clock PEER_CENTER_TTL_SECONDS (rc_peer_center c1)\<rparr>))"

section \<open>Library lemmas\<close>

definition filled :: "bytes option list \<Rightarrow> nat" where
  "filled ps = length (filter (\<lambda>x. x \<noteq> None) ps)"

definition body_size :: "bytes option list \<Rightarrow> nat" where
  "body_size ps = sum_list (map (\<lambda>x. case x of None \<Rightarrow> 0 | Some b \<Rightarrow> length b) ps)"

definition pending_ok :: "pending_rpc \<Rightarrow> bool" where
  "pending_ok p \<longleftrightarrow> 2 \<le> unat (pr_total_pieces p) \<and> unat (pr_total_pieces p) \<le> MAX_RPC_PIECES
     \<and> length (pr_pieces p) = unat (pr_total_pieces p)
     \<and> pr_received_pieces p = filled (pr_pieces p) \<and> pr_received_pieces p < unat (pr_total_pieces p)
     \<and> pr_body_bytes p = body_size (pr_pieces p) \<and> (pr_first p = None \<longleftrightarrow> pr_pieces p ! 0 = None)"

definition peer_load :: "ustring \<Rightarrow> peer_id \<Rightarrow> (rpc_key, pending_rpc) jmap \<Rightarrow> nat" where
  "peer_load network pid m = length (filter (\<lambda>k. rk_network k = network \<and> rk_peer_id k = pid) (jkeys m))"

definition pending_inv :: "wasm_rpc_core \<Rightarrow> bool" where
  "pending_inv c \<longleftrightarrow> jwf (rc_pending c) \<and> (\<forall>k p. jget (rc_pending c) k = Some p \<longrightarrow> pending_ok p)
     \<and> rc_pending_bytes c = jsum pr_body_bytes (rc_pending c) \<and> rc_pending_bytes c \<le> MAX_PENDING_BYTES
     \<and> rc_pending_pieces c = jsum (unat \<circ> pr_total_pieces) (rc_pending c) \<and> rc_pending_pieces c \<le> MAX_PENDING_PIECES
     \<and> (\<forall>n i. peer_load n i (rc_pending c) \<le> MAX_PENDING_TRANSACTIONS_PER_PEER)"

lemma filled_update:
  "i < length ps \<Longrightarrow> filled (ps[i := Some b]) = (if ps ! i = None then Suc (filled ps) else filled ps)"
  unfolding filled_def by (induction ps arbitrary: i) (auto split: nat.splits)

lemma body_size_update:
  "i < length ps \<Longrightarrow> body_size (ps[i := Some b]) =
     body_size ps - (case ps ! i of None \<Rightarrow> 0 | Some x \<Rightarrow> length x) + length b
   \<and> (case ps ! i of None \<Rightarrow> 0 | Some x \<Rightarrow> length x) \<le> body_size ps"
proof (induction ps arbitrary: i)
  case (Cons x ps)
  show ?case
  proof (cases i)
    case 0
    then show ?thesis by (simp add: body_size_def)
  next
    case (Suc j)
    with Cons.prems have "j < length ps" by simp
    from Cons.IH [OF this] Suc show ?thesis by (simp add: body_size_def)
  qed
qed simp

lemma filled_le: "filled ps \<le> length ps"
  by (simp add: filled_def)

lemma filled_full: "filled ps = length ps \<longleftrightarrow> None \<notin> set ps"
proof (induction ps)
  case (Cons x ps)
  have "length (filter (\<lambda>x. x \<noteq> None) ps) \<le> length ps" by simp
  then have "length (filter (\<lambda>x. x \<noteq> None) ps) \<noteq> Suc (length ps)" by linarith
  with Cons show ?case by (cases x) (simp_all add: filled_def)
qed (simp add: filled_def)

lemma peer_load_jdel: "peer_load n i (jdel k m) \<le> peer_load n i m"
  unfolding peer_load_def jkeys_def jdel_def AList.delete_eq
  by (induction m) auto

lemma peer_load_jset:
  "peer_load n i (jset k v m) = (if jhas m k \<or> \<not> (rk_network k = n \<and> rk_peer_id k = i) then peer_load n i m
     else Suc (peer_load n i m))"
proof (cases "jhas m k")
  case True
  then have "map fst (jset k v m) = map fst m"
    by (simp add: jset_def jkeys_iff [symmetric] jkeys_def update_keys)
  with True show ?thesis by (simp add: peer_load_def jkeys_def)
next
  case False
  then show ?thesis by (simp add: jset_new peer_load_def jkeys_def)
qed

lemma remove_pending_inv:
  assumes "pending_inv c"
  shows "pending_inv (remove_pending key c)"
proof (cases "jget (rc_pending c) key")
  case None
  with assms show ?thesis by (simp add: remove_pending_def)
next
  case (Some p)
  have wf: "jwf (rc_pending c)" using assms by (simp add: pending_inv_def)
  have load: "peer_load n i (jdel key (rc_pending c)) \<le> MAX_PENDING_TRANSACTIONS_PER_PEER" for n i
    using assms peer_load_jdel [of n i key "rc_pending c"] by (auto simp: pending_inv_def intro: order_trans)
  show ?thesis
    using assms Some load jsum_jdel [OF wf Some]
    by (auto simp: remove_pending_def pending_inv_def split: if_splits)
qed

lemma fold_remove_pending_inv: "pending_inv c \<Longrightarrow> pending_inv (fold remove_pending ks c)"
  by (induction ks arbitrary: c) (simp_all add: remove_pending_inv)

lemma pending_inv_other [simp]:
  "pending_inv (c\<lparr>rc_routes := a\<rparr>) = pending_inv c" "pending_inv (c\<lparr>rc_peer_center := b\<rparr>) = pending_inv c"
  "pending_inv (c\<lparr>rc_peer_initiator := d\<rparr>) = pending_inv c" "pending_inv (c\<lparr>rc_outstanding_routes := e\<rparr>) = pending_inv c"
  "pending_inv (c\<lparr>rc_configured_groups := g\<rparr>) = pending_inv c" "pending_inv (c\<lparr>rc_avoid_relay_data := h\<rparr>) = pending_inv c"
  by (simp_all add: pending_inv_def)

lemma clean_pending_inv: "pending_inv c \<Longrightarrow> pending_inv (clean_pending now c)"
  by (simp add: clean_pending_def fold_remove_pending_inv)


text \<open>The entry a stored piece leaves.\<close>

definition add_piece :: "rpc_packet \<Rightarrow> nat \<Rightarrow> pending_rpc \<Rightarrow> pending_rpc" where
  "add_piece pkt now p =
     (let i = unat (piece_idx pkt)
      in p\<lparr>pr_received_pieces := filled ((pr_pieces p)[i := Some (rp_body pkt)]),
           pr_body_bytes := body_size ((pr_pieces p)[i := Some (rp_body pkt)]),
           pr_pieces := (pr_pieces p)[i := Some (rp_body pkt)], pr_updated_at_ms := now,
           pr_first := (if i = 0 then Some pkt else pr_first p)\<rparr>)"

definition half_ok :: "pending_rpc \<Rightarrow> bool" where
  "half_ok p \<longleftrightarrow> 2 \<le> unat (pr_total_pieces p) \<and> unat (pr_total_pieces p) \<le> MAX_RPC_PIECES
     \<and> length (pr_pieces p) = unat (pr_total_pieces p) \<and> pr_received_pieces p = filled (pr_pieces p)
     \<and> pr_body_bytes p = body_size (pr_pieces p) \<and> (pr_first p = None \<longleftrightarrow> pr_pieces p ! 0 = None)"

lemma pending_half: "pending_ok p \<longleftrightarrow> half_ok p \<and> pr_received_pieces p < unat (pr_total_pieces p)"
  by (auto simp: pending_ok_def half_ok_def)

lemma half_ok_add:
  assumes "half_ok p" and "unat (piece_idx pkt) < unat (pr_total_pieces p)"
  shows "half_ok (add_piece pkt now p)"
  using assms by (auto simp: half_ok_def add_piece_def Let_def nth_list_update)

lemma store_piece_conv:
  assumes p: "jget (rc_pending c) key = Some p" "half_ok p"
    and i: "unat (piece_idx pkt) < unat (pr_total_pieces p)"
    and le: "pr_body_bytes p \<le> rc_pending_bytes c" and lim: "rc_pending_bytes c \<le> MAX_PENDING_BYTES"
    and tot: "total_pieces pkt = pr_total_pieces p"
  shows "store_piece key pkt now c =
    (let p' = add_piece pkt now p; bytes' = rc_pending_bytes c - pr_body_bytes p + pr_body_bytes p'
     in if bytes' > MAX_PENDING_BYTES then (raise ''pending fragmented RPC byte limit exceeded'', remove_pending key c)
        else if pr_received_pieces p' \<noteq> unat (pr_total_pieces p)
        then (Inr Pending, c\<lparr>rc_pending_bytes := bytes', rc_pending := jset key p' (rc_pending c)\<rparr>)
        else (Inr (Complete ((the (pr_first p'))\<lparr>rp_body := concat (map the (pr_pieces p')), total_pieces := 1, piece_idx := 0\<rparr>)),
              c\<lparr>rc_pending_bytes := rc_pending_bytes c - pr_body_bytes p, rc_pending := jdel key (rc_pending c),
                rc_pending_pieces := rc_pending_pieces c - unat (pr_total_pieces p)\<rparr>))"
proof -
  let ?i = "unat (piece_idx pkt)" and ?len = "length (rp_body pkt)"
  let ?prev = "case pr_pieces p ! ?i of None \<Rightarrow> 0 | Some b \<Rightarrow> length b"
  have len: "?i < length (pr_pieces p)" using p(2) i by (simp add: half_ok_def)
  have b: "pr_body_bytes p = body_size (pr_pieces p)" "pr_received_pieces p = filled (pr_pieces p)"
    using p(2) by (simp_all add: half_ok_def)
  note bs = body_size_update [OF len, of "rp_body pkt"] and fu = filled_update [OF len, of "rp_body pkt"]
  have total': "rc_pending_bytes c - pr_body_bytes p + body_size ((pr_pieces p)[?i := Some (rp_body pkt)])
      = rc_pending_bytes c - ?prev + ?len"
    using bs le b(1) by linarith
  have le': "body_size (pr_pieces p) - ?prev + ?len \<le> rc_pending_bytes c - ?prev + ?len" using le b(1) by simp
  have half: "half_ok (add_piece pkt now p)" by (rule half_ok_add [OF p(2) i])
  have full: "None \<notin> set ((pr_pieces p)[?i := Some (rp_body pkt)]) \<and> pr_first (add_piece pkt now p) \<noteq> None"
    if "filled ((pr_pieces p)[?i := Some (rp_body pkt)]) = unat (pr_total_pieces p)"
  proof -
    have "None \<notin> set ((pr_pieces p)[?i := Some (rp_body pkt)])"
      using that p(2) filled_full [of "(pr_pieces p)[?i := Some (rp_body pkt)]"] by (simp add: half_ok_def)
    moreover have l0: "0 < length ((pr_pieces p)[?i := Some (rp_body pkt)])" using len by (subst length_list_update) linarith
    ultimately have "(pr_pieces p)[?i := Some (rp_body pkt)] ! 0 \<noteq> None"
      using nth_mem [OF l0] by metis
    moreover note \<open>None \<notin> set ((pr_pieces p)[?i := Some (rp_body pkt)])\<close>
    ultimately show ?thesis using half by (simp add: half_ok_def add_piece_def Let_def)
  qed
  have rec: "(if pr_pieces p ! ?i = None then pr_received_pieces p + 1 else pr_received_pieces p) =
      filled ((pr_pieces p)[?i := Some (rp_body pkt)])"
    using fu b(2) by simp
  show ?thesis
  proof (cases "rc_pending_bytes c - ?prev + ?len > MAX_PENDING_BYTES")
    case True
    then have "sat_add32 (rc_pending_bytes c - ?prev) ?len > MAX_PENDING_BYTES"
      by (simp add: sat_add32_def MAX_PENDING_BYTES_def)
    with True show ?thesis
      using total' by (simp add: store_piece_def p(1) Let_def add_piece_def)
  next
    case False
    then have sat: "sat_add32 (rc_pending_bytes c - ?prev) ?len = rc_pending_bytes c - ?prev + ?len"
      "sat_add32 (body_size (pr_pieces p) - ?prev) ?len = body_size ((pr_pieces p)[?i := Some (rp_body pkt)])"
      using le' bs by (simp_all add: sat_add32_def MAX_PENDING_BYTES_def)
    have "rc_pending_bytes c - ?prev + ?len - body_size ((pr_pieces p)[?i := Some (rp_body pkt)]) =
        rc_pending_bytes c - pr_body_bytes p" using total' by linarith
    with False sat rec full show ?thesis
      using total'
      by (auto simp: store_piece_def p(1) Let_def tot b(1) add_piece_def pieces_body_def jdel_jset)
  qed
qed


lemma merge_cases_inv:
  assumes inv: "pending_inv c" and p: "jget (rc_pending c) key = Some p" "half_ok p"
    and i: "unat (piece_idx pkt) < unat (pr_total_pieces p)" and tot: "total_pieces pkt = pr_total_pieces p"
  shows "pending_inv (snd (store_piece key pkt now c))"
proof -
  have wf: "jwf (rc_pending c)" using inv by (simp add: pending_inv_def)
  have le: "pr_body_bytes p \<le> rc_pending_bytes c" "rc_pending_bytes c \<le> MAX_PENDING_BYTES"
    using inv jget_le_jsum [OF p(1), of pr_body_bytes] by (simp_all add: pending_inv_def)
  have half: "half_ok (add_piece pkt now p)" by (rule half_ok_add [OF p(2) i])
  have tp: "pr_total_pieces (add_piece pkt now p) = pr_total_pieces p" by (simp add: add_piece_def Let_def)
  have rem: "c\<lparr>rc_pending_bytes := rc_pending_bytes c - pr_body_bytes p, rc_pending := jdel key (rc_pending c),
      rc_pending_pieces := rc_pending_pieces c - unat (pr_total_pieces p)\<rparr> = remove_pending key c"
    by (simp add: remove_pending_def p(1))
  have lt: "pr_received_pieces (add_piece pkt now p) < unat (pr_total_pieces p)"
    if "pr_received_pieces (add_piece pkt now p) \<noteq> unat (pr_total_pieces p)"
    using that half filled_le [of "pr_pieces (add_piece pkt now p)"] by (simp add: half_ok_def tp)
  have load: "peer_load n j (jset key q (rc_pending c)) \<le> MAX_PENDING_TRANSACTIONS_PER_PEER" for n j q
    using inv p(1) by (simp add: pending_inv_def peer_load_jset jhas_Some)
  show ?thesis
    using inv half lt load remove_pending_inv [OF inv, of key] jsum_jset [OF p(1), of pr_body_bytes]
      jsum_jset [OF p(1), of "unat \<circ> pr_total_pieces"] jget_le_jsum [OF p(1), of "unat \<circ> pr_total_pieces"]
    unfolding store_piece_conv [OF p i le tot] rem
    by (auto simp: Let_def pending_inv_def pending_half tp)
qed


lemma new_pending_ok:
  "2 \<le> unat tp \<Longrightarrow> unat tp \<le> MAX_RPC_PIECES \<Longrightarrow> pending_ok (new_pending tp now)"
  by (auto simp: pending_ok_def new_pending_def filled_def body_size_def)

definition open_entry :: "rpc_key \<Rightarrow> u32 \<Rightarrow> nat \<Rightarrow> wasm_rpc_core \<Rightarrow> wasm_rpc_core" where
  "open_entry key tp now c = c\<lparr>rc_pending := jset key (new_pending tp now) (rc_pending c),
     rc_pending_pieces := rc_pending_pieces c + unat tp\<rparr>"

lemma open_entry_inv:
  assumes inv: "pending_inv c" and new: "\<not> jhas (rc_pending c) key"
    and load: "peer_load (rk_network key) (rk_peer_id key) (rc_pending c) < MAX_PENDING_TRANSACTIONS_PER_PEER"
    and cap: "rc_pending_pieces c + unat tp \<le> MAX_PENDING_PIECES"
    and tp: "2 \<le> unat tp" "unat tp \<le> MAX_RPC_PIECES"
  shows "pending_inv (open_entry key tp now c)"
proof -
  have "peer_load n i (jset key q (rc_pending c)) \<le> MAX_PENDING_TRANSACTIONS_PER_PEER" for n i q
    using inv load by (auto simp: pending_inv_def peer_load_jset)
  then show ?thesis
    using inv new cap new_pending_ok [OF tp]
    by (auto simp: open_entry_def pending_inv_def jsum_jset_new) (simp_all add: new_pending_def)
qed

lemma word_two_le: "tp \<noteq> 0 \<Longrightarrow> tp \<noteq> 1 \<Longrightarrow> 2 \<le> unat (tp :: u32)"
  by (metis One_nat_def Suc_1 Suc_leI le_neq_implies_less nat_less_le not_less_eq_eq unat_1 unat_eq_zero word_unat_eq_iff zero_le)

lemma piece_idx_less: "\<not> tp \<le> i \<Longrightarrow> unat (i :: u32) < unat tp"
  by (simp add: word_le_nat_alt)

text \<open>The errors that only a corrupted pending table could raise.\<close>

definition internal_errors :: "js_error set" where
  "internal_errors = {JsError ''pending RPC state disappeared during merge'' [],
     JsError ''completed RPC state disappeared during merge'' [],
     JsError ''fragmented RPC first piece was not received'' [],
     JsError ''fragmented RPC contains a missing piece'' []}"

text \<open>The branches of \<open>merge_packet\<close> that touch the pending table.\<close>

lemma merge_packet_branches:
  fixes key now c
  defines "c1 \<equiv> clean_pending now c"
  assumes inv: "pending_inv c" and r: "merge_packet network pid pkt now c = (r, c')"
    and key: "key = rpc_key_of network pid (transaction_id pkt) (is_request pkt)"
  shows "c' = c \<and> (r \<in> Inl ` (- internal_errors) \<or> r = Inr (Complete pkt)) \<or> c' = c1 \<and> r \<in> Inl ` (- internal_errors)
     \<or> c' = remove_pending key c1 \<and> r \<in> Inl ` (- internal_errors)
     \<or> (\<exists>p. jget (rc_pending c1) key = Some p \<and> pr_total_pieces p = total_pieces pkt
          \<and> unat (piece_idx pkt) < unat (total_pieces pkt) \<and> (r, c') = store_piece key pkt now c1)
     \<or> (pending_inv (open_entry key (total_pieces pkt) now c1) \<and> \<not> jhas (rc_pending c1) key
          \<and> 2 \<le> unat (total_pieces pkt) \<and> unat (piece_idx pkt) < unat (total_pieces pkt)
          \<and> unat (total_pieces pkt) \<le> MAX_RPC_PIECES
          \<and> (r, c') = store_piece key pkt now (open_entry key (total_pieces pkt) now c1))"
proof -
  let ?t = "total_pieces pkt" and ?load = "peer_load network pid (rc_pending c1)"
  have inv1: "pending_inv c1" unfolding c1_def by (rule clean_pending_inv [OF inv])
  show ?thesis
  proof (cases "?t = 0 \<or> unat ?t > MAX_RPC_PIECES \<or> piece_idx pkt \<ge> ?t \<or> ?t = 1 \<or> piece_idx pkt = 0 \<and> descriptor pkt = None")
    case True
    then have "c' = c \<and> (r \<in> Inl ` (- internal_errors) \<or> r = Inr (Complete pkt))"
      using r by (auto simp: merge_packet_def Let_def internal_errors_def split: if_splits)
    then show ?thesis by blast
  next
    case False
    then have t: "2 \<le> unat ?t" "unat ?t \<le> MAX_RPC_PIECES" "unat (piece_idx pkt) < unat ?t"
      by (auto intro: word_two_le simp: word_le_nat_alt)
    have m: "(r, c') =
       (if (case jget (rc_pending c1) key of None \<Rightarrow> False | Some p \<Rightarrow> pr_total_pieces p \<noteq> ?t)
        then (raise ''fragmented RPC changed its declared piece count'', remove_pending key c1)
        else if jhas (rc_pending c1) key then store_piece key pkt now c1
        else if ?load \<ge> MAX_PENDING_TRANSACTIONS_PER_PEER
        then (raise ''too many pending fragmented RPC transactions'', c1)
        else if sat_add32 (rc_pending_pieces c1) (unat ?t) > MAX_PENDING_PIECES
        then (raise ''pending fragmented RPC piece limit exceeded'', c1)
        else store_piece key pkt now (open_entry key ?t now c1))"
      using False unfolding r [symmetric] merge_packet_def Let_def c1_def key peer_load_def open_entry_def by auto
    show ?thesis
    proof (cases "jget (rc_pending c1) key")
      case None
      then have new: "\<not> jhas (rc_pending c1) key" by (simp add: jhas_def)
      have "pending_inv (open_entry key ?t now c1)"
        if "?load < MAX_PENDING_TRANSACTIONS_PER_PEER" "sat_add32 (rc_pending_pieces c1) (unat ?t) \<le> MAX_PENDING_PIECES"
        using that t by (intro open_entry_inv [OF inv1 new])
          (auto simp: key rpc_key_of_def sat_add32_def MAX_PENDING_PIECES_def)
      with m None new t show ?thesis by (auto simp: internal_errors_def split: if_splits)
    next
      case (Some p)
      with m t show ?thesis by (auto simp: jhas_Some internal_errors_def split: if_splits)
    qed
  qed
qed

lemma store_piece_ok:
  assumes "pending_inv c" and "jget (rc_pending c) key = Some p" and "total_pieces pkt = pr_total_pieces p"
    and "unat (piece_idx pkt) < unat (total_pieces pkt)"
  shows "pending_inv (snd (store_piece key pkt now c))"
    and "fst (store_piece key pkt now c) \<in> {Inr Pending, raise ''pending fragmented RPC byte limit exceeded''} \<or>
      (\<exists>pkt'. fst (store_piece key pkt now c) = Inr (Complete pkt'))"
proof -
  have half: "half_ok p" and i: "unat (piece_idx pkt) < unat (pr_total_pieces p)"
    using assms by (auto simp: pending_inv_def pending_half)
  show "pending_inv (snd (store_piece key pkt now c))"
    by (rule merge_cases_inv [OF assms(1,2) half i assms(3)])
  have le: "pr_body_bytes p \<le> rc_pending_bytes c" "rc_pending_bytes c \<le> MAX_PENDING_BYTES"
    using assms(1) jget_le_jsum [OF assms(2), of pr_body_bytes] by (simp_all add: pending_inv_def)
  show "fst (store_piece key pkt now c) \<in> {Inr Pending, raise ''pending fragmented RPC byte limit exceeded''} \<or>
      (\<exists>pkt'. fst (store_piece key pkt now c) = Inr (Complete pkt'))"
    unfolding store_piece_conv [OF assms(2) half i le assms(3)] by (simp add: Let_def)
qed

lemma open_entry_lookup [simp]:
  "jget (rc_pending (open_entry key tp now c)) k = (if k = key then Some (new_pending tp now) else jget (rc_pending c) k)"
  "pr_total_pieces (new_pending tp now) = tp"
  by (simp_all add: open_entry_def new_pending_def)

lemma merge_packet_inv:
  assumes "pending_inv c"
  shows "pending_inv (snd (merge_packet network pid pkt now c))"
proof -
  obtain r c' where m: "merge_packet network pid pkt now c = (r, c')" by (metis surj_pair)
  have c1: "pending_inv (clean_pending now c)" by (rule clean_pending_inv [OF assms])
  let ?key = "rpc_key_of network pid (transaction_id pkt) (is_request pkt)"
  from merge_packet_branches [OF assms m refl] consider
    "c' = c" | "c' = clean_pending now c" | "c' = remove_pending ?key (clean_pending now c)"
    | p where "jget (rc_pending (clean_pending now c)) ?key = Some p" "pr_total_pieces p = total_pieces pkt"
        "unat (piece_idx pkt) < unat (total_pieces pkt)" "(r, c') = store_piece ?key pkt now (clean_pending now c)"
    | "pending_inv (open_entry ?key (total_pieces pkt) now (clean_pending now c))"
        "unat (piece_idx pkt) < unat (total_pieces pkt)"
        "(r, c') = store_piece ?key pkt now (open_entry ?key (total_pieces pkt) now (clean_pending now c))"
    by blast
  then show ?thesis
  proof cases
    case 4
    from store_piece_ok(1) [OF c1 4(1) 4(2) [symmetric] 4(3)] 4(4) [symmetric] show ?thesis by (simp add: m) (metis snd_conv)
  next
    case 5
    have "jget (rc_pending (open_entry ?key (total_pieces pkt) now (clean_pending now c))) ?key =
        Some (new_pending (total_pieces pkt) now)" by simp
    from store_piece_ok(1) [OF 5(1) this _ 5(2)] 5(3) [symmetric] show ?thesis by (simp add: m) (metis snd_conv)
  qed (simp_all add: m assms c1 remove_pending_inv)
qed


lemma merge_packet_errors:
  assumes "pending_inv c"
  shows "fst (merge_packet network pid pkt now c) \<notin> Inl ` internal_errors"
proof -
  obtain r c' where m: "merge_packet network pid pkt now c = (r, c')" by (metis surj_pair)
  have c1: "pending_inv (clean_pending now c)" by (rule clean_pending_inv [OF assms])
  let ?key = "rpc_key_of network pid (transaction_id pkt) (is_request pkt)"
  have ok: "fst (store_piece ?key pkt now d) \<notin> Inl ` internal_errors"
    if "pending_inv d" "jget (rc_pending d) ?key = Some p" "total_pieces pkt = pr_total_pieces p"
      "unat (piece_idx pkt) < unat (total_pieces pkt)" for d p
    using store_piece_ok(2) [OF that, of now] by (auto simp: internal_errors_def)
  from merge_packet_branches [OF assms m refl] consider
    "r \<in> Inl ` (- internal_errors)" | "r = Inr (Complete pkt)"
    | p where "jget (rc_pending (clean_pending now c)) ?key = Some p" "pr_total_pieces p = total_pieces pkt"
        "unat (piece_idx pkt) < unat (total_pieces pkt)" "(r, c') = store_piece ?key pkt now (clean_pending now c)"
    | "pending_inv (open_entry ?key (total_pieces pkt) now (clean_pending now c))"
        "unat (piece_idx pkt) < unat (total_pieces pkt)"
        "(r, c') = store_piece ?key pkt now (open_entry ?key (total_pieces pkt) now (clean_pending now c))"
    by blast
  then show ?thesis
  proof cases
    case 3
    from ok [OF c1 3(1) 3(2) [symmetric] 3(3)] 3(4) [symmetric] show ?thesis by (simp add: m)
  next
    case 4
    have "jget (rc_pending (open_entry ?key (total_pieces pkt) now (clean_pending now c))) ?key =
        Some (new_pending (total_pieces pkt) now)" by simp
    from ok [OF 4(1) this _ 4(2)] 4(3) [symmetric] show ?thesis by (simp add: m)
  qed (auto simp: m)
qed

section \<open>Reachable cores\<close>

lemma on_routes_pending [simp]: "pending_inv (snd (on_routes f c)) = pending_inv c"
  by (simp add: on_routes_def case_prod_beta)

lemma on_routes_pendingD: "on_routes f c = (r, c') \<Longrightarrow> pending_inv c' = pending_inv c"
  using on_routes_pending [of f c] by simp

lemma core_add_peer_pending: "pending_inv (snd (core_add_peer seed n i k now c)) = pending_inv c"
  by (auto simp: core_add_peer_def Let_def split: sum.splits prod.splits dest!: on_routes_pendingD)

lemma core_remove_peer_pending: "pending_inv c \<Longrightarrow> pending_inv (core_remove_peer seed n i c)"
  by (simp add: core_remove_peer_def Let_def fold_remove_pending_inv)

lemma clean_rpc_state_pending: "pending_inv c \<Longrightarrow> pending_inv (clean_rpc_state now c)"
  by (simp add: clean_rpc_state_def Let_def fold_remove_pending_inv)

lemma dispatch_pending: "pending_inv (snd (dispatch K seed clock n i d req now c)) = pending_inv c"
  by (auto simp: dispatch_def Let_def split: prod.splits dest!: on_routes_pendingD)

lemma finish_response_pending: "pending_inv (snd (finish_response K seed n i key pkt now c)) = pending_inv c"
  by (auto simp: finish_response_def drop_outstanding_def Let_def split: sum.splits option.splits)

lemma handle_request_pending:
  assumes "pending_inv c"
  shows "pending_inv (snd (handle_request K seed clock n i pl now c))"
proof -
  have m: "pending_inv c1" if "merge_packet n i pkt now c = (r, c1)" for pkt r c1
    using merge_packet_inv [OF assms, of n i pkt now] that by simp
  have d: "pending_inv c2" if "dispatch K seed clock n i d req now c1 = (r, c2)" "pending_inv c1" for d req r c1 c2
    using dispatch_pending [of K seed clock n i d req now c1] that by simp
  show ?thesis
    using assms
    by (auto simp: handle_request_def split: option.splits sum.splits prod.splits merged_packet.splits dest: m d)
qed

lemma handle_response_pending:
  assumes "pending_inv c"
  shows "pending_inv (snd (handle_response K seed n i pl now c))"
proof -
  have m: "pending_inv c1" if "merge_packet n i pkt now c = (r, c1)" for pkt r c1
    using merge_packet_inv [OF assms, of n i pkt now] that by simp
  show ?thesis
    using assms
    by (auto simp: handle_response_def finish_response_pending drop_outstanding_def Let_def
        split: option.splits sum.splits prod.splits merged_packet.splits dest: m)
qed

lemma build_route_update_pending:
  "pending_inv c \<Longrightarrow> pending_inv (snd (build_route_update K seed draws n i sid full now c))"
  using clean_rpc_state_pending [of c now]
  by (auto simp: build_route_update_def Let_def split: sum.splits prod.splits dest!: on_routes_pendingD)

lemma clean_expired_pending: "pending_inv c \<Longrightarrow> pending_inv (snd (clean_expired clock now c))"
  using clean_rpc_state_pending [of c now]
  by (auto simp: clean_expired_def Let_def split: prod.splits dest!: on_routes_pendingD)

lemma set_avoid_pending: "pending_inv (snd (set_avoid_groups seed b keys c)) = pending_inv c"
  by (induction keys arbitrary: c) (auto split: sum.splits prod.splits dest!: on_routes_pendingD)


section \<open>Reassembly\<close>

definition piece :: "rpc_packet \<Rightarrow> bytes list \<Rightarrow> nat \<Rightarrow> rpc_packet" where
  "piece base bodies i = base\<lparr>total_pieces := of_nat (length bodies), piece_idx := of_nat i, rp_body := bodies ! i\<rparr>"

fun merge_all :: "ustring \<Rightarrow> peer_id \<Rightarrow> rpc_packet list \<Rightarrow> nat \<Rightarrow> wasm_rpc_core \<Rightarrow> merged_packet res list" where
  "merge_all network pid [] now c = []"
| "merge_all network pid (p # ps) now c =
     (let (r, c') = merge_packet network pid p now c in r # merge_all network pid ps now c')"

definition nothing_expired :: "nat \<Rightarrow> wasm_rpc_core \<Rightarrow> bool" where
  "nothing_expired now c \<longleftrightarrow> (\<forall>k p. jget (rc_pending c) k = Some p \<longrightarrow> now - pr_updated_at_ms p < RPC_FRAGMENT_TTL_MS)"

lemma clean_pending_id:
  assumes "nothing_expired now c" and "jwf (rc_pending c)"
  shows "clean_pending now c = c"
proof -
  have "jretain (\<lambda>_ p. now - pr_updated_at_ms p \<ge> RPC_FRAGMENT_TTL_MS) (rc_pending c) = []"
    using assms jentries_get [OF assms(2)] by (auto simp: jretain_def nothing_expired_def filter_empty_conv not_le [symmetric])
  then show ?thesis by (simp add: clean_pending_def jkeys_def)
qed

definition holding :: "rpc_packet \<Rightarrow> bytes list \<Rightarrow> nat set \<Rightarrow> pending_rpc \<Rightarrow> bool" where
  "holding base bodies S p \<longleftrightarrow> pr_total_pieces p = of_nat (length bodies)
     \<and> pr_pieces p = map (\<lambda>i. if i \<in> S then Some (bodies ! i) else None) [0..<length bodies]
     \<and> (0 \<in> S \<longrightarrow> pr_first p = Some (piece base bodies 0))"

lemma filled_map: "filled (map (\<lambda>i. if i \<in> S then Some (f i) else None) [0..<n]) = card (S \<inter> {0..<n})"
proof -
  have "filled (map (\<lambda>i. if i \<in> S then Some (f i) else None) [0..<n]) = length (filter (\<lambda>i. i \<in> S) [0..<n])"
    by (simp add: filled_def filter_map comp_def)
  also have "\<dots> = card {i. i < n \<and> i \<in> S}" by (simp add: length_filter_conv_card) (rule arg_cong [where f = card], auto)
  also have "{i. i < n \<and> i \<in> S} = S \<inter> {0..<n}" by auto
  finally show ?thesis .
qed

lemma holding_add:
  assumes "holding base bodies S p" and "i < length bodies" and "i \<notin> S" and n: "length bodies \<le> MAX_RPC_PIECES"
  shows "holding base bodies (insert i S) (add_piece (piece base bodies i) now p)"
    and "pr_body_bytes (add_piece (piece base bodies i) now p) = body_size (pr_pieces p) + length (bodies ! i)"
    and "pr_received_pieces (add_piece (piece base bodies i) now p) = card (insert i S \<inter> {0..<length bodies})"
proof -
  have i: "unat (of_nat i :: u32) = i"
    using assms(2) n by (simp add: unat_of_nat MAX_RPC_PIECES_def)
  have pcs: "(pr_pieces p)[i := Some (bodies ! i)] =
      map (\<lambda>j. if j \<in> insert i S then Some (bodies ! j) else None) [0..<length bodies]"
    using assms(1,2) by (auto simp: holding_def intro!: nth_equalityI) (auto simp: nth_list_update)
  have none: "pr_pieces p ! i = None" and len: "i < length (pr_pieces p)"
    using assms(1-3) by (simp_all add: holding_def)
  show "holding base bodies (insert i S) (add_piece (piece base bodies i) now p)"
    using assms(1) pcs by (auto simp: holding_def add_piece_def piece_def i Let_def)
  show "pr_body_bytes (add_piece (piece base bodies i) now p) = body_size (pr_pieces p) + length (bodies ! i)"
    using body_size_update [OF len, of "bodies ! i"] none by (simp add: add_piece_def piece_def i Let_def)
  show "pr_received_pieces (add_piece (piece base bodies i) now p) = card (insert i S \<inter> {0..<length bodies})"
    unfolding filled_map [of "insert i S" "(!) bodies" "length bodies", symmetric] pcs [symmetric]
    by (simp add: add_piece_def piece_def i Let_def)
qed


lemma store_piece_step:
  assumes inv: "pending_inv c" and p: "jget (rc_pending c) key = Some p" and h: "holding base bodies S p"
    and i: "i < length bodies" "i \<notin> S" and n: "2 \<le> length bodies" "length bodies \<le> MAX_RPC_PIECES"
    and room: "rc_pending_bytes c + length (bodies ! i) \<le> MAX_PENDING_BYTES" and S: "S \<subseteq> {0..<length bodies}"
  shows "S \<union> {i} \<noteq> {0..<length bodies} \<Longrightarrow> \<exists>p'. store_piece key (piece base bodies i) now c =
      (Inr Pending, c\<lparr>rc_pending_bytes := rc_pending_bytes c + length (bodies ! i), rc_pending := jset key p' (rc_pending c)\<rparr>)
      \<and> holding base bodies (insert i S) p' \<and> pr_updated_at_ms p' = now"
    and "S \<union> {i} = {0..<length bodies} \<Longrightarrow> fst (store_piece key (piece base bodies i) now c) =
      Inr (Complete (base\<lparr>total_pieces := 1, piece_idx := 0, rp_body := concat bodies\<rparr>))"
proof -
  let ?pkt = "piece base bodies i" and ?n = "length bodies"
  let ?p = "add_piece ?pkt now p"
  have w: "unat (of_nat i :: u32) = i" "unat (of_nat ?n :: u32) = ?n"
    using i n by (simp_all add: unat_of_nat MAX_RPC_PIECES_def)
  have tp: "pr_total_pieces p = of_nat ?n" using h by (simp add: holding_def)
  have pkt: "unat (piece_idx ?pkt) = i" "total_pieces ?pkt = pr_total_pieces p" "unat (pr_total_pieces p) = ?n"
    by (simp_all add: piece_def w tp)
  have half: "half_ok p" using inv p by (auto simp: pending_inv_def pending_half)
  have le: "pr_body_bytes p \<le> rc_pending_bytes c" "rc_pending_bytes c \<le> MAX_PENDING_BYTES"
    using inv jget_le_jsum [OF p, of pr_body_bytes] by (simp_all add: pending_inv_def)
  have idx: "unat (piece_idx ?pkt) < unat (pr_total_pieces p)" using i by (simp add: pkt)
  note conv = store_piece_conv [OF p half idx le pkt(2), of now]
  note a = holding_add [OF h i n(2), of now]
  have bytes: "rc_pending_bytes c - pr_body_bytes p + pr_body_bytes ?p = rc_pending_bytes c + length (bodies ! i)"
    using a(2) half le(1) by (simp add: half_ok_def)
  have card: "insert i S \<inter> {0..<?n} = S \<union> {i}" using S i by auto
  {
    assume "S \<union> {i} \<noteq> {0..<?n}"
    then have "card (S \<union> {i}) \<noteq> ?n"
      using S i(1) by (metis card_atLeastLessThan card_subset_eq diff_zero empty_subsetI finite_atLeastLessThan
          insert_subset atLeastLessThan_iff le_sup_iff zero_le)
    then have "pr_received_pieces ?p \<noteq> unat (pr_total_pieces p)" using a(3) card pkt(3) by simp
    then show "\<exists>p'. store_piece key ?pkt now c =
        (Inr Pending, c\<lparr>rc_pending_bytes := rc_pending_bytes c + length (bodies ! i), rc_pending := jset key p' (rc_pending c)\<rparr>)
        \<and> holding base bodies (insert i S) p' \<and> pr_updated_at_ms p' = now"
      using room a(1) unfolding conv Let_def bytes
      by (intro exI [of _ ?p]) (simp add: add_piece_def Let_def)
  next
    assume all: "S \<union> {i} = {0..<?n}"
    then have rec: "pr_received_pieces ?p = unat (pr_total_pieces p)" using a(3) card pkt(3) by simp
    have "pr_pieces ?p = map (\<lambda>j. Some (bodies ! j)) [0..<?n]"
      using a(1) all by (auto simp: holding_def)
    then have "concat (map the (pr_pieces ?p)) = concat bodies"
      by (simp add: comp_def map_nth)
    moreover have "pr_first ?p = Some (piece base bodies 0)"
      using a(1) all n(1) by (auto simp: holding_def)
    ultimately show "fst (store_piece key ?pkt now c) =
        Inr (Complete (base\<lparr>total_pieces := 1, piece_idx := 0, rp_body := concat bodies\<rparr>))"
      using room rec unfolding conv Let_def bytes by (simp add: piece_def)
  }
qed


definition mergeable :: "rpc_packet \<Rightarrow> bytes list \<Rightarrow> bool" where
  "mergeable base bodies \<longleftrightarrow> 2 \<le> length bodies \<and> length bodies \<le> MAX_RPC_PIECES \<and> descriptor base \<noteq> None"

lemma merge_packet_piece:
  fixes base bodies network pid
  defines "key \<equiv> rpc_key_of network pid (transaction_id base) (is_request base)"
  assumes inv: "pending_inv c" "nothing_expired now c" and m: "mergeable base bodies" and i: "i < length bodies"
  shows "jget (rc_pending c) key = Some p \<Longrightarrow> pr_total_pieces p = of_nat (length bodies) \<Longrightarrow>
      merge_packet network pid (piece base bodies i) now c = store_piece key (piece base bodies i) now c"
    and "\<not> jhas (rc_pending c) key \<Longrightarrow> peer_load network pid (rc_pending c) < MAX_PENDING_TRANSACTIONS_PER_PEER \<Longrightarrow>
      rc_pending_pieces c + length bodies \<le> MAX_PENDING_PIECES \<Longrightarrow>
      merge_packet network pid (piece base bodies i) now c =
        store_piece key (piece base bodies i) now (open_entry key (of_nat (length bodies)) now c)"
proof -
  obtain d where n: "2 \<le> length bodies" "length bodies \<le> MAX_RPC_PIECES" "descriptor base = Some d"
    using m by (auto simp: mergeable_def)
  have w: "unat (of_nat i :: u32) = i" "unat (of_nat (length bodies) :: u32) = length bodies"
    using i n by (simp_all add: unat_of_nat MAX_RPC_PIECES_def)
  have g: "(of_nat (length bodies) :: u32) \<noteq> 0" "(of_nat (length bodies) :: u32) \<noteq> 1"
    "\<not> (of_nat (length bodies) :: u32) \<le> of_nat i"
    using n(1) i w by (auto simp: word_unat_eq_iff word_le_nat_alt)
  have clean: "clean_pending now c = c"
    by (rule clean_pending_id [OF inv(2)]) (use inv(1) in \<open>simp add: pending_inv_def\<close>)
  show "jget (rc_pending c) key = Some p \<Longrightarrow> pr_total_pieces p = of_nat (length bodies) \<Longrightarrow>
      merge_packet network pid (piece base bodies i) now c = store_piece key (piece base bodies i) now c"
    using g n w by (simp add: merge_packet_def piece_def clean key_def [symmetric] jhas_Some Let_def)
  assume new: "\<not> jhas (rc_pending c) key" and load: "peer_load network pid (rc_pending c) < MAX_PENDING_TRANSACTIONS_PER_PEER"
    and cap: "rc_pending_pieces c + length bodies \<le> MAX_PENDING_PIECES"
  have "jget (rc_pending c) key = None" using new by (simp add: jhas_def)
  moreover have "\<not> MAX_PENDING_PIECES < sat_add32 (rc_pending_pieces c) (length bodies)"
    using cap by (simp add: sat_add32_def)
  ultimately show "merge_packet network pid (piece base bodies i) now c =
      store_piece key (piece base bodies i) now (open_entry key (of_nat (length bodies)) now c)"
    using g n w new load
    by (simp add: merge_packet_def piece_def clean key_def [symmetric] Let_def open_entry_def peer_load_def [symmetric])
qed

lemma merge_rest:
  fixes base bodies network pid
  defines "key \<equiv> rpc_key_of network pid (transaction_id base) (is_request base)"
  assumes m: "mergeable base bodies"
    and "pending_inv c" "nothing_expired now c" "jget (rc_pending c) key = Some p" "holding base bodies S p"
    and "S \<subseteq> {0..<length bodies}" "set is = {0..<length bodies} - S" "distinct is" "is \<noteq> []"
    and "rc_pending_bytes c + sum_list (map (\<lambda>i. length (bodies ! i)) is) \<le> MAX_PENDING_BYTES"
  shows "merge_all network pid (map (piece base bodies) is) now c = replicate (length is - 1) (Inr Pending) @
     [Inr (Complete (base\<lparr>total_pieces := 1, piece_idx := 0, rp_body := concat bodies\<rparr>))]"
  using assms(3-)
proof (induction "is" arbitrary: c p S)
  case Nil
  then show ?case by simp
next
  case (Cons i "is")
  have n: "2 \<le> length bodies" "length bodies \<le> MAX_RPC_PIECES" using m by (simp_all add: mergeable_def)
  have i: "i < length bodies" "i \<notin> S" using Cons.prems(6) by auto
  have tp: "pr_total_pieces p = of_nat (length bodies)" using Cons.prems(4) by (simp add: holding_def)
  note eq = merge_packet_piece(1) [OF Cons.prems(1,2) m i(1) Cons.prems(3) [unfolded key_def] tp, folded key_def]
  have room: "rc_pending_bytes c + length (bodies ! i) \<le> MAX_PENDING_BYTES" using Cons.prems(9) by simp
  note step = store_piece_step [OF Cons.prems(1,3,4) i n room Cons.prems(5), of now]
  show ?case
  proof (cases "is = []")
    case True
    then have "S \<union> {i} = {0..<length bodies}" using Cons.prems(5,6) by auto
    from step(2) [OF this] True show ?thesis by (simp add: eq case_prod_beta)
  next
    case False
    then obtain j where "j \<in> set is" by (cases "is") auto
    then have "S \<union> {i} \<noteq> {0..<length bodies}" using Cons.prems(6,7) by auto
    from step(1) [OF this] obtain p' where st: "store_piece key (piece base bodies i) now c =
        (Inr Pending, c\<lparr>rc_pending_bytes := rc_pending_bytes c + length (bodies ! i), rc_pending := jset key p' (rc_pending c)\<rparr>)"
      and p': "holding base bodies (insert i S) p'" "pr_updated_at_ms p' = now" by blast
    let ?c = "c\<lparr>rc_pending_bytes := rc_pending_bytes c + length (bodies ! i), rc_pending := jset key p' (rc_pending c)\<rparr>"
    have inv: "pending_inv ?c" using merge_packet_inv [OF Cons.prems(1), of network pid "piece base bodies i" now] by (simp add: eq st)
    have ne: "nothing_expired now ?c" using Cons.prems(2) p'(2) by (auto simp: nothing_expired_def RPC_FRAGMENT_TTL_MS_def)
    have rest: "set is = {0..<length bodies} - insert i S" "insert i S \<subseteq> {0..<length bodies}" "distinct is"
      using Cons.prems(5-7) i by auto
    have "merge_all network pid (map (piece base bodies) is) now ?c = replicate (length is - 1) (Inr Pending) @
       [Inr (Complete (base\<lparr>total_pieces := 1, piece_idx := 0, rp_body := concat bodies\<rparr>))]"
      by (rule Cons.IH [OF inv ne _ p'(1) rest(2,1,3) False]) (use Cons.prems(9) in simp_all)
    moreover have "replicate (length is) x = x # replicate (length is - 1) x" for x :: "merged_packet res"
      using False by (cases "is") simp_all
    ultimately show ?thesis by (simp add: eq st)
  qed
qed

lemma holding_new: "holding base bodies {} (new_pending (of_nat (length bodies)) now)" 
  if "length bodies \<le> MAX_RPC_PIECES"
  using that by (auto simp: holding_def new_pending_def unat_of_nat MAX_RPC_PIECES_def map_replicate_const intro!: nth_equalityI)

text \<open>
  C19. Fragments reassemble in any order: when a peer's message arrives in pieces, each exactly once
  and in whatever order, and the reassembly table has room for it, every piece but the last is kept
  waiting and the last one yields the original packet with the bodies concatenated in index order,
  whatever else is pending.
\<close>

theorem fragments_reassemble:
  assumes "pending_inv c" and "nothing_expired now c" and m: "mergeable base bodies"
    and new: "\<not> jhas (rc_pending c) (rpc_key_of network pid (transaction_id base) (is_request base))"
    and load: "peer_load network pid (rc_pending c) < MAX_PENDING_TRANSACTIONS_PER_PEER"
    and pieces: "rc_pending_pieces c + length bodies \<le> MAX_PENDING_PIECES"
    and room: "rc_pending_bytes c + length (concat bodies) \<le> MAX_PENDING_BYTES"
    and perm: "distinct order" "set order = {0..<length bodies}"
  shows "merge_all network pid (map (piece base bodies) order) now c =
     replicate (length bodies - 1) (Inr Pending) @
     [Inr (Complete (base\<lparr>total_pieces := 1, piece_idx := 0, rp_body := concat bodies\<rparr>))]"
proof -
  let ?key = "rpc_key_of network pid (transaction_id base) (is_request base)" and ?n = "length bodies"
  let ?c = "open_entry ?key (of_nat ?n) now c"
  have n: "2 \<le> ?n" "?n \<le> MAX_RPC_PIECES" using m by (simp_all add: mergeable_def)
  have w: "unat (of_nat ?n :: u32) = ?n" using n by (simp add: unat_of_nat MAX_RPC_PIECES_def)
  have inv: "pending_inv ?c"
    using new load pieces n w by (intro open_entry_inv [OF assms(1)]) (auto simp: rpc_key_of_def)
  have ne: "nothing_expired now ?c"
    using assms(2) by (auto simp: nothing_expired_def) (simp add: new_pending_def RPC_FRAGMENT_TTL_MS_def)
  have entry: "jget (rc_pending ?c) ?key = Some (new_pending (of_nat ?n) now)" by simp
  have "sum_list (map (\<lambda>i. length (bodies ! i)) order) = (\<Sum>i\<in>{0..<?n}. length (bodies ! i))"
    using perm by (simp add: sum_list_distinct_conv_sum_set)
  also have "\<dots> = length (concat bodies)" by (simp add: length_concat sum_list_sum_nth)
  finally have room': "rc_pending_bytes ?c + sum_list (map (\<lambda>i. length (bodies ! i)) order) \<le> MAX_PENDING_BYTES"
    using room by (simp add: open_entry_def)
  obtain i rest where order: "order = i # rest" using perm n(1) by (cases order) auto
  have i: "i < ?n" using perm(2) by (auto simp: order)
  have "merge_packet network pid (piece base bodies i) now c = merge_packet network pid (piece base bodies i) now ?c"
    using merge_packet_piece(2) [OF assms(1,2) m i new load pieces] merge_packet_piece(1) [OF inv ne m i entry] by simp
  then have "merge_all network pid (map (piece base bodies) order) now c =
      merge_all network pid (map (piece base bodies) order) now ?c" by (simp add: order)
  also have "\<dots> = replicate (length order - 1) (Inr Pending) @
      [Inr (Complete (base\<lparr>total_pieces := 1, piece_idx := 0, rp_body := concat bodies\<rparr>))]"
    by (rule merge_rest [OF m inv ne entry holding_new [OF n(2)] _ _ perm(1) _ room']) (use perm order in auto)
  also have "length order = ?n" using perm distinct_card by fastforce
  finally show ?thesis .
qed

definition core_init :: "wasm_rpc_core \<Rightarrow> bool" where
  "core_init c \<longleftrightarrow> (\<exists>k h sid. new_rpc_core k h sid = Inr c)"

inductive core_step :: "codec \<Rightarrow> wasm_rpc_core \<Rightarrow> wasm_rpc_core \<Rightarrow> bool" for K where
  add: "core_step K c (snd (core_add_peer seed n i k now c))"
| remove: "core_step K c (core_remove_peer seed n i c)"
| request: "core_step K c (snd (handle_request K seed clock n i pl now c))"
| response: "core_step K c (snd (handle_response K seed n i pl now c))"
| update: "core_step K c (snd (build_route_update K seed draws n i sid full now c))"
| expire: "core_step K c (snd (clean_expired clock now c))"
| relay: "core_step K c (snd (set_avoid_relay_data seed b c))"
| set_id: "core_step K c (snd (set_peer_route_id n rid c))"
| get_id: "core_step K c (snd (get_peer_route_id seed n c))"

lemma core_init_pending: "core_init c \<Longrightarrow> pending_inv c"
  by (auto simp: core_init_def new_rpc_core_def pending_inv_def peer_load_def jkeys_def split: if_splits)

lemma core_step_pending: "core_step K c c' \<Longrightarrow> pending_inv c \<Longrightarrow> pending_inv c'"
proof (induction rule: core_step.induct)
  case (relay c seed b)
  then show ?case by (simp add: set_avoid_relay_data_def set_avoid_pending)
next
  case (set_id c n rid)
  then show ?case by (simp add: set_peer_route_id_def split: option.splits)
next
  case (get_id c seed n)
  then show ?case using on_routes_pending [of "my_peer_route_id seed n" c] by (simp add: get_peer_route_id_def case_prod_beta)
qed (simp_all add: core_add_peer_pending core_remove_peer_pending handle_request_pending handle_response_pending
    build_route_update_pending clean_expired_pending)

interpretation core: transition_system core_init "core_step K" pending_inv for K
  by unfold_locales (auto simp: core_init_pending core_step_pending)

section \<open>Properties\<close>

text \<open>
  C20. Fragment memory is bounded and accounted for: in every reachable core the byte and piece
  counters are exactly what the pending messages hold, at most 32 MiB and 32768 pieces are held, and
  no peer has more than 64 messages pending.
\<close>

theorem fragment_memory_bounded:
  assumes "reach core_init (core_step K) c"
  shows "rc_pending_bytes c = jsum (\<lambda>p. body_size (pr_pieces p)) (rc_pending c) \<and> rc_pending_bytes c \<le> 32 * 1024 * 1024
     \<and> rc_pending_pieces c = jsum (\<lambda>p. length (pr_pieces p)) (rc_pending c) \<and> rc_pending_pieces c \<le> 32768
     \<and> (\<forall>n i. peer_load n i (rc_pending c) \<le> 64)"
proof -
  have inv: "pending_inv c" by (rule core.reach_inv [OF assms])
  have "jsum pr_body_bytes (rc_pending c) = jsum (\<lambda>p. body_size (pr_pieces p)) (rc_pending c)"
    "jsum (unat \<circ> pr_total_pieces) (rc_pending c) = jsum (\<lambda>p. length (pr_pieces p)) (rc_pending c)"
    using inv jentries_get [of "rc_pending c"] unfolding jsum_def
    by (auto simp: pending_inv_def pending_ok_def intro!: arg_cong [where f = sum_list] map_cong)
  with inv show ?thesis
    by (simp add: pending_inv_def MAX_PENDING_BYTES_def MAX_PENDING_PIECES_def MAX_PENDING_TRANSACTIONS_PER_PEER_def)
qed

definition sample_core :: wasm_rpc_core where
  "sample_core = \<lparr>rc_routes = new_route_state 7, rc_peer_center = [], rc_configured_groups = [],
     rc_peer_initiator = [], rc_pending = [], rc_pending_bytes = 0, rc_pending_pieces = 0,
     rc_outstanding_routes = [], rc_public_key = replicate 32 1, rc_hostname = [101],
     rc_server_peer_id = 7, rc_avoid_relay_data = False\<rparr>"

lemma sample_core_init: "core_init sample_core"
  unfolding core_init_def by (rule exI [of _ "replicate 32 1"], rule exI [of _ "[101]"], rule exI [of _ 7])
    (simp add: new_rpc_core_def sample_core_def)

theorem fragment_memory_bounded_witness:
  "rc_pending_bytes (snd (core_add_peer sample_seed [110] 5 [] 0 sample_core)) \<le> 32 * 1024 * 1024"
proof -
  have "reach core_init (core_step toy_codec) (snd (core_add_peer sample_seed [110] 5 [] 0 sample_core))"
    by (rule reach_step, rule reach_init, rule sample_core_init, rule core_step.add)
  from fragment_memory_bounded [OF this] show ?thesis by blast
qed

text \<open>
  The reassembly never finds its own table corrupted: in every reachable core, merging any packet
  never fails with one of the errors for a vanished entry, a missing first piece or a hole.
\<close>

theorem merge_never_corrupt:
  assumes "reach core_init (core_step K) c"
  shows "fst (merge_packet network pid pkt now c) \<notin> Inl ` internal_errors"
  by (rule merge_packet_errors [OF core.reach_inv [OF assms]])

definition sample_packet :: rpc_packet where
  "sample_packet = \<lparr>from_peer = 5, to_peer = 7, transaction_id = 77,
     descriptor = Some \<lparr>domain_name = [110], proto_name = ustr ''OspfRouteRpc'', service_name = ustr ''OspfRouteRpc'',
       method_index = 1\<rparr>, rp_body = [], is_request = True, total_pieces = 1, piece_idx = 0, trace_id = 0,
     compression_info = None\<rparr>"

theorem merge_never_corrupt_witness:
  "fst (merge_packet [110] 5 (piece sample_packet [[1], [2, 3]] 1) 9 sample_core) \<notin> Inl ` internal_errors"
  by (rule merge_never_corrupt [where K = toy_codec, OF reach_init]) (rule sample_core_init)

theorem fragments_reassemble_witness:
  "merge_all [110] 5 (map (piece sample_packet [[1], [2, 3]]) [1, 0]) 9 sample_core =
     [Inr Pending, Inr (Complete (sample_packet\<lparr>total_pieces := 1, piece_idx := 0, rp_body := [1, 2, 3]\<rparr>))]"
  using fragments_reassemble [of sample_core 9 sample_packet "[[1], [2, 3]]" "[110]" 5 "[1, 0]"]
    core_init_pending [OF sample_core_init]
  by (simp add: nothing_expired_def mergeable_def edge_simps sample_core_def peer_load_def jkeys_def sample_packet_def
      insert_commute atLeast0_lessThan_Suc numeral_2_eq_2)

text \<open>
  What handling a request of network \<open>n\<close> at time \<open>now\<close> leaves of the other networks: route group, persisted
  route id, peer center and initiator flags are the same, and so are the partly received requests,
  except those that are past their lifetime, which may be gone; the configuration and the outstanding
  route transactions are the same.
\<close>

definition pending_kept :: "nat \<Rightarrow> pending_rpc option \<Rightarrow> pending_rpc option \<Rightarrow> bool" where
  "pending_kept now old new \<longleftrightarrow> new = old \<or>
     new = None \<and> (\<exists>p. old = Some p \<and> RPC_FRAGMENT_TTL_MS \<le> now - pr_updated_at_ms p)"

definition elsewhere_same :: "nat \<Rightarrow> ustring \<Rightarrow> wasm_rpc_core \<Rightarrow> wasm_rpc_core \<Rightarrow> bool" where
  "elsewhere_same now n c c' \<longleftrightarrow>
     (\<forall>k. k \<noteq> n \<longrightarrow> jget (rs_groups (rc_routes c')) k = jget (rs_groups (rc_routes c)) k
        \<and> jget (rs_route_id_overrides (rc_routes c')) k = jget (rs_route_id_overrides (rc_routes c)) k
        \<and> jget (rc_peer_center c') k = jget (rc_peer_center c) k)
   \<and> (\<forall>k i. k \<noteq> n \<longrightarrow> jget (rc_peer_initiator c') (k, i) = jget (rc_peer_initiator c) (k, i))
   \<and> (\<forall>key. rk_network key \<noteq> n \<longrightarrow> pending_kept now (jget (rc_pending c) key) (jget (rc_pending c') key))
   \<and> rc_outstanding_routes c' = rc_outstanding_routes c \<and> rc_configured_groups c' = rc_configured_groups c
   \<and> rc_public_key c' = rc_public_key c \<and> rc_hostname c' = rc_hostname c
   \<and> rc_server_peer_id c' = rc_server_peer_id c \<and> rc_avoid_relay_data c' = rc_avoid_relay_data c"

lemma elsewhere_refl: "elsewhere_same now n c c"
  by (simp add: elsewhere_same_def pending_kept_def)

lemma elsewhere_trans:
  assumes "elsewhere_same now n c c1" and "elsewhere_same now n c1 c2"
  shows "elsewhere_same now n c c2"
proof -
  have "pending_kept now a b \<Longrightarrow> pending_kept now b d \<Longrightarrow> pending_kept now a d" for a b d
    by (auto simp: pending_kept_def)
  with assms show ?thesis unfolding elsewhere_same_def by (metis (no_types, lifting))
qed

text \<open>An update of the pending map and its counters that touches no live entry of another network.\<close>

lemma elsewhere_pending:
  assumes "c' = c\<lparr>rc_pending := m, rc_pending_bytes := b, rc_pending_pieces := p\<rparr>"
    and "\<And>key. rk_network key \<noteq> n \<Longrightarrow> pending_kept now (jget (rc_pending c) key) (jget m key)"
  shows "elsewhere_same now n c c'"
  using assms by (simp add: elsewhere_same_def)

lemma pending_kept_refl [simp]: "pending_kept now x x"
  by (simp add: pending_kept_def)

lemma remove_pending_elsewhere: "rk_network key = n \<Longrightarrow> elsewhere_same now n c (remove_pending key c)"
  by (cases "jget (rc_pending c) key") (auto simp: remove_pending_def elsewhere_same_def)

lemma store_piece_elsewhere:
  assumes "rk_network key = n"
  shows "elsewhere_same now' n c (snd (store_piece key pkt now c))"
proof (cases "jget (rc_pending c) key")
  case None
  then show ?thesis by (simp add: store_piece_def elsewhere_refl)
next
  case (Some p)
  with assms remove_pending_elsewhere [OF assms, of now' c] show ?thesis
    by (auto simp: store_piece_def Let_def elsewhere_same_def split: option.splits)
qed

lemma fold_remove_pending_get:
  "jget (rc_pending (fold remove_pending ks c)) key = (if key \<in> set ks then None else jget (rc_pending c) key)"
proof (induction ks arbitrary: c)
  case (Cons k ks)
  have "jget (rc_pending (remove_pending k c)) key = (if key = k then None else jget (rc_pending c) key)"
    by (auto simp: remove_pending_def split: option.splits)
  with Cons show ?case by auto
qed simp

lemma fold_remove_pending_shape:
  "\<exists>m b p. fold remove_pending ks c = c\<lparr>rc_pending := m, rc_pending_bytes := b, rc_pending_pieces := p\<rparr>"
proof (induction ks arbitrary: c)
  case Nil
  show ?case by (intro exI [of _ "rc_pending c"] exI [of _ "rc_pending_bytes c"] exI [of _ "rc_pending_pieces c"]) simp
next
  case (Cons k ks)
  let ?c = "remove_pending k c"
  have one: "?c = c\<lparr>rc_pending := rc_pending ?c, rc_pending_bytes := rc_pending_bytes ?c, rc_pending_pieces := rc_pending_pieces ?c\<rparr>"
    by (cases "jget (rc_pending c) k") (simp_all add: remove_pending_def)
  obtain m b p where "fold remove_pending ks ?c = ?c\<lparr>rc_pending := m, rc_pending_bytes := b, rc_pending_pieces := p\<rparr>"
    using Cons by blast
  also have "\<dots> = c\<lparr>rc_pending := m, rc_pending_bytes := b, rc_pending_pieces := p\<rparr>" by (subst one) simp
  finally show ?case by auto
qed

lemma clean_pending_elsewhere:
  assumes "jwf (rc_pending c)"
  shows "elsewhere_same now n c (clean_pending now c)"
proof -
  let ?ks = "jkeys (jretain (\<lambda>_ p. now - pr_updated_at_ms p \<ge> RPC_FRAGMENT_TTL_MS) (rc_pending c))"
  obtain m b p where shape: "clean_pending now c = c\<lparr>rc_pending := m, rc_pending_bytes := b, rc_pending_pieces := p\<rparr>"
    using fold_remove_pending_shape [of ?ks c] by (auto simp: clean_pending_def)
  have "jget m key = (if key \<in> set ?ks then None else jget (rc_pending c) key)" for key
    using fold_remove_pending_get [of ?ks c key] shape by (simp add: clean_pending_def)
  moreover have "\<exists>p. jget (rc_pending c) key = Some p \<and> RPC_FRAGMENT_TTL_MS \<le> now - pr_updated_at_ms p" if "key \<in> set ?ks" for key
    using that assms by (auto simp: jkeys_iff jhas_def jget_jretain split: option.splits if_splits)
  ultimately show ?thesis using shape by (intro elsewhere_pending [OF shape]) (simp add: pending_kept_def)
qed

lemma merge_elsewhere:
  assumes "jwf (rc_pending c)"
  shows "elsewhere_same now n c (snd (merge_packet n i pkt now c))"
proof -
  let ?c1 = "clean_pending now c" and ?key = "rpc_key_of n i (transaction_id pkt) (is_request pkt)"
  let ?c2 = "?c1\<lparr>rc_pending := jset ?key (new_pending (total_pieces pkt) now) (rc_pending ?c1),
       rc_pending_pieces := rc_pending_pieces ?c1 + unat (total_pieces pkt)\<rparr>"
  have key: "rk_network ?key = n" by (simp add: rpc_key_of_def)
  have clean: "elsewhere_same now n c ?c1" by (rule clean_pending_elsewhere [OF assms])
  have "elsewhere_same now n ?c1 ?c2" using key by (auto simp: elsewhere_same_def)
  with clean have "elsewhere_same now n c ?c2" by (rule elsewhere_trans)
  then have "elsewhere_same now n c (snd (store_piece ?key pkt now ?c2))"
    by (rule elsewhere_trans) (rule store_piece_elsewhere [OF key])
  moreover have "elsewhere_same now n c (snd (store_piece ?key pkt now ?c1))"
    using clean by (rule elsewhere_trans) (rule store_piece_elsewhere [OF key])
  moreover have "elsewhere_same now n c (remove_pending ?key ?c1)"
    using clean by (rule elsewhere_trans) (rule remove_pending_elsewhere [OF key])
  ultimately show ?thesis
    using clean elsewhere_refl [of now n c] by (simp add: merge_packet_def Let_def)
qed

lemma center_other_groups:
  "k \<noteq> n \<Longrightarrow> jget (snd (report_peers K clock n i bs pc)) k = jget pc k"
  "k \<noteq> n \<Longrightarrow> jget (snd (get_global_peer_map K n bs pc)) k = jget pc k"
  by (simp_all add: report_peers_def get_global_peer_map_def Let_def split: option.splits)

lemma sync_other_groups:
  "k \<noteq> n \<Longrightarrow> jget (rs_groups (snd (handle_sync_route_info_request K seed n i bs now rs))) k = jget (rs_groups rs) k"
  "k \<noteq> n \<Longrightarrow> jget (rs_route_id_overrides (snd (handle_sync_route_info_request K seed n i bs now rs))) k
     = jget (rs_route_id_overrides rs) k"
  by (simp_all add: handle_sync_route_info_request_def jget_with_group split: option.splits)
    (simp add: with_group_def ensure_group_def put_group_def Let_def case_prod_beta split: option.splits)

lemma dispatch_elsewhere: "elsewhere_same now' n c (snd (dispatch K seed clock n i d req now c))"
  by (simp add: dispatch_def elsewhere_same_def on_routes_def Let_def sync_other_groups center_other_groups case_prod_beta)

text \<open>
  C21. Networks do not mix: a request handled for one network leaves the route group, the persisted route
  id, the peer center and the initiator flags of every other network untouched, as well as all outstanding
  route transactions; of a partly received request of another network it drops at most one that
  is past its lifetime, and changes none.
\<close>

theorem request_stays_in_network:
  assumes "jwf (rc_pending c)"
  shows "elsewhere_same now n c (snd (handle_request K seed clock n i pl now c))"
proof -
  have merge: "elsewhere_same now n c c1" if "merge_packet n i pkt now c = (r, c1)" for pkt r c1
    using merge_elsewhere [OF assms, of now n i pkt] that by simp
  have disp: "elsewhere_same now n c1 c2" if "dispatch K seed clock n i d req now c1 = (r, c2)" for d req r c1 c2
    using dispatch_elsewhere [of now n c1 K seed clock i d req now] that by simp
  show ?thesis
    by (auto simp: handle_request_def elsewhere_refl split: option.splits sum.splits prod.splits merged_packet.splits
        dest!: merge disp intro: elsewhere_trans)
qed

theorem request_stays_in_network_witness:
  "elsewhere_same 30000 [110] sample_core (snd (handle_request toy_codec sample_seed 0 [110] 5 [] 30000 sample_core))"
  by (rule request_stays_in_network) (simp add: sample_core_def)

lemma digit_hex [simp]: "d < 16 \<Longrightarrow> digit_value 16 (hex_digit d) = Some d"
  by (simp add: digit_value_def hex_digit_def)

lemma parse_digits_append:
  "parse_digits r b acc (xs @ ys) = (case parse_digits r b acc xs of None \<Rightarrow> None | Some a \<Rightarrow> parse_digits r b a ys)"
  by (induction xs arbitrary: acc) (simp_all split: option.splits)

lemma parse_hex_digits:
  "v < 16 ^ n \<Longrightarrow> acc * 16 ^ n + v < b \<Longrightarrow> parse_digits 16 b acc (hex_digits n v) = Some (acc * 16 ^ n + v)"
proof (induction n arbitrary: v)
  case (Suc n)
  have v: "v div 16 < 16 ^ n" using Suc.prems(1) by (simp add: less_mult_imp_div_less mult.commute)
  have split: "acc * 16 ^ Suc n + v = (acc * 16 ^ n + v div 16) * 16 + v mod 16"
    by (simp add: algebra_simps)
  then have lt: "(acc * 16 ^ n + v div 16) * 16 + v mod 16 < b" using Suc.prems(2) by simp
  have "x \<le> x * 16 + y" for x y :: nat by simp
  then have "acc * 16 ^ n + v div 16 < b" using lt by (rule le_less_trans)
  from Suc.IH [OF v this] lt show ?case by (simp only: hex_digits.simps parse_digits_append option.case parse_digits.simps split) simp
qed simp

lemma length_hex_digits [simp]: "length (hex_digits n v) = n"
  by (induction n arbitrary: v) simp_all

lemma hex_digits_ge: "c \<in> set (hex_digits n v) \<Longrightarrow> 48 \<le> c"
  by (induction n arbitrary: v) (auto simp: hex_digit_def)

lemma from_str_radix_hex: "v < 2 ^ 64 \<Longrightarrow> from_str_radix (2 ^ 64) 16 (hex_digits 16 v) = Some v"
proof -
  assume v: "v < 2 ^ 64"
  obtain c cs where s: "hex_digits 16 v = c # cs" using length_hex_digits [of 16 v] by (cases "hex_digits 16 v") auto
  have "c \<noteq> 43" using hex_digits_ge [of c 16 v] s by auto
  moreover have "parse_digits 16 (2 ^ 64) 0 (hex_digits 16 v) = Some v"
    using parse_hex_digits [of v 16 0 "2 ^ 64"] v by simp
  ultimately show ?thesis by (simp add: from_str_radix_def s del: hex_digits.simps)
qed

text \<open>
  C22. The relay keeps its route id across restarts: the text \<open>get_peer_route_id\<close> yields for a network is
  accepted by \<open>set_peer_route_id\<close> of a new core that does not know the network yet, and that core then
  reports the same route id, whatever randomness it would have drawn.
\<close>

theorem route_id_survives_restart:
  assumes "jget (rs_groups (rc_routes fresh)) network = None"
  shows "let rid = fst (get_peer_route_id seed network c);
             (ok, restored) = set_peer_route_id network rid fresh
         in ok = Inr () \<and> fst (get_peer_route_id seed' network restored) = rid"
proof -
  define v where "v = fst (on_routes (my_peer_route_id seed network) c)"
  have rid: "fst (get_peer_route_id seed network c) = hex_digits 16 (unat v)"
    by (simp add: get_peer_route_id_def v_def case_prod_beta)
  have "from_str_radix (2 ^ 64) 16 (hex_digits 16 (unat v)) = Some (unat v)"
    by (rule from_str_radix_hex) (use unsigned_less [of v] in simp)
  then have set: "set_peer_route_id network (hex_digits 16 (unat v)) fresh =
      (Inr (), fresh\<lparr>rc_routes := (rc_routes fresh)\<lparr>rs_route_id_overrides :=
         jset network v (rs_route_id_overrides (rc_routes fresh))\<rparr>\<rparr>)"
    using assms by (simp add: set_peer_route_id_def set_persisted_route_id_def del: hex_digits.simps)
  show ?thesis
    unfolding rid set Let_def
    using assms by (simp add: get_peer_route_id_def on_routes_def my_peer_route_id_def with_group_def ensure_group_def
        new_group_def initial_my_info_def put_group_def Let_def case_prod_beta del: hex_digits.simps)
qed


theorem route_id_survives_restart_witness:
  "fst (get_peer_route_id \<lparr>seed_inst_id = \<lparr>part1 = 8, part2 = 8, part3 = 8, part4 = 8\<rparr>, seed_route_id = 5\<rparr> [110]
     (snd (set_peer_route_id [110] (fst (get_peer_route_id sample_seed [110] sample_core)) sample_core)))
   = fst (get_peer_route_id sample_seed [110] sample_core)"
  using route_id_survives_restart [of sample_core "[110]" sample_seed sample_core
      "\<lparr>seed_inst_id = \<lparr>part1 = 8, part2 = 8, part3 = 8, part4 = 8\<rparr>, seed_route_id = 5\<rparr>"]
  by (simp add: Let_def case_prod_beta) (simp add: sample_core_def new_route_state_def)

end
