(* ===== verification/Config.thy ===== *)
theory Config
  imports Store
begin

text \<open>
  Reading the configuration, \<^verbatim>\<open>src/core/config.ts\<close>, with the parts of the JavaScript library it relies on:
  \<open>Number\<close> of a string, \<open>trim\<close>, \<open>toLowerCase\<close> and \<open>atob\<close>. A variable of the environment is \<open>None\<close> when it is
  \<open>undefined\<close>.
\<close>

section \<open>JavaScript library\<close>

definition js_space :: "nat \<Rightarrow> bool" where
  "js_space c \<longleftrightarrow> 9 \<le> c \<and> c \<le> 13 \<or> c = 32 \<or> c = 160 \<or> c = 0x1680 \<or> 0x2000 \<le> c \<and> c \<le> 0x200a
     \<or> c = 0x2028 \<or> c = 0x2029 \<or> c = 0x202f \<or> c = 0x205f \<or> c = 0x3000 \<or> c = 0xfeff"

definition js_trim :: "ustring \<Rightarrow> ustring" where
  "js_trim s = rev (dropWhile js_space (rev (dropWhile js_space s)))"

text \<open>
  Lower case as far as a comparison with an ASCII word can tell: the ASCII letters, and the two other
  code points whose lower case contains an ASCII letter; every other code point maps to non-ASCII text.
\<close>

definition js_lower_char :: "nat \<Rightarrow> ustring" where
  "js_lower_char c =
     (if 65 \<le> c \<and> c \<le> 90 then [c + 32] else if c = 0x212a then [107] else if c = 0x130 then [105, 0x307] else [c])"

definition js_toLowerCase :: "ustring \<Rightarrow> ustring" where
  "js_toLowerCase s = concat (map js_lower_char s)"

datatype js_num = NaN | PosInf | NegInf | Fin rat

text \<open>Rounding to the nearest double, ties to even; the binade is found from the bit lengths.\<close>

definition round_even :: "rat \<Rightarrow> int" where
  "round_even q =
     (let f = \<lfloor>q\<rfloor>; d = q - of_int f
      in if d < 1 / 2 then f else if d > 1 / 2 then f + 1 else if even f then f else f + 1)"

definition pow2 :: "int \<Rightarrow> rat" where
  "pow2 e = (if e \<ge> 0 then 2 ^ nat e else 1 / 2 ^ nat (- e))"

fun bit_count :: "nat \<Rightarrow> nat" where
  "bit_count n = (if n = 0 then 0 else Suc (bit_count (n div 2)))"

declare bit_count.simps [simp del]

definition to_double :: "rat \<Rightarrow> js_num" where
  "to_double q =
     (if q = 0 then Fin 0
      else
        let (n, d) = quotient_of \<bar>q\<bar>;
            e0 = int (bit_count (nat n)) - int (bit_count (nat d));
            e = (if \<bar>q\<bar> \<ge> pow2 e0 then e0 else e0 - 1);
            u = pow2 (max (e - 52) (- 1074));
            r = of_int (round_even (\<bar>q\<bar> / u)) * u
        in if r \<ge> pow2 1024 then (if q > 0 then PosInf else NegInf)
           else Fin (if q > 0 then r else - r))"

fun digits_value :: "nat \<Rightarrow> (nat \<Rightarrow> nat option) \<Rightarrow> nat \<Rightarrow> ustring \<Rightarrow> nat option" where
  "digits_value radix dv acc [] = Some acc"
| "digits_value radix dv acc (c # cs) =
     (case dv c of None \<Rightarrow> None | Some d \<Rightarrow> if d < radix then digits_value radix dv (acc * radix + d) cs else None)"

definition dec_digit :: "nat \<Rightarrow> nat option" where
  "dec_digit c = (if 48 \<le> c \<and> c \<le> 57 then Some (c - 48) else None)"

definition any_digit :: "nat \<Rightarrow> nat option" where
  "any_digit c = (if 48 \<le> c \<and> c \<le> 57 then Some (c - 48) else if 97 \<le> c \<and> c \<le> 102 then Some (c - 87)
     else if 65 \<le> c \<and> c \<le> 70 then Some (c - 55) else None)"

definition is_dec :: "nat \<Rightarrow> bool" where
  "is_dec c \<longleftrightarrow> 48 \<le> c \<and> c \<le> 57"

definition dec_value :: "ustring \<Rightarrow> nat" where
  "dec_value ds = fold (\<lambda>c acc. acc * 10 + (c - 48)) ds 0"

text \<open>The exponent part: nothing, or \<open>e\<close>, an optional sign and digits.\<close>

definition exponent_of :: "ustring \<Rightarrow> int option" where
  "exponent_of s =
     (case s of
        [] \<Rightarrow> Some 0
      | c # cs \<Rightarrow>
          if c \<noteq> 101 \<and> c \<noteq> 69 then None
          else let (sg, ds) = (case cs of [] \<Rightarrow> (1, []) | x # xs \<Rightarrow> if x = 43 then (1, xs) else if x = 45 then (- 1, xs) else (1, cs))
               in if ds \<noteq> [] \<and> list_all is_dec ds then Some (sg * int (dec_value ds)) else None)"

definition pow10 :: "int \<Rightarrow> rat" where
  "pow10 e = (if e \<ge> 0 then 10 ^ nat e else 1 / 10 ^ nat (- e))"

definition unsigned_decimal :: "ustring \<Rightarrow> js_num option" where
  "unsigned_decimal s =
     (if s = ustr ''Infinity'' then Some PosInf
      else
        let ip = takeWhile is_dec s; r1 = dropWhile is_dec s;
            (fp, r2) = (case r1 of c # cs \<Rightarrow> if c = 46 then (takeWhile is_dec cs, dropWhile is_dec cs) else ([], r1)
                                 | [] \<Rightarrow> ([], []))
        in if ip = [] \<and> fp = [] then None
           else case exponent_of r2 of
                  None \<Rightarrow> None
                | Some e \<Rightarrow> Some (to_double (of_nat (dec_value (ip @ fp)) * pow10 (e - int (length fp)))))"

definition js_neg :: "js_num \<Rightarrow> js_num" where
  "js_neg x = (case x of NaN \<Rightarrow> NaN | PosInf \<Rightarrow> NegInf | NegInf \<Rightarrow> PosInf | Fin q \<Rightarrow> Fin (- q))"

definition radix_prefix :: "ustring \<Rightarrow> (nat \<times> ustring) option" where
  "radix_prefix s =
     (case s of
        a # b # ds \<Rightarrow>
          if a \<noteq> 48 then None
          else if b = 120 \<or> b = 88 then Some (16, ds)
          else if b = 111 \<or> b = 79 then Some (8, ds)
          else if b = 98 \<or> b = 66 then Some (2, ds) else None
      | _ \<Rightarrow> None)"

definition js_Number :: "ustring \<Rightarrow> js_num" where
  "js_Number str =
     (let s = js_trim str
      in if s = [] then Fin 0
         else case radix_prefix s of
           Some (radix, ds) \<Rightarrow>
             if ds = [] then NaN
             else (case digits_value radix any_digit 0 ds of None \<Rightarrow> NaN | Some v \<Rightarrow> to_double (of_nat v))
         | None \<Rightarrow>
             (case s of
                c # cs \<Rightarrow>
                  if c = 45 then (case unsigned_decimal cs of None \<Rightarrow> NaN | Some x \<Rightarrow> js_neg x)
                  else if c = 43 then (case unsigned_decimal cs of None \<Rightarrow> NaN | Some x \<Rightarrow> x)
                  else (case unsigned_decimal s of None \<Rightarrow> NaN | Some x \<Rightarrow> x)
              | [] \<Rightarrow> NaN))"

text \<open>\<open>Number.isSafeInteger\<close>, with the integer.\<close>

definition safe_integer :: "js_num \<Rightarrow> int option" where
  "safe_integer x =
     (case x of Fin q \<Rightarrow> if q = of_int \<lfloor>q\<rfloor> \<and> \<bar>q\<bar> \<le> 2 ^ 53 - 1 then Some \<lfloor>q\<rfloor> else None | _ \<Rightarrow> None)"

text \<open>
  \<open>atob\<close>: ASCII whitespace is dropped, at most two trailing padding signs are removed when the length is a
  multiple of four, a length of one modulo four or a foreign character is an error, and left-over bits are
  discarded.
\<close>

definition b64_value :: "nat \<Rightarrow> nat option" where
  "b64_value c =
     (if 65 \<le> c \<and> c \<le> 90 then Some (c - 65) else if 97 \<le> c \<and> c \<le> 122 then Some (c - 71)
      else if 48 \<le> c \<and> c \<le> 57 then Some (c + 4) else if c = 43 then Some 62 else if c = 47 then Some 63 else None)"

fun b64_groups :: "nat list \<Rightarrow> bytes" where
  "b64_groups (a # b # c # d # rest) =
     of_nat (a * 4 + b div 16) # of_nat (b mod 16 * 16 + c div 4) # of_nat (c mod 4 * 64 + d) # b64_groups rest"
| "b64_groups [a, b, c] = [of_nat (a * 4 + b div 16), of_nat (b mod 16 * 16 + c div 4)]"
| "b64_groups [a, b] = [of_nat (a * 4 + b div 16)]"
| "b64_groups _ = []"

definition strip_padding :: "ustring \<Rightarrow> ustring" where
  "strip_padding s =
     (if length s mod 4 \<noteq> 0 then s
      else if s \<noteq> [] \<and> last s = 61
      then (let t = butlast s in if t \<noteq> [] \<and> last t = 61 then butlast t else t)
      else s)"

definition atob :: "ustring \<Rightarrow> bytes option" where
  "atob str =
     (let s = strip_padding (filter (\<lambda>c. c \<notin> {9, 10, 12, 13, 32}) str)
      in if length s mod 4 = 1 \<or> list_ex (\<lambda>c. b64_value c = None) s then None
         else Some (b64_groups (map (the \<circ> b64_value) s)))"

section \<open>Configuration\<close>

datatype connection_mode = SecureMode | LegacyMode

record server_config =
  cfg_rooms :: "(ustring, ustring) jmap"
  cfg_networkName :: ustring
  cfg_networkSecret :: ustring
  cfg_hostname :: ustring
  cfg_localPrivateKey :: "ustring option"
  cfg_localPublicKey :: "ustring option"
  cfg_localPublicKeyBytes :: "bytes option"
  cfg_disableRelayData :: bool
  cfg_maxFrameBytes :: nat
  cfg_maxPendingPerIp :: nat
  cfg_connectionMode :: connection_mode

record easytier_env =
  NETWORK_NAME :: "ustring option"
  NETWORK_SECRET :: "ustring option"
  LOCAL_PRIVATE_KEY :: "ustring option"
  LOCAL_PUBLIC_KEY :: "ustring option"
  DISABLE_RELAY_DATA :: "ustring option"
  EASYTIER_HOSTNAME :: "ustring option"
  MAX_FRAME_BYTES :: "ustring option"
  MAX_PENDING_PER_IP :: "ustring option"
  CONNECTION_MODE :: "ustring option"

definition DEFAULT_MAX_PENDING_PER_IP :: nat where "DEFAULT_MAX_PENDING_PER_IP = 17"

definition requireText :: "ustring option \<Rightarrow> string \<Rightarrow> ustring res" where
  "requireText v name =
     (case v of None \<Rightarrow> raise (name @ '' is required'')
      | Some s \<Rightarrow> if js_length s = 0 then raise (name @ '' is required'') else Inr s)"

definition parseConnectionMode :: "ustring option \<Rightarrow> connection_mode res" where
  "parseConnectionMode v =
     (case v of
        None \<Rightarrow> Inr SecureMode
      | Some s \<Rightarrow>
          if s = [] then Inr SecureMode
          else let normalized = js_toLowerCase (js_trim s)
               in if normalized = ustr ''secure'' then Inr SecureMode
                  else if normalized = ustr ''legacy'' then Inr LegacyMode
                  else raise ''CONNECTION_MODE must be one of: secure, legacy'')"

definition parsePositiveInt :: "ustring option \<Rightarrow> string \<Rightarrow> nat \<Rightarrow> nat res" where
  "parsePositiveInt v name fallback =
     (case v of
        None \<Rightarrow> Inr fallback
      | Some s \<Rightarrow>
          if s = [] then Inr fallback
          else case safe_integer (js_Number s) of
            None \<Rightarrow> raise (name @ '' must be an integer between 1 and 2048'')
          | Some n \<Rightarrow>
              if n < 1 \<or> n > 2048 then raise (name @ '' must be an integer between 1 and 2048'') else Inr (nat n))"

definition parseBoolean :: "ustring option \<Rightarrow> string \<Rightarrow> bool res" where
  "parseBoolean v name =
     (case v of
        None \<Rightarrow> Inr False
      | Some s \<Rightarrow>
          if s = [] then Inr False
          else let normalized = js_toLowerCase (js_trim s)
               in if normalized \<in> set (map ustr [''true'', ''1'', ''yes'', ''on'']) then Inr True
                  else if normalized \<in> set (map ustr [''false'', ''0'', ''no'', ''off'']) then Inr False
                  else raise (name @ '' must be a boolean (true/false)''))"

definition config_decodeBase64Key :: "ustring \<Rightarrow> string \<Rightarrow> bytes res" where
  "config_decodeBase64Key v name =
     (case atob v of
        None \<Rightarrow> raise (name @ '' must be valid base64'')
      | Some bs \<Rightarrow> if length bs \<noteq> 32 then raise (name @ '' must decode to exactly 32 bytes'') else Inr bs)"

definition parseMaxFrameBytes :: "ustring option \<Rightarrow> nat res" where
  "parseMaxFrameBytes v =
     (case safe_integer (case v of None \<Rightarrow> Fin 1048576 | Some s \<Rightarrow> js_Number s) of
        None \<Rightarrow> raise ''MAX_FRAME_BYTES must be an integer between 1024 and 16777216''
      | Some n \<Rightarrow>
          if n < 1024 \<or> n > 16777216 then raise ''MAX_FRAME_BYTES must be an integer between 1024 and 16777216''
          else Inr (nat n))"

definition truthy :: "ustring option \<Rightarrow> bool" where
  "truthy v \<longleftrightarrow> v \<noteq> None \<and> v \<noteq> Some []"

definition readServerConfig :: "easytier_env \<Rightarrow> server_config res" where
  "readServerConfig env =
     bind_res (requireText (NETWORK_NAME env) ''NETWORK_NAME'') (\<lambda>networkName.
     guard_res (utf8_length networkName \<noteq> 0 \<and> utf8_length networkName \<le> 255)
       ''NETWORK_NAME must be a non-empty string of at most 255 bytes''
     (bind_res (requireText (NETWORK_SECRET env) ''NETWORK_SECRET'') (\<lambda>networkSecret.
     guard_res (js_length networkSecret \<noteq> 0) ''NETWORK_SECRET must be a non-empty string''
     (let rooms = [(networkName, networkSecret)];
          hasPrivateKey = truthy (LOCAL_PRIVATE_KEY env);
          hasPublicKey = truthy (LOCAL_PUBLIC_KEY env)
      in guard_res (hasPrivateKey = hasPublicKey)
           ''LOCAL_PRIVATE_KEY and LOCAL_PUBLIC_KEY must be configured together or omitted''
     (bind_res (parseMaxFrameBytes (MAX_FRAME_BYTES env)) (\<lambda>maxFrameBytes.
      bind_res (parsePositiveInt (MAX_PENDING_PER_IP env) ''MAX_PENDING_PER_IP'' DEFAULT_MAX_PENDING_PER_IP) (\<lambda>maxPendingPerIp.
      bind_res (parseBoolean (DISABLE_RELAY_DATA env) ''DISABLE_RELAY_DATA'') (\<lambda>disableRelayData.
      bind_res (parseConnectionMode (CONNECTION_MODE env)) (\<lambda>connectionMode.
        let host = (case EASYTIER_HOSTNAME env of None \<Rightarrow> ustr ''edge'' | Some h \<Rightarrow> h)
        in guard_res (js_length host \<noteq> 0 \<and> utf8_length host \<le> 255)
             ''EASYTIER_HOSTNAME must be a non-empty string of at most 255 bytes''
        (let cfg = \<lparr>cfg_rooms = rooms, cfg_networkName = networkName, cfg_networkSecret = networkSecret,
               cfg_hostname = host, cfg_localPrivateKey = None, cfg_localPublicKey = None,
               cfg_localPublicKeyBytes = None, cfg_disableRelayData = disableRelayData,
               cfg_maxFrameBytes = maxFrameBytes, cfg_maxPendingPerIp = maxPendingPerIp,
               cfg_connectionMode = connectionMode\<rparr>
         in if \<not> hasPrivateKey then Inr cfg
            else
              let privateKey = the (LOCAL_PRIVATE_KEY env); publicKey = the (LOCAL_PUBLIC_KEY env)
              in bind_res (config_decodeBase64Key publicKey ''LOCAL_PUBLIC_KEY'') (\<lambda>publicBytes.
                 bind_res (config_decodeBase64Key privateKey ''LOCAL_PRIVATE_KEY'') (\<lambda>_.
                   Inr (cfg\<lparr>cfg_localPrivateKey := Some privateKey, cfg_localPublicKey := Some publicKey,
                            cfg_localPublicKeyBytes := Some publicBytes\<rparr>)))))))))))))"

section \<open>Base64\<close>

text \<open>The RFC 4648 encoder, as the specification of what \<open>atob\<close> has to read.\<close>

definition b64_char :: "nat \<Rightarrow> nat" where
  "b64_char v = (if v < 26 then v + 65 else if v < 52 then v + 71 else if v < 62 then v - 4 else if v = 62 then 43 else 47)"

fun sextets :: "bytes \<Rightarrow> nat list" where
  "sextets (x # y # z # bs) =
     unat x div 4 # (unat x mod 4 * 16 + unat y div 16) # (unat y mod 16 * 4 + unat z div 64) # unat z mod 64 # sextets bs"
| "sextets [x, y] = [unat x div 4, unat x mod 4 * 16 + unat y div 16, unat y mod 16 * 4]"
| "sextets [x] = [unat x div 4, unat x mod 4 * 16]"
| "sextets [] = []"

definition rfc4648 :: "bytes \<Rightarrow> ustring" where
  "rfc4648 bs = map b64_char (sextets bs) @ replicate (if length bs mod 3 = 0 then 0 else 3 - length bs mod 3) 61"

lemma b64_char_value [simp]: "v < 64 \<Longrightarrow> b64_value (b64_char v) = Some v"
  by (auto simp: b64_char_def b64_value_def)

lemma b64_char_plain: "v < 64 \<Longrightarrow> b64_char v \<notin> {9, 10, 12, 13, 32, 61}"
  by (auto simp: b64_char_def)

lemma pack_arith: "r < m \<Longrightarrow> (q * m + r) div m = q \<and> (q * m + r) mod m = (r :: nat)"
  by simp

lemma sextet_arith:
  fixes x y z :: nat
  assumes "x < 256" "y < 256" "z < 256"
  shows "x div 4 < 64" "x mod 4 * 16 + y div 16 < 64" "y mod 16 * 4 + z div 64 < 64"
    "x div 4 * 4 + (x mod 4 * 16 + y div 16) div 16 = x"
    "(x mod 4 * 16 + y div 16) mod 16 * 16 + (y mod 16 * 4 + z div 64) div 4 = y"
    "(y mod 16 * 4 + z div 64) mod 4 * 64 + z mod 64 = z"
proof -
  have q: "y div 16 < 16" "z div 64 < 4" "x mod 4 < 4" "y mod 16 < 16" using assms by auto
  show "x div 4 < 64" using assms by simp
  show "x mod 4 * 16 + y div 16 < 64" "y mod 16 * 4 + z div 64 < 64" using q by linarith+
  note p = pack_arith [OF q(1), of "x mod 4"] pack_arith [OF q(2), of "y mod 16"]
  show "x div 4 * 4 + (x mod 4 * 16 + y div 16) div 16 = x" using p(1) by simp
  show "(x mod 4 * 16 + y div 16) mod 16 * 16 + (y mod 16 * 4 + z div 64) div 4 = y" using p by simp
  show "(y mod 16 * 4 + z div 64) mod 4 * 64 + z mod 64 = z" using p(2) by simp
qed

lemma sextets_small: "list_all (\<lambda>v. v < 64) (sextets bs)"
proof (induction bs rule: sextets.induct)
  case (1 x y z bs)
  then show ?case using sextet_arith(1-3) [of "unat x" "unat y" "unat z"] by simp
next
  case (2 x y)
  then show ?case using sextet_arith(1-3) [of "unat x" "unat y" 0] by simp
next
  case (3 x)
  then show ?case using sextet_arith(1-3) [of "unat x" 0 0] by simp
qed simp

lemma b64_groups_sextets: "b64_groups (sextets bs) = bs"
proof (induction bs rule: sextets.induct)
  case (1 x y z bs)
  then show ?case using sextet_arith(4-6) [of "unat x" "unat y" "unat z"]
    by (simp only: sextets.simps b64_groups.simps unat_byte_less) simp
next
  case (2 x y)
  then show ?case using sextet_arith(4-6) [of "unat x" "unat y" 0] by simp
next
  case (3 x)
  then show ?case using sextet_arith(4-6) [of "unat x" 0 0] by simp
qed simp

lemma length_sextets:
  "length (sextets bs) = 4 * (length bs div 3) + (if length bs mod 3 = 0 then 0 else length bs mod 3 + 1)"
  by (induction bs rule: sextets.induct) simp_all

lemma strip_padding_rfc:
  assumes "61 \<notin> set s" and "(length s + k) mod 4 = 0" and "k \<le> 2" and "k = 0 \<or> s \<noteq> []"
  shows "strip_padding (s @ replicate k 61) = s"
proof -
  have last: "s \<noteq> [] \<Longrightarrow> last s \<noteq> 61" using assms(1) by (metis last_in_set)
  consider "k = 0" | "k = 1" | "k = 2" using assms(3) by linarith
  then show ?thesis
  proof cases
    case 1
    with last show ?thesis by (auto simp: strip_padding_def)
  next
    case 2
    with last assms(2,4) show ?thesis by (simp add: strip_padding_def)
  next
    case 3
    then have "s @ replicate k 61 = (s @ [61]) @ [61]" by (simp add: numeral_2_eq_2)
    with 3 assms(2) show ?thesis by (simp add: strip_padding_def butlast_append Let_def)
  qed
qed

lemma atob_rfc4648: "atob (rfc4648 bs) = Some bs"
proof -
  let ?s = "map b64_char (sextets bs)" and ?k = "if length bs mod 3 = 0 then 0 else 3 - length bs mod 3"
  have c: "b64_char v \<notin> {9, 10, 12, 13, 32, 61}" "b64_value (b64_char v) = Some v" if "v \<in> set (sextets bs)" for v
    using sextets_small [of bs] that b64_char_plain by (auto simp: list_all_iff)
  have keep: "filter (\<lambda>c. c \<notin> {9, 10, 12, 13, 32}) (rfc4648 bs) = ?s @ replicate ?k 61"
    using c(1) by (auto simp: rfc4648_def filter_id_conv)
  have len: "(length ?s + ?k) mod 4 = 0" "length ?s mod 4 \<noteq> 1"
    by (auto simp: length_sextets split: if_splits)
  have "strip_padding (?s @ replicate ?k 61) = ?s"
  proof (rule strip_padding_rfc [OF _ len(1)])
    show "61 \<notin> set ?s" using c(1) by auto
    show "?k \<le> 2" by auto
    show "?k = 0 \<or> ?s \<noteq> []" by (cases bs rule: sextets.cases) auto
  qed
  moreover have "\<not> list_ex (\<lambda>c. b64_value c = None) ?s" using c(2) by (auto simp: list_ex_iff)
  moreover have "map (the \<circ> b64_value) ?s = sextets bs" using c(2) by (simp add: map_idI)
  ultimately show ?thesis using len(2) unfolding atob_def keep Let_def by (simp add: b64_groups_sextets)
qed

text \<open>
  \<open>atob\<close> inverts base64: for every byte string, decoding its RFC 4648 text, padding included, gives
  the bytes back, so the keys and digests the core hands over as base64 arrive unchanged.
\<close>

theorem atob_inverts_base64: "atob (rfc4648 bs) = Some bs"
  by (rule atob_rfc4648)

section \<open>Accepted configurations\<close>

lemma utf8_length_pos: "s \<noteq> [] \<Longrightarrow> 0 < utf8_length s"
  using utf8_length_zero [of s] by linarith

lemma config_key_32: "config_decodeBase64Key v name = Inr bs \<Longrightarrow> length bs = 32 \<and> atob v = Some bs"
  by (auto simp: config_decodeBase64Key_def split: option.splits if_splits)

text \<open>
  C29. Every accepted configuration is within its limits: the network name has 1 to 255 bytes and is the
  only room, the secret and the host name are not empty, a frame may have 1024 to 16777216 bytes, 1 to
  2048 handshakes may be pending per address, and a key pair is either absent or present as two texts
  that decode to 32 bytes each.
\<close>

theorem accepted_config_bounds:
  assumes "readServerConfig env = Inr cfg"
  shows "1 \<le> utf8_length (cfg_networkName cfg) \<and> utf8_length (cfg_networkName cfg) \<le> 255
     \<and> cfg_networkSecret cfg \<noteq> [] \<and> cfg_rooms cfg = [(cfg_networkName cfg, cfg_networkSecret cfg)]
     \<and> cfg_hostname cfg \<noteq> [] \<and> utf8_length (cfg_hostname cfg) \<le> 255
     \<and> 1024 \<le> cfg_maxFrameBytes cfg \<and> cfg_maxFrameBytes cfg \<le> 16777216
     \<and> 1 \<le> cfg_maxPendingPerIp cfg \<and> cfg_maxPendingPerIp cfg \<le> 2048
     \<and> (cfg_localPrivateKey cfg = None \<and> cfg_localPublicKey cfg = None \<and> cfg_localPublicKeyBytes cfg = None
        \<or> (\<exists>priv pub k pk. cfg_localPrivateKey cfg = Some priv \<and> atob priv = Some k \<and> length k = 32
             \<and> cfg_localPublicKey cfg = Some pub \<and> atob pub = Some pk \<and> length pk = 32
             \<and> cfg_localPublicKeyBytes cfg = Some pk))"
proof -
  have frame: "1024 \<le> n \<and> n \<le> 16777216" if "parseMaxFrameBytes v = Inr n" for v n
    using that by (auto simp: parseMaxFrameBytes_def split: option.splits if_splits)
  have pending: "1 \<le> n \<and> n \<le> 2048" if "parsePositiveInt v nm 17 = Inr n" for v nm n
    using that by (auto simp: parsePositiveInt_def split: option.splits if_splits)
  from assms show ?thesis
    by (auto simp: readServerConfig_def Let_def DEFAULT_MAX_PENDING_PER_IP_def Suc_le_eq utf8_length_pos
        split: if_splits dest!: frame pending config_key_32)
qed

definition sample_env :: easytier_env where
  "sample_env = \<lparr>NETWORK_NAME = Some (ustr ''office''), NETWORK_SECRET = Some (ustr ''s''), LOCAL_PRIVATE_KEY = None,
     LOCAL_PUBLIC_KEY = None, DISABLE_RELAY_DATA = None, EASYTIER_HOSTNAME = None,
     MAX_FRAME_BYTES = Some (ustr '' 0x10000 ''), MAX_PENDING_PER_IP = None, CONNECTION_MODE = Some (ustr ''Legacy'')\<rparr>"

lemma sample_env_accepted:
  obtains cfg where "readServerConfig (sample_env\<lparr>MAX_FRAME_BYTES := None\<rparr>) = Inr cfg"
  by (simp add: readServerConfig_def sample_env_def requireText_def ustr_def js_length_def utf8_length_def utf8_width_def
        truthy_def parseMaxFrameBytes_def safe_integer_def parsePositiveInt_def parseBoolean_def parseConnectionMode_def
        js_trim_def js_space_def js_toLowerCase_def js_lower_char_def Let_def)

theorem accepted_config_bounds_witness:
  "\<exists>cfg. readServerConfig (sample_env\<lparr>MAX_FRAME_BYTES := None\<rparr>) = Inr cfg \<and> 1024 \<le> cfg_maxFrameBytes cfg"
proof -
  obtain cfg where "readServerConfig (sample_env\<lparr>MAX_FRAME_BYTES := None\<rparr>) = Inr cfg" by (rule sample_env_accepted)
  with accepted_config_bounds [OF this] show ?thesis by blast
qed

end
