(* ===== verification/Messages.thy ===== *)
theory Messages
  imports Config Proto
begin

text \<open>
  Validation of the JSON the core returns, \<^verbatim>\<open>src/runtime/messages.ts\<close>. The text handed to \<open>JSON.parse\<close> is
  modelled by its parse, \<open>None\<close> when it is not JSON; a missing member reads as \<open>undefined\<close>, \<open>None\<close>.
\<close>

section \<open>Fields\<close>

definition field :: "(ustring \<times> json) list \<Rightarrow> string \<Rightarrow> json option" where
  "field obj name = map_of (rev obj) (ustr name)"

definition parseObject :: "json option \<Rightarrow> string \<Rightarrow> (ustring \<times> json) list res" where
  "parseObject v operation =
     (case v of
        None \<Rightarrow> raise (operation @ '' is not valid JSON'')
      | Some (JObj members) \<Rightarrow> Inr members
      | Some _ \<Rightarrow> raise (operation @ '' must be a JSON object''))"

definition readPeerId :: "json option \<Rightarrow> string \<Rightarrow> peer_id res" where
  "readPeerId v name =
     (case v of
        Some (JNum q) \<Rightarrow>
          if q \<noteq> of_int \<lfloor>q\<rfloor> \<or> q \<le> 0 \<or> q > 0xffffffff
          then raise (name @ '' must be a non-zero u32 peer id'') else Inr (of_int \<lfloor>q\<rfloor>)
      | _ \<Rightarrow> raise (name @ '' must be a non-zero u32 peer id''))"

definition readString :: "json option \<Rightarrow> string \<Rightarrow> ustring res" where
  "readString v name =
     (case v of
        Some (JStr s) \<Rightarrow> if js_length s = 0 then raise (name @ '' must be a non-empty string'') else Inr s
      | _ \<Rightarrow> raise (name @ '' must be a non-empty string''))"

definition decodePublicKey :: "ustring \<Rightarrow> bytes res" where
  "decodePublicKey base64 =
     (case atob base64 of
        None \<Rightarrow> raise ''remote_public_key_base64 is not valid base64''
      | Some key \<Rightarrow>
          if length key \<noteq> 32 then raise ''remote_public_key_base64 must decode to 32 bytes'' else Inr key)"

definition decodeDigest :: "ustring \<Rightarrow> bytes res" where
  "decodeDigest base64 =
     (case atob base64 of
        None \<Rightarrow> raise ''network_secret_digest_base64 is not valid base64''
      | Some digest \<Rightarrow>
          if length digest \<noteq> 32 then raise ''network_secret_digest_base64 must decode to 32 bytes'' else Inr digest)"

section \<open>Messages\<close>

record handshake_info =
  hi_peerId :: peer_id
  hi_networkName :: ustring

record legacy_info =
  li_peerId :: peer_id
  li_networkName :: ustring
  li_networkSecretDigest :: bytes

record authentication_info =
  ai_peerId :: peer_id
  ai_networkName :: ustring
  ai_remotePublicKey :: bytes

record generated_keypair =
  gk_privateKey :: ustring
  gk_publicKey :: ustring

definition parseGeneratedKeypair :: "json option \<Rightarrow> generated_keypair res" where
  "parseGeneratedKeypair j =
     bind_res (parseObject j ''generate_keypair result'') (\<lambda>v.
     bind_res (readString (field v ''private_key_base64'') ''private_key_base64'') (\<lambda>priv.
     bind_res (readString (field v ''public_key_base64'') ''public_key_base64'') (\<lambda>pub.
       Inr \<lparr>gk_privateKey = priv, gk_publicKey = pub\<rparr>)))"

definition parseHandshakeInfo :: "json option \<Rightarrow> handshake_info res" where
  "parseHandshakeInfo j =
     bind_res (parseObject j ''NoiseHandshakeMsg1 result'') (\<lambda>v.
     bind_res (readString (field v ''client_encryption_algorithm'') ''client_encryption_algorithm'') (\<lambda>_.
     bind_res (readPeerId (field v ''peer_id'') ''peer_id'') (\<lambda>pid.
     bind_res (readString (field v ''network_name'') ''network_name'') (\<lambda>name.
       Inr \<lparr>hi_peerId = pid, hi_networkName = name\<rparr>))))"

definition parseLegacyHandshakeInfo :: "json option \<Rightarrow> legacy_info res" where
  "parseLegacyHandshakeInfo j =
     bind_res (parseObject j ''legacy Handshake result'') (\<lambda>v.
     bind_res (readPeerId (field v ''peer_id'') ''peer_id'') (\<lambda>pid.
     bind_res (readString (field v ''network_name'') ''network_name'') (\<lambda>name.
     bind_res (readString (field v ''network_secret_digest_base64'') ''network_secret_digest_base64'') (\<lambda>b64.
     bind_res (decodeDigest b64) (\<lambda>digest.
       Inr \<lparr>li_peerId = pid, li_networkName = name, li_networkSecretDigest = digest\<rparr>)))))"

definition parseAuthenticationInfo :: "json option \<Rightarrow> authentication_info res" where
  "parseAuthenticationInfo j =
     bind_res (parseObject j ''NoiseHandshakeMsg3 result'') (\<lambda>v.
       if field v ''auth_level'' \<noteq> Some (JStr (ustr ''NetworkSecretConfirmed''))
       then raise ''secure handshake did not confirm the network secret''
       else
         bind_res (readPeerId (field v ''peer_id'') ''peer_id'') (\<lambda>pid.
         bind_res (readString (field v ''network_name'') ''network_name'') (\<lambda>name.
         bind_res (readString (field v ''remote_public_key_base64'') ''remote_public_key_base64'') (\<lambda>b64.
         bind_res (decodePublicKey b64) (\<lambda>key.
           Inr \<lparr>ai_peerId = pid, ai_networkName = name, ai_remotePublicKey = key\<rparr>)))))"

section \<open>Library lemmas\<close>

lemma readPeerId_nat:
  assumes "0 < n" and "n \<le> 4294967295"
  shows "readPeerId (Some (JNum (of_nat n))) name = Inr (of_nat n)"
proof -
  have "(of_nat n :: rat) \<le> of_nat 4294967295" using assms(2) by (simp only: of_nat_le_iff)
  with assms(1) show ?thesis by (simp add: readPeerId_def floor_of_nat)
qed

lemma readPeerId_u32:
  assumes "pid \<noteq> 0"
  shows "readPeerId (Some (JNum (of_nat (unat pid)))) name = Inr pid"
proof -
  have "unat pid < 2 ^ LENGTH(32)" by (rule unsigned_less)
  then have "0 < unat pid" "unat pid \<le> 4294967295" using assms by (simp_all add: unat_gt_0)
  note read = readPeerId_nat [OF this, of name]
  have "(of_nat (unat pid) :: peer_id) = pid" by simp
  with read show ?thesis by argo
qed

lemma readString_text: "s \<noteq> [] \<Longrightarrow> readString (Some (JStr s)) name = Inr s"
  by (simp add: readString_def)

section \<open>Properties\<close>

text \<open>
  What the core reports the host accepts and reads back: the JSON object a handshake result is
  serialised to passes validation and yields the same peer id and network name, for every non-zero peer
  id, non-empty name and 32-byte key, when the key travels as base64.
\<close>

theorem authentication_info_roundtrip:
  assumes "pid \<noteq> 0" and "name \<noteq> []" and "length key = 32"
  shows "parseAuthenticationInfo (Some (JObj [(ustr ''peer_id'', JNum (of_nat (unat pid))),
       (ustr ''network_name'', JStr name), (ustr ''remote_public_key_base64'', JStr (rfc4648 key)),
       (ustr ''auth_level'', JStr (ustr ''NetworkSecretConfirmed''))])) =
     Inr \<lparr>ai_peerId = pid, ai_networkName = name, ai_remotePublicKey = key\<rparr>"
proof -
  have key: "atob (rfc4648 key) = Some key" "rfc4648 key \<noteq> []"
    using assms(3) atob_rfc4648 [of key] by (auto simp: atob_def strip_padding_def Let_def)
  note pid = readPeerId_u32 [OF assms(1)]
  show ?thesis
    unfolding parseAuthenticationInfo_def parseObject_def field_def
    by (simp add: pid readString_text assms(2) key(2) ustr_def del: of_nat_unat) (simp add: decodePublicKey_def key assms(3))
qed

theorem authentication_info_roundtrip_witness:
  "is_ok (parseAuthenticationInfo (Some (JObj [(ustr ''peer_id'', JNum (of_nat (unat (5 :: peer_id)))),
       (ustr ''network_name'', JStr [110]), (ustr ''remote_public_key_base64'', JStr (rfc4648 (replicate 32 1))),
       (ustr ''auth_level'', JStr (ustr ''NetworkSecretConfirmed''))])))"
  by (subst authentication_info_roundtrip) simp_all

end
