(* ===== verification/Connection.thy ===== *)
theory Connection
  imports RouteState Legacy Config
begin

unbundle bit_operations_syntax

text \<open>
  A client connection, \<^verbatim>\<open>src/runtime/connection.ts\<close>. Connections are objects shared by the registry, the
  server's connection table and the RPC layer; they live in a heap \<open>net_conns\<close> and are referred to by
  the identity of their socket. \<open>net_sessions\<close> is the session store of the secure peers, shared by all of
  them. The socket is its ready state, the frames sent on it and the close it was given.

  The environment of one event, \<open>world_env\<close>: the libraries, the clock (a Worker's clock stands still while
  it computes) and the random draws, numbered by the counter \<open>net_ctr\<close>.
\<close>

section \<open>State\<close>

type_synonym conn_id = nat

datatype connection_phase = Msg1 | Msg3 | Ready | Closed

record connection =
  cn_secure :: secure_peer
  cn_freed :: bool
  cn_legacyCipher :: "legacy_cipher option"
  cn_remotePublicKey :: bytes
  cn_phase :: connection_phase
  cn_mode :: connection_mode
  cn_peerId :: peer_id
  cn_networkName :: ustring
  cn_clientIp :: ustring
  cn_serverSessionId :: u64
  cn_handshakeTimer :: bool
  cn_sendWindowStartedAt :: nat
  cn_sentBytesInWindow :: nat
  cn_sentFramesInWindow :: nat
  cn_readyState :: nat
  cn_sent :: "bytes list"
  cn_closed_with :: "(nat \<times> string) option"

record net =
  net_conns :: "(conn_id, connection) jmap"
  net_sessions :: session_store
  net_ctr :: nat

record world_env =
  we_crypto :: crypto
  we_codec :: codec
  we_now :: nat
  we_group_seed :: "nat \<Rightarrow> group_seed"
  we_draws :: "nat \<Rightarrow> u64 option list"
  we_bytes :: "nat \<Rightarrow> nat \<Rightarrow> bytes option"
  we_uuid :: "nat \<Rightarrow> uuid option"

definition WS_OPEN :: nat where "WS_OPEN = 1"
definition HANDSHAKE_TIMEOUT_MS :: nat where "HANDSHAKE_TIMEOUT_MS = 10000"
definition SEND_WINDOW_MS :: nat where "SEND_WINDOW_MS = 1000"
definition MAX_SEND_BYTES_PER_WINDOW :: nat where "MAX_SEND_BYTES_PER_WINDOW = 32 * 1024 * 1024"
definition MAX_SEND_FRAMES_PER_WINDOW :: nat where "MAX_SEND_FRAMES_PER_WINDOW = 4096"

lemmas connection_consts [edge_simps] = WS_OPEN_def HANDSHAKE_TIMEOUT_MS_def SEND_WINDOW_MS_def
  MAX_SEND_BYTES_PER_WINDOW_def MAX_SEND_FRAMES_PER_WINDOW_def

section \<open>Operations\<close>

text \<open>\<open>randomU64\<close>: two random words, and never zero.\<close>

definition randomU64 :: "u32 \<Rightarrow> u32 \<Rightarrow> u64" where
  "randomU64 hi lo = (let v = push_bit 32 (ucast hi) OR ucast lo in if v = 0 then 1 else v)"

definition createConnection :: "secure_peer \<Rightarrow> ustring \<Rightarrow> u32 \<Rightarrow> u32 \<Rightarrow> nat \<Rightarrow> connection" where
  "createConnection sec clientIp hi lo now =
     \<lparr>cn_secure = sec, cn_freed = False, cn_legacyCipher = None, cn_remotePublicKey = [], cn_phase = Msg1,
      cn_mode = SecureMode, cn_peerId = 0, cn_networkName = [], cn_clientIp = clientIp,
      cn_serverSessionId = randomU64 hi lo, cn_handshakeTimer = True, cn_sendWindowStartedAt = now,
      cn_sentBytesInWindow = 0, cn_sentFramesInWindow = 0, cn_readyState = WS_OPEN, cn_sent = [],
      cn_closed_with = None\<rparr>"

definition completeHandshake :: "connection \<Rightarrow> connection" where
  "completeHandshake c = c\<lparr>cn_handshakeTimer := False, cn_phase := Ready\<rparr>"

definition sendConnection :: "nat \<Rightarrow> bytes \<Rightarrow> (unit, connection) st" where
  "sendConnection now pkt c =
     (let c1 = (if now - cn_sendWindowStartedAt c \<ge> SEND_WINDOW_MS
                then c\<lparr>cn_sendWindowStartedAt := now, cn_sentBytesInWindow := 0, cn_sentFramesInWindow := 0\<rparr> else c)
      in if cn_sentBytesInWindow c1 + length pkt > MAX_SEND_BYTES_PER_WINDOW
            \<or> cn_sentFramesInWindow c1 \<ge> MAX_SEND_FRAMES_PER_WINDOW
         then (raise ''WebSocket outbound relay capacity exceeded'', c1)
         else if cn_readyState c1 \<noteq> WS_OPEN then (raise ''WebSocket is not open'', c1)
         else (Inr (), c1\<lparr>cn_sentBytesInWindow := cn_sentBytesInWindow c1 + length pkt,
                          cn_sentFramesInWindow := cn_sentFramesInWindow c1 + 1,
                          cn_sent := cn_sent c1 @ [pkt]\<rparr>))"

text \<open>Access to a connection of the heap; a dangling reference cannot occur in JavaScript.\<close>

definition on_conn :: "conn_id \<Rightarrow> (connection \<Rightarrow> 'a res \<times> connection) \<Rightarrow> ('a, 'z net_scheme) st" where
  "on_conn cid f s =
     (case jget (net_conns s) cid of
        None \<Rightarrow> (raise ''dangling connection'', s)
      | Some c \<Rightarrow> (let (r, c') = f c in (r, s\<lparr>net_conns := jset cid c' (net_conns s)\<rparr>)))"

definition conn_of :: "'z net_scheme \<Rightarrow> conn_id \<Rightarrow> connection" where
  "conn_of s cid = the (jget (net_conns s) cid)"

definition upd_conn :: "conn_id \<Rightarrow> (connection \<Rightarrow> connection) \<Rightarrow> 'z net_scheme \<Rightarrow> 'z net_scheme" where
  "upd_conn cid f s =
     (case jget (net_conns s) cid of
        None \<Rightarrow> s | Some c \<Rightarrow> s\<lparr>net_conns := jset cid (f c) (net_conns s)\<rparr>)"

text \<open>\<open>connection.send\<close>.\<close>

definition conn_send :: "world_env \<Rightarrow> conn_id \<Rightarrow> bytes \<Rightarrow> (unit, 'z net_scheme) st" where
  "conn_send E cid pkt = on_conn cid (sendConnection (we_now E) pkt)"

text \<open>A call into the secure peer of a connection, which also works on the shared session store.\<close>

definition on_secure ::
    "conn_id \<Rightarrow> (secure_peer \<Rightarrow> session_store \<Rightarrow> 'a res \<times> secure_peer \<times> session_store) \<Rightarrow> ('a, 'z net_scheme) st" where
  "on_secure cid f s =
     (case jget (net_conns s) cid of
        None \<Rightarrow> (raise ''dangling connection'', s)
      | Some c \<Rightarrow>
          if cn_freed c then (raise ''null pointer passed to rust'', s)
          else (let (r, p, store) = f (cn_secure c) (net_sessions s)
                in (r, s\<lparr>net_conns := jset cid (c\<lparr>cn_secure := p\<rparr>) (net_conns s), net_sessions := store\<rparr>)))"

definition fresh_ctr :: "(nat, 'z net_scheme) st" where
  "fresh_ctr s = (Inr (net_ctr s), s\<lparr>net_ctr := net_ctr s + 1\<rparr>)"

text \<open>\<open>connection.encrypt\<close>: the closure of \<open>createConnection\<close>, which reads mode and cipher when it is called.\<close>

definition conn_encrypt :: "world_env \<Rightarrow> conn_id \<Rightarrow> bytes \<Rightarrow> (bytes, 'z net_scheme) st" where
  "conn_encrypt E cid pkt s =
     (case jget (net_conns s) cid of
        None \<Rightarrow> (raise ''dangling connection'', s)
      | Some c \<Rightarrow>
          if cn_mode c = LegacyMode
          then (case cn_legacyCipher c of
                  None \<Rightarrow> (Inr pkt, s)
                | Some lc \<Rightarrow> st_bind fresh_ctr (\<lambda>n. st_lift (legacy_encrypt_packet (we_crypto E) (we_bytes E n 12) lc pkt)) s)
          else on_secure cid (encrypt_packet (we_crypto E) (we_now E) pkt) s)"

definition disposeConnection :: "world_env \<Rightarrow> conn_id \<Rightarrow> 'z net_scheme \<Rightarrow> 'z net_scheme" where
  "disposeConnection E cid s =
     (case jget (net_conns s) cid of
        None \<Rightarrow> s
      | Some c \<Rightarrow> s\<lparr>net_conns := jset cid (c\<lparr>cn_handshakeTimer := False, cn_freed := True, cn_legacyCipher := None\<rparr>) (net_conns s),
                   net_sessions := (if cn_freed c then net_sessions s
                                    else drop_secure_peer (we_now E) (cn_secure c) (net_sessions s))\<rparr>)"

section \<open>The outbound rate limit\<close>

text \<open>
  A run of sends on one connection: the attempts with their clock readings, and the accepted ones. The
  load of an interval of time is the sum of a weight (bytes, or one per frame) of what was accepted in it.
\<close>

type_synonym send_log = "(nat \<times> bytes) list"

fun send_run :: "send_log \<Rightarrow> connection \<Rightarrow> send_log \<times> connection" where
  "send_run [] c = ([], c)"
| "send_run ((now, pkt) # rest) c =
     (case sendConnection now pkt c of
        (Inl _, c') \<Rightarrow> send_run rest c'
      | (Inr _, c') \<Rightarrow> (let (sent, c'') = send_run rest c' in ((now, pkt) # sent, c'')))"

definition load_in :: "(bytes \<Rightarrow> nat) \<Rightarrow> nat set \<Rightarrow> send_log \<Rightarrow> nat" where
  "load_in f T L = sum_list (map (\<lambda>(t, p). if t \<in> T then f p else 0) L)"

definition window_inv :: "(bytes \<Rightarrow> nat) \<Rightarrow> nat \<Rightarrow> nat \<Rightarrow> nat \<Rightarrow> send_log \<Rightarrow> bool" where
  "window_inv f M w used L \<longleftrightarrow>
     load_in f {w..} L = used \<and> used \<le> M \<and> load_in f {w - SEND_WINDOW_MS..<w} L \<le> M
     \<and> (\<forall>t. load_in f {t..<t + SEND_WINDOW_MS} L \<le> 2 * M)"

lemma load_in_Nil [simp]: "load_in f T [] = 0"
  by (simp add: load_in_def)

lemma load_in_snoc [simp]: "load_in f T (L @ [(t, p)]) = load_in f T L + (if t \<in> T then f p else 0)"
  by (simp add: load_in_def)

lemma load_in_mono: "S \<subseteq> T \<Longrightarrow> load_in f S L \<le> load_in f T L"
  unfolding load_in_def by (induction L) (auto simp: split_beta add_mono trans_le_add2)

lemma load_in_union: "S \<inter> T = {} \<Longrightarrow> load_in f (S \<union> T) L = load_in f S L + load_in f T L"
  unfolding load_in_def by (induction L) (auto simp: split_beta)

lemma window_inv_Nil: "window_inv f M w 0 []"
  by (simp add: window_inv_def)

lemma load_after_all: "\<forall>(u, _) \<in> set L. u < w \<Longrightarrow> load_in f {w..} L = 0"
  unfolding load_in_def by (induction L) auto

text \<open>A new window that starts a full window length later, and a send within the current window.\<close>

lemma window_inv_advance:
  assumes "window_inv f M w used L" "w + SEND_WINDOW_MS \<le> now" "\<forall>(u, _) \<in> set L. u < now"
  shows "window_inv f M now 0 L"
proof -
  have "load_in f {now - SEND_WINDOW_MS..<now} L \<le> load_in f {w..} L"
    using assms(2) by (intro load_in_mono) auto
  then show ?thesis
    using assms by (simp add: window_inv_def load_after_all)
qed

lemma window_inv_send:
  assumes inv: "window_inv f M w used L" and le: "w \<le> now" and cap: "used + f p \<le> M"
  shows "window_inv f M w (used + f p) (L @ [(now, p)])"
proof -
  have "load_in f {t..<t + SEND_WINDOW_MS} L + f p \<le> 2 * M" if t: "t \<le> now" "now < t + SEND_WINDOW_MS" for t
  proof -
    have "load_in f {t..<t + SEND_WINDOW_MS} L \<le> load_in f ({w - SEND_WINDOW_MS..<w} \<union> {w..}) L"
      using le t by (intro load_in_mono) (auto simp: connection_consts)
    also have "\<dots> = load_in f {w - SEND_WINDOW_MS..<w} L + load_in f {w..} L"
      by (rule load_in_union) auto
    finally show ?thesis using inv cap by (simp add: window_inv_def)
  qed
  then show ?thesis
    using inv le cap by (auto simp: window_inv_def intro: trans_le_add1)
qed

definition send_inv :: "nat \<Rightarrow> connection \<Rightarrow> send_log \<Rightarrow> bool" where
  "send_inv now c L \<longleftrightarrow>
     cn_sendWindowStartedAt c \<le> now \<and> (\<forall>(u, _) \<in> set L. u \<le> now \<and> u < cn_sendWindowStartedAt c + SEND_WINDOW_MS)
     \<and> window_inv length MAX_SEND_BYTES_PER_WINDOW (cn_sendWindowStartedAt c) (cn_sentBytesInWindow c) L
     \<and> window_inv (\<lambda>_. 1) MAX_SEND_FRAMES_PER_WINDOW (cn_sendWindowStartedAt c) (cn_sentFramesInWindow c) L"

lemma send_inv_later: "send_inv now c L \<Longrightarrow> now \<le> now' \<Longrightarrow> send_inv now' c L"
  by (fastforce simp: send_inv_def)

definition roll_window :: "nat \<Rightarrow> connection \<Rightarrow> connection" where
  "roll_window now c =
     (if now - cn_sendWindowStartedAt c \<ge> SEND_WINDOW_MS
      then c\<lparr>cn_sendWindowStartedAt := now, cn_sentBytesInWindow := 0, cn_sentFramesInWindow := 0\<rparr> else c)"

lemma send_inv_roll:
  assumes "send_inv now c L"
  shows "send_inv now (roll_window now c) L
         \<and> now < cn_sendWindowStartedAt (roll_window now c) + SEND_WINDOW_MS"
proof (cases "now - cn_sendWindowStartedAt c \<ge> SEND_WINDOW_MS")
  case True
  then have "cn_sendWindowStartedAt c + SEND_WINDOW_MS \<le> now" by (simp add: connection_consts)
  moreover from this assms have "\<forall>(u, _) \<in> set L. u < now" by (fastforce simp: send_inv_def)
  ultimately show ?thesis
    using True assms
    by (auto simp: send_inv_def roll_window_def connection_consts intro: window_inv_advance)
next
  case False
  with assms show ?thesis by (auto simp: send_inv_def roll_window_def connection_consts)
qed

lemma send_inv_send:
  assumes "send_inv now c L"
  shows "case sendConnection now p c of
           (Inl _, c') \<Rightarrow> send_inv now c' L | (Inr _, c') \<Rightarrow> send_inv now c' (L @ [(now, p)])"
proof -
  define c1 where "c1 = roll_window now c"
  have inv: "send_inv now c1 L" "now < cn_sendWindowStartedAt c1 + SEND_WINDOW_MS"
    using send_inv_roll [OF assms] by (simp_all add: c1_def)
  have "send_inv now (c1\<lparr>cn_sentBytesInWindow := cn_sentBytesInWindow c1 + length p,
          cn_sentFramesInWindow := cn_sentFramesInWindow c1 + 1, cn_sent := cn_sent c1 @ [p]\<rparr>) (L @ [(now, p)])"
    if "cn_sentBytesInWindow c1 + length p \<le> MAX_SEND_BYTES_PER_WINDOW"
       "cn_sentFramesInWindow c1 < MAX_SEND_FRAMES_PER_WINDOW"
    using inv that by (auto simp: send_inv_def intro: window_inv_send window_inv_send [where f = "\<lambda>_. 1", simplified])
  then show ?thesis
    using inv by (auto simp: sendConnection_def Let_def c1_def roll_window_def not_less not_le)
qed

lemma send_run_inv:
  "send_inv t c L \<Longrightarrow> sorted (t # map fst evs) \<Longrightarrow>
     \<exists>t'. send_inv t' (snd (send_run evs c)) (L @ fst (send_run evs c))"
proof (induction evs arbitrary: t c L)
  case Nil
  then show ?case by auto
next
  case (Cons ev evs)
  obtain now p where ev: "ev = (now, p)" by fastforce
  from Cons.prems have inv: "send_inv now c L" by (auto simp: ev intro: send_inv_later)
  from Cons.prems have sorted: "sorted (now # map fst evs)" by (simp add: ev)
  show ?case
    using send_inv_send [OF inv, of p] Cons.IH [OF _ sorted]
    by (fastforce simp: ev split_beta split: prod.splits sum.splits)
qed

text \<open>
  C37. The outbound rate limit holds for every interval, not only for the limiter's own windows: on a
  connection created at time \<open>start\<close>, whatever is sent and however the attempts fall, any 1000 ms
  carry at most twice the window quota of bytes and of frames.
\<close>

theorem send_rate_bounded:
  assumes "sorted (start # map fst attempts)"
  shows "let sent = fst (send_run attempts (createConnection sec ip hi lo start))
         in load_in length {t..<t + SEND_WINDOW_MS} sent \<le> 2 * MAX_SEND_BYTES_PER_WINDOW
            \<and> load_in (\<lambda>_. 1) {t..<t + SEND_WINDOW_MS} sent \<le> 2 * MAX_SEND_FRAMES_PER_WINDOW"
proof -
  have "send_inv start (createConnection sec ip hi lo start) []"
    by (simp add: send_inv_def createConnection_def window_inv_Nil)
  from send_run_inv [OF this assms] show ?thesis
    by (auto simp: send_inv_def window_inv_def Let_def)
qed

theorem send_rate_bounded_witness:
  "let sent = fst (send_run [(5, [1, 2]), (900, [3])] (createConnection toy_peer (ustr ''ip'') 1 2 4))
   in length sent = 2 \<and> load_in length {0..<1000} sent \<le> 2 * MAX_SEND_BYTES_PER_WINDOW"
proof -
  have "sorted ((4 :: nat) # map fst [(5, [1, 2 :: byte]), (900, [3])])" by simp
  from send_rate_bounded [OF this, of toy_peer "ustr ''ip''" 1 2 0] show ?thesis
    by (simp add: sendConnection_def createConnection_def connection_consts Let_def)
qed

section \<open>What traffic leaves unchanged\<close>

text \<open>
  Sending and encrypting move the session, the rate window and the socket's log, never the part of a
  connection the server's bookkeeping rests on: \<open>conn_admin\<close>.
\<close>

record conn_facts =
  cf_phase :: connection_phase
  cf_mode :: connection_mode
  cf_peerId :: peer_id
  cf_networkName :: ustring
  cf_clientIp :: ustring
  cf_freed :: bool
  cf_timer :: bool
  cf_cipher :: "legacy_cipher option"
  cf_peer :: "bool \<times> peer_id option \<times> ustring option"

definition peer_facts :: "secure_peer \<Rightarrow> bool \<times> peer_id option \<times> ustring option" where
  "peer_facts p = (authenticated p, sp_peer_id p, sp_network_name p)"

definition conn_admin :: "connection \<Rightarrow> conn_facts" where
  "conn_admin c = \<lparr>cf_phase = cn_phase c, cf_mode = cn_mode c, cf_peerId = cn_peerId c,
     cf_networkName = cn_networkName c, cf_clientIp = cn_clientIp c, cf_freed = cn_freed c,
     cf_timer = cn_handshakeTimer c, cf_cipher = cn_legacyCipher c, cf_peer = peer_facts (cn_secure c)\<rparr>"

lemma conn_admin_simps [simp]:
  "cf_phase (conn_admin c) = cn_phase c" "cf_mode (conn_admin c) = cn_mode c"
  "cf_peerId (conn_admin c) = cn_peerId c" "cf_networkName (conn_admin c) = cn_networkName c"
  "cf_clientIp (conn_admin c) = cn_clientIp c" "cf_freed (conn_admin c) = cn_freed c"
  "cf_timer (conn_admin c) = cn_handshakeTimer c" "cf_cipher (conn_admin c) = cn_legacyCipher c"
  "cf_peer (conn_admin c) = peer_facts (cn_secure c)"
  by (simp_all add: conn_admin_def)

definition admin :: "'z net_scheme \<Rightarrow> conn_id \<Rightarrow> conn_facts option" where
  "admin s cid = map_option conn_admin (jget (net_conns s) cid)"

text \<open>A computation that changes no administrative fact, and one that changes nothing of the extended record,
  where the layers above keep their state.\<close>

abbreviation quiet :: "('a, 'z net_scheme) st \<Rightarrow> bool" where
  "quiet \<equiv> unchanged admin"

abbreviation local_net :: "('a, 'z net_scheme) st \<Rightarrow> bool" where
  "local_net \<equiv> unchanged net.more"

lemma conn_admin_send: "conn_admin (snd (sendConnection now pkt c)) = conn_admin c"
  by (auto simp: sendConnection_def conn_admin_def Let_def)

lemma quiet_on_conn: "(\<And>c. conn_admin (snd (f c)) = conn_admin c) \<Longrightarrow> quiet (on_conn cid f)"
  by (auto simp: unchanged_def on_conn_def admin_def fun_eq_iff split_beta split: option.splits)

lemma quiet_on_secure:
  "(\<And>p store. peer_facts (fst (snd (f p store))) = peer_facts p) \<Longrightarrow> quiet (on_secure cid f)"
  by (auto simp: unchanged_def on_secure_def admin_def fun_eq_iff conn_admin_def split_beta split: option.splits)

lemma quiet_conn_send [intro]: "quiet (conn_send E cid pkt)"
  unfolding conn_send_def by (rule quiet_on_conn) (rule conn_admin_send)

lemma quiet_fresh_ctr [intro]: "quiet fresh_ctr"
  by (simp add: unchanged_def fresh_ctr_def admin_def fun_eq_iff)

lemma peer_facts_load: "peer_facts (snd (load_session_state p store)) = peer_facts p"
  by (auto simp: load_session_state_def peer_facts_def split: option.splits)

lemma peer_facts_encrypt: "peer_facts (fst (snd (encrypt_packet C now pkt p store))) = peer_facts p"
  using peer_facts_load [of p store]
  by (auto simp: encrypt_packet_def Let_def split_beta peer_facts_def split: sum.splits prod.splits)

lemma peer_facts_decrypt: "peer_facts (fst (snd (decrypt_packet C now pkt p store))) = peer_facts p"
  using peer_facts_load [of p store]
  by (auto simp: decrypt_packet_def Let_def split_beta peer_facts_def split: sum.splits prod.splits option.splits)

lemma quiet_conn_encrypt [intro]: "quiet (conn_encrypt E cid pkt)"
proof -
  have "quiet (st_bind fresh_ctr (\<lambda>n. st_lift (legacy_encrypt_packet (we_crypto E) (we_bytes E n 12) lc pkt)
      :: (bytes, 'a net_scheme) st))" for lc
    by auto
  moreover have "quiet (on_secure cid (encrypt_packet (we_crypto E) (we_now E) pkt) :: (bytes, 'a net_scheme) st)"
    by (rule quiet_on_secure) (rule peer_facts_encrypt)
  ultimately show ?thesis
    by (auto simp: unchanged_def conn_encrypt_def split: option.splits)
qed

lemma local_net_on_conn [intro]: "local_net (on_conn cid f)"
  by (auto simp: unchanged_def on_conn_def split_beta split: option.splits)

lemma local_net_on_secure [intro]: "local_net (on_secure cid f)"
  by (auto simp: unchanged_def on_secure_def split_beta split: option.splits)

lemma local_net_conn_send [intro]: "local_net (conn_send E cid pkt)"
  unfolding conn_send_def by auto

lemma local_net_fresh_ctr [intro]: "local_net fresh_ctr"
  by (simp add: unchanged_def fresh_ctr_def)

lemma local_net_conn_encrypt [intro]: "local_net (conn_encrypt E cid pkt)"
  using local_net_on_secure [of cid "encrypt_packet (we_crypto E) (we_now E) pkt"]
  by (auto simp: unchanged_def conn_encrypt_def fresh_ctr_def st_bind_def split: option.splits prod.splits sum.splits)

end
