(* ===== verification/Rpc.thy ===== *)
theory Rpc
  imports Connection RpcCore
begin

unbundle bit_operations_syntax

text \<open>
  The driver of the RPC core, \<^verbatim>\<open>src/core/rpc.ts\<close>: class \<open>EasyTierRpc\<close>. Its peers are connections, named
  by their identity in the heap; a field of a peer is read when the code reads it. One
  \<open>route_sync_state\<close> per peer decides when a route update is sent: at most one is in flight, later
  requests set \<open>dirty\<close> or \<open>forceFull\<close> and are served when it completes or times out.

  \<open>rpc_core\<close> is \<open>None\<close> until the server's identity is resolved; using it before is the
  \<open>TypeError\<close> of JavaScript.
\<close>

section \<open>State\<close>

record route_sync_state =
  ry_peer :: conn_id
  ry_inFlight :: bool
  ry_dirty :: bool
  ry_forceFull :: bool
  ry_sentAt :: nat
  ry_lastCompletedAt :: nat

record route_sync_failure =
  rf_networkName :: ustring
  rf_peerId :: js_num
  rf_error :: js_error

record rpc_world = net +
  rpc_core :: "wasm_rpc_core option"
  rpc_states :: "(ustring, route_sync_state) jmap"
  rpc_serverPeerId :: peer_id

datatype rpc_outcome = OutHandled | OutRoute | OutRouteSession | OutPending

definition ROUTE_SYNC_TIMEOUT_MS :: nat where "ROUTE_SYNC_TIMEOUT_MS = 3000"
definition ROUTE_MAINTENANCE_INTERVAL_MS :: nat where "ROUTE_MAINTENANCE_INTERVAL_MS = 10000"

section \<open>Access\<close>

definition with_conn :: "conn_id \<Rightarrow> (connection \<Rightarrow> ('a, 'z net_scheme) st) \<Rightarrow> ('a, 'z net_scheme) st" where
  "with_conn cid f s =
     (case jget (net_conns s) cid of None \<Rightarrow> (raise ''dangling connection'', s) | Some c \<Rightarrow> f c s)"

definition on_core :: "(wasm_rpc_core \<Rightarrow> 'a res \<times> wasm_rpc_core) \<Rightarrow> ('a, 'z rpc_world_scheme) st" where
  "on_core f s =
     (case rpc_core s of
        None \<Rightarrow> (raise ''rpc is undefined'', s)
      | Some c \<Rightarrow> (let (r, c') = f c in (r, s\<lparr>rpc_core := Some c'\<rparr>)))"

text \<open>A total operation of the core, and the random draws of one call.\<close>

definition total_op :: "(wasm_rpc_core \<Rightarrow> 'a \<times> wasm_rpc_core) \<Rightarrow> wasm_rpc_core \<Rightarrow> 'a res \<times> wasm_rpc_core" where
  "total_op f c = (let (x, c') = f c in (Inr x, c'))"

definition on_core_seeded ::
    "world_env \<Rightarrow> (nat \<Rightarrow> wasm_rpc_core \<Rightarrow> 'a res \<times> wasm_rpc_core) \<Rightarrow> ('a, 'z rpc_world_scheme) st" where
  "on_core_seeded E f = st_bind fresh_ctr (\<lambda>n. on_core (f n))"

definition set_state :: "ustring \<Rightarrow> route_sync_state \<Rightarrow> 'z rpc_world_scheme \<Rightarrow> 'z rpc_world_scheme" where
  "set_state key st s = s\<lparr>rpc_states := jset key st (rpc_states s)\<rparr>"

definition routeSyncKey :: "connection \<Rightarrow> ustring" where
  "routeSyncKey peer = cn_networkName peer @ [58] @ dec_digits (unat (cn_peerId peer))"

section \<open>Operations\<close>

definition newEasyTierRpc ::
    "world_env \<Rightarrow> bytes \<Rightarrow> ustring \<Rightarrow> peer_id \<Rightarrow> bool \<Rightarrow> (unit, 'z rpc_world_scheme) st" where
  "newEasyTierRpc E publicKey host sid disableRelayData =
     st_bind (st_lift (new_rpc_core publicKey host sid)) (\<lambda>core0.
     st_bind fresh_ctr (\<lambda>n.
     st_bind (st_lift (if disableRelayData
                       then (case set_avoid_relay_data (we_group_seed E n) True core0 of
                               (Inl e, _) \<Rightarrow> Inl e | (Inr _, core) \<Rightarrow> Inr core)
                       else Inr core0)) (\<lambda>core.
     st_modify (\<lambda>s. s\<lparr>rpc_core := Some core, rpc_states := [], rpc_serverPeerId := sid\<rparr>))))"

definition addPeer :: "world_env \<Rightarrow> conn_id \<Rightarrow> (unit, 'z rpc_world_scheme) st" where
  "addPeer E cid = with_conn cid (\<lambda>peer.
     st_seq (on_core_seeded E (\<lambda>n. core_add_peer (we_group_seed E n) (cn_networkName peer) (cn_peerId peer)
                                     (cn_remotePublicKey peer) (we_now E)))
            (st_modify (\<lambda>s. s\<lparr>rpc_states := jdel (routeSyncKey peer) (rpc_states s)\<rparr>)))"

definition removePeer :: "world_env \<Rightarrow> conn_id \<Rightarrow> (unit, 'z rpc_world_scheme) st" where
  "removePeer E cid = with_conn cid (\<lambda>peer.
     st_seq (on_core_seeded E (\<lambda>n. total_op (\<lambda>c. ((), core_remove_peer (we_group_seed E n) (cn_networkName peer) (cn_peerId peer) c))))
            (st_modify (\<lambda>s. s\<lparr>rpc_states := jdel (routeSyncKey peer) (rpc_states s)\<rparr>)))"

definition getNextHop :: "ustring \<Rightarrow> peer_id \<Rightarrow> (peer_id, 'z rpc_world_scheme) st" where
  "getNextHop networkName peerId = on_core (total_op (\<lambda>c. (core_get_next_hop networkName peerId c, c)))"

definition setPeerRouteId :: "ustring \<Rightarrow> ustring \<Rightarrow> (unit, 'z rpc_world_scheme) st" where
  "setPeerRouteId networkName routeId = on_core (set_peer_route_id networkName routeId)"

definition getPeerRouteId :: "world_env \<Rightarrow> ustring \<Rightarrow> (ustring, 'z rpc_world_scheme) st" where
  "getPeerRouteId E networkName =
     on_core_seeded E (\<lambda>n. total_op (get_peer_route_id (we_group_seed E n) networkName))"

definition sendControl :: "world_env \<Rightarrow> conn_id \<Rightarrow> packet_type \<Rightarrow> bytes \<Rightarrow> (unit, 'z rpc_world_scheme) st" where
  "sendControl E cid ptype pl = with_conn cid (\<lambda>peer.
     st_bind (st_gets rpc_serverPeerId) (\<lambda>sid.
     st_bind (st_lift (createPacket sid (cn_peerId peer) (pt_code ptype) pl)) (\<lambda>clear.
     st_bind (conn_encrypt E cid clear) (\<lambda>encrypted.
     conn_send E cid encrypted))))"

text \<open>
  \<open>flushRouteUpdate\<close>: nothing is sent while an update is in flight; the flags are cleared once the packet
  is built and restored when it cannot be sent.
\<close>

definition flushRouteUpdate :: "world_env \<Rightarrow> ustring \<Rightarrow> nat \<Rightarrow> (unit, 'z rpc_world_scheme) st" where
  "flushRouteUpdate E key now s =
     (case jget (rpc_states s) key of
        None \<Rightarrow> (Inr (), s)
      | Some st \<Rightarrow>
          if ry_inFlight st \<or> (\<not> ry_dirty st \<and> \<not> ry_forceFull st) then (Inr (), s)
          else with_conn (ry_peer st) (\<lambda>peer.
             st_bind (on_core_seeded E (\<lambda>n. build_route_update (we_codec E) (we_group_seed E n) (we_draws E n)
                        (cn_networkName peer) (cn_peerId peer) (cn_serverSessionId peer) (ry_forceFull st) now))
               (\<lambda>packet.
             st_seq (st_modify (set_state key (st\<lparr>ry_dirty := False, ry_forceFull := False,
                                                  ry_inFlight := True, ry_sentAt := now\<rparr>)))
             (st_catch (sendControl E (ry_peer st) RpcReq packet)
               (\<lambda>e. st_seq (st_modify (set_state key (st\<lparr>ry_dirty := True, ry_forceFull := ry_forceFull st,
                                                          ry_inFlight := False, ry_sentAt := now\<rparr>)))
                           (st_throw e))))) s)"

definition new_sync_state :: "conn_id \<Rightarrow> route_sync_state" where
  "new_sync_state cid = \<lparr>ry_peer = cid, ry_inFlight = False, ry_dirty = False, ry_forceFull = False,
     ry_sentAt = 0, ry_lastCompletedAt = 0\<rparr>"

definition sendRouteUpdate :: "world_env \<Rightarrow> conn_id \<Rightarrow> bool \<Rightarrow> (unit, 'z rpc_world_scheme) st" where
  "sendRouteUpdate E cid forceFull = with_conn cid (\<lambda>peer.
     let key = routeSyncKey peer
     in st_seq (st_modify (\<lambda>s.
          let st = (case jget (rpc_states s) key of None \<Rightarrow> new_sync_state cid | Some st \<Rightarrow> st)
          in set_state key (st\<lparr>ry_peer := cid, ry_dirty := True, ry_forceFull := ry_forceFull st \<or> forceFull\<rparr>) s))
        (flushRouteUpdate E key (we_now E)))"

definition handleRequest :: "world_env \<Rightarrow> conn_id \<Rightarrow> bytes \<Rightarrow> (rpc_outcome, 'z rpc_world_scheme) st" where
  "handleRequest E cid pl = with_conn cid (\<lambda>peer.
     st_bind (on_core_seeded E (\<lambda>n. handle_request (we_codec E) (we_group_seed E n) (we_now E)
                (cn_networkName peer) (cn_peerId peer) pl (we_now E))) (\<lambda>result.
     case result of
       [] \<Rightarrow> st_seq (sendControl E cid RpcResp []) (st_throw (JsError ''WASM RPC core returned unknown result'' []))
     | tag # body \<Rightarrow>
         if tag = 0 then st_return OutPending
         else if body = [] then st_throw (JsError ''WASM RPC core returned an empty response'' [])
         else st_seq (sendControl E cid RpcResp body)
           (if tag = 2 then st_seq (sendRouteUpdate E cid False) (st_return OutRoute)
            else if tag = 3 then st_seq (sendRouteUpdate E cid False) (st_return OutRouteSession)
            else if tag \<noteq> 1 then st_throw (JsError ''WASM RPC core returned unknown result'' [unat tag])
            else st_return OutHandled)))"

definition handleResponse :: "world_env \<Rightarrow> conn_id \<Rightarrow> bytes \<Rightarrow> (unit, 'z rpc_world_scheme) st" where
  "handleResponse E cid pl = with_conn cid (\<lambda>peer.
     st_bind (on_core_seeded E (\<lambda>n. handle_response (we_codec E) (we_group_seed E n) (cn_networkName peer)
                (cn_peerId peer) pl (we_now E))) (\<lambda>complete.
     if \<not> complete then st_return ()
     else st_bind (st_gets (\<lambda>s. jget (rpc_states s) (routeSyncKey peer))) (\<lambda>found.
       case found of
         None \<Rightarrow> st_return ()
       | Some st \<Rightarrow>
           st_seq (st_modify (set_state (routeSyncKey peer)
                     (st\<lparr>ry_inFlight := False, ry_sentAt := 0, ry_lastCompletedAt := we_now E\<rparr>)))
             (if ry_dirty st \<or> ry_forceFull st then flushRouteUpdate E (routeSyncKey peer) (we_now E)
              else st_return ()))))"

definition maintainPeer :: "world_env \<Rightarrow> conn_id \<Rightarrow> nat \<Rightarrow> (unit, 'z rpc_world_scheme) st" where
  "maintainPeer E cid now = with_conn cid (\<lambda>peer.
     st_bind (st_gets (\<lambda>s. jget (rpc_states s) (routeSyncKey peer))) (\<lambda>found.
       case found of
         None \<Rightarrow> st_return ()
       | Some st \<Rightarrow>
           if ry_inFlight st \<or> now - ry_lastCompletedAt st < ROUTE_MAINTENANCE_INTERVAL_MS then st_return ()
           else sendRouteUpdate E cid False))"

text \<open>
  \<open>cleanExpired\<close>. An entry of the core's report is the network name, the separator \<open>\u001f\<close> and the decimal
  peer id; it is split at the last separator and dropped when nothing stands before it.
\<close>

definition parse_dead_entry :: "ustring \<Rightarrow> (ustring \<times> js_num) option" where
  "parse_dead_entry entry =
     (let rest = dropWhile (\<lambda>c. c \<noteq> 31) (rev entry)
      in case rest of
           [] \<Rightarrow> None
         | _ # named \<Rightarrow>
             if named = [] then None
             else Some (rev named, js_Number (rev (takeWhile (\<lambda>c. c \<noteq> 31) (rev entry)))))"

definition dead_failure :: "ustring \<times> js_num \<Rightarrow> route_sync_failure" where
  "dead_failure d = \<lparr>rf_networkName = fst d, rf_peerId = snd d,
     rf_error = JsError ''route synchronization timed out; stale connection purged'' []\<rparr>"

definition retry_expired :: "world_env \<Rightarrow> nat \<Rightarrow> ustring \<Rightarrow> (route_sync_failure list, 'z rpc_world_scheme) st" where
  "retry_expired E now key s =
     (case jget (rpc_states s) key of
        None \<Rightarrow> (Inr [], s)
      | Some st \<Rightarrow>
          if \<not> ry_inFlight st \<or> now - ry_sentAt st \<le> ROUTE_SYNC_TIMEOUT_MS then (Inr [], s)
          else st_seq (st_modify (set_state key (st\<lparr>ry_inFlight := False, ry_dirty := True, ry_forceFull := True\<rparr>)))
             (st_catch (st_seq (flushRouteUpdate E key now) (st_return []))
               (\<lambda>e. with_conn (ry_peer st) (\<lambda>peer. st_return
                 [\<lparr>rf_networkName = cn_networkName peer, rf_peerId = Fin (of_nat (unat (cn_peerId peer))), rf_error = e\<rparr>]))) s)"

fun retry_all :: "world_env \<Rightarrow> nat \<Rightarrow> ustring list \<Rightarrow> (route_sync_failure list, 'z rpc_world_scheme) st" where
  "retry_all E now [] = st_return []"
| "retry_all E now (key # keys) =
     st_bind (retry_expired E now key) (\<lambda>fs. st_bind (retry_all E now keys) (\<lambda>gs. st_return (fs @ gs)))"

definition cleanExpired :: "world_env \<Rightarrow> nat \<Rightarrow> (ustring list \<times> route_sync_failure list, 'z rpc_world_scheme) st" where
  "cleanExpired E now =
     st_bind (on_core (total_op (clean_expired (we_now E) now))) (\<lambda>parsed.
     st_bind (st_gets (\<lambda>s. jkeys (rpc_states s))) (\<lambda>keys.
     st_bind (retry_all E now keys) (\<lambda>retried.
     st_return (sw_route_changed_networks parsed,
       map dead_failure (List.map_filter parse_dead_entry (sw_dead_direct_peers parsed)) @ retried))))"

section \<open>Decimal text and numbers\<close>

lemma dec_digits_digit: "c \<in> set (dec_digits n) \<Longrightarrow> 48 \<le> c \<and> c \<le> 57"
proof (induction n rule: dec_digits.induct)
  case (1 n)
  then show ?case by (cases "n < 10") (auto simp: dec_digits.simps [of n])
qed

lemma dec_digits_not_Nil [simp]: "dec_digits n \<noteq> []"
  by (subst dec_digits.simps) simp

lemma dec_value_snoc: "dec_value (ds @ [c]) = dec_value ds * 10 + (c - 48)"
  by (simp add: dec_value_def)

lemma dec_value_dec_digits [simp]: "dec_value (dec_digits n) = n"
proof (induction n rule: dec_digits.induct)
  case (1 n)
  then show ?case
    by (subst dec_digits.simps) (simp add: dec_value_snoc, simp add: dec_value_def)
qed

lemma dec_digits_inj: "dec_digits m = dec_digits n \<longleftrightarrow> m = n"
  by (metis dec_value_dec_digits)

lemma dec_digits_leading_zero: "dec_digits n = 48 # ds \<Longrightarrow> ds = []"
proof (induction n arbitrary: ds rule: dec_digits.induct)
  case (1 n)
  show ?case
  proof (cases "n < 10")
    case True
    with 1(2) show ?thesis by (simp add: dec_digits.simps [of n])
  next
    case False
    then obtain d where d: "dec_digits (n div 10) = 48 # d"
      using 1(2) by (cases "dec_digits (n div 10)") (auto simp: dec_digits.simps [of n])
    from 1(1) [OF False this] d have "dec_digits (n div 10) = [48]" by simp
    then have "dec_value (dec_digits (n div 10)) = 0" by (simp add: dec_value_def)
    with False show ?thesis by simp
  qed
qed

lemma bit_count_bounds: "0 < n \<Longrightarrow> 2 ^ (bit_count n - 1) \<le> n \<and> n < 2 ^ bit_count n \<and> 0 < bit_count n"
proof (induction n rule: bit_count.induct)
  case (1 n)
  show ?case
  proof (cases "n = 1")
    case True
    then show ?thesis by (simp add: bit_count.simps)
  next
    case False
    with 1 have IH: "2 ^ (bit_count (n div 2) - 1) \<le> n div 2" "n div 2 < 2 ^ bit_count (n div 2)" "0 < bit_count (n div 2)"
      by auto
    have bc: "bit_count n = Suc (bit_count (n div 2))"
      using 1(2) by (subst bit_count.simps) simp
    have "2 ^ bit_count (n div 2) = 2 * (2 :: nat) ^ (bit_count (n div 2) - 1)"
      using IH(3) by (metis Suc_diff_1 power_Suc)
    moreover have "2 * (n div 2) \<le> n" "n < 2 * (n div 2 + 1)" by simp_all
    ultimately have "2 ^ bit_count (n div 2) \<le> n" "n < 2 * 2 ^ bit_count (n div 2)"
      using IH by linarith+
    with bc show ?thesis by simp
  qed
qed

lemma to_double_nat:
  assumes "n < 2 ^ 53"
  shows "to_double (of_nat n) = Fin (of_nat n)"
proof (cases "n = 0")
  case False
  define k where "k = bit_count n"
  have k: "2 ^ (k - 1) \<le> n" "n < 2 ^ k" "0 < k" using bit_count_bounds [of n] False by (auto simp: k_def)
  have "(2 :: nat) ^ (k - 1) < 2 ^ 53" using k(1) assms by (rule le_less_trans)
  then have k53: "k \<le> 53" using power_less_imp_less_exp [of "2 :: nat" "k - 1" 53] by linarith
  have q: "quotient_of (of_nat n :: rat) = (int n, 1)" using quotient_of_rat_of_int [of "int n"] by simp
  have b1: "bit_count (Suc 0) = 1" by (simp add: bit_count.simps)
  have ge: "pow2 (int k - 1) \<le> (of_nat n :: rat)"
  proof -
    have "(2 :: rat) ^ (k - 1) \<le> of_nat n" using k(1) by (metis of_nat_le_iff of_nat_numeral of_nat_power)
    moreover have "nat (int k - 1) = k - 1" by simp
    ultimately show ?thesis using k(3) by (simp add: pow2_def)
  qed
  define u :: rat where "u = pow2 (int k - 53)"
  have u: "u = 1 / 2 ^ (53 - k)"
  proof (cases "k = 53")
    case False
    then have "\<not> int k - 53 \<ge> 0" "nat (53 - int k) = 53 - k" using k53 by auto
    then show ?thesis by (simp add: u_def pow2_def)
  qed (simp add: u_def pow2_def)
  have quo: "of_nat n / u = of_int (int n * 2 ^ (53 - k))" by (simp add: u)
  have r: "of_int (round_even (of_nat n / u)) * u = of_nat n"
    unfolding quo by (simp add: round_even_def u)
  have big: "\<not> pow2 1024 \<le> (of_nat n :: rat)"
  proof -
    have "(of_nat n :: rat) < of_nat (2 ^ 53)" using assms by (simp only: of_nat_less_iff)
    also have "\<dots> \<le> pow2 1024" by (simp add: pow2_def)
    finally show ?thesis by simp
  qed
  have m: "max (int k - 1 - 52) (- 1074) = int k - 53" by simp
  have e0: "int (bit_count n) - int (bit_count (Suc 0)) = int k - 1" by (simp add: k_def b1)
  show ?thesis
    using False ge big r
    by (simp add: to_double_def Let_def q e0 m u_def [symmetric] b1 k_def [symmetric])
qed (simp add: to_double_def)

lemma digits_not_space: "48 \<le> c \<and> c \<le> 57 \<Longrightarrow> \<not> js_space c"
  by (auto simp: js_space_def)

lemma dropWhile_space_digits: "(\<And>c. c \<in> set s \<Longrightarrow> 48 \<le> c \<and> c \<le> 57) \<Longrightarrow> dropWhile js_space s = s"
  by (cases s) (auto simp: digits_not_space)

lemma js_trim_digits:
  assumes "\<And>c. c \<in> set s \<Longrightarrow> 48 \<le> c \<and> c \<le> 57"
  shows "js_trim s = s"
proof -
  have "dropWhile js_space s = s" "dropWhile js_space (rev s) = rev s"
    using assms by (auto intro!: dropWhile_space_digits)
  then show ?thesis by (simp add: js_trim_def)
qed

lemma unsigned_decimal_digits: "n < 2 ^ 53 \<Longrightarrow> unsigned_decimal (dec_digits n) = Some (Fin (of_nat n))"
proof -
  assume n: "n < 2 ^ 53"
  have d: "\<forall>c \<in> set (dec_digits n). is_dec c" using dec_digits_digit by (auto simp: is_dec_def)
  have "dec_digits n \<noteq> ustr ''Infinity''"
    using d by (auto simp: ustr_def is_dec_def)
  moreover have w: "takeWhile is_dec (dec_digits n) = dec_digits n" "dropWhile is_dec (dec_digits n) = []"
    using d by auto
  ultimately show ?thesis
    using to_double_nat [OF n] d by (simp add: unsigned_decimal_def Let_def exponent_of_def pow10_def w del: takeWhile_eq_all_conv dropWhile_eq_Nil_conv)
qed

lemma js_Number_dec_digits:
  assumes "n < 2 ^ 53"
  shows "js_Number (dec_digits n) = Fin (of_nat n)"
proof -
  obtain c cs where c: "dec_digits n = c # cs" by (cases "dec_digits n") auto
  have dig: "48 \<le> c \<and> c \<le> 57" using dec_digits_digit [of c n] c by simp
  have "radix_prefix (dec_digits n) = None"
    using dec_digits_leading_zero [of n] c by (auto simp: radix_prefix_def split: list.splits)
  moreover have "js_trim (dec_digits n) = dec_digits n" by (rule js_trim_digits) (rule dec_digits_digit)
  ultimately show ?thesis
    using unsigned_decimal_digits [OF assms] dig by (simp add: js_Number_def Let_def c)
qed

section \<open>What the driver leaves unchanged\<close>

lemma unchanged_with_conn [intro]:
  "(\<And>c. unchanged v (f c)) \<Longrightarrow> unchanged v (with_conn cid f)"
  by (auto simp: unchanged_def with_conn_def split: option.splits)

lemma unchanged_case_option [intro]:
  "unchanged v m \<Longrightarrow> (\<And>x. unchanged v (f x)) \<Longrightarrow> unchanged v (case r of None \<Rightarrow> m | Some x \<Rightarrow> f x)"
  by (cases r) simp_all

lemma unchanged_on_core:
  "(\<And>s c. rpc_core s \<noteq> None \<Longrightarrow> v (s\<lparr>rpc_core := Some c\<rparr>) = v s) \<Longrightarrow> unchanged v (on_core f)"
  by (auto simp: unchanged_def on_core_def split_beta split: option.splits)

lemma unchanged_on_core_seeded:
  assumes "\<And>s c. rpc_core s \<noteq> None \<Longrightarrow> v (s\<lparr>rpc_core := Some c\<rparr>) = v s" "\<And>s n. v (s\<lparr>net_ctr := n\<rparr>) = v s"
  shows "unchanged v (on_core_seeded E f)"
proof -
  have "unchanged v fresh_ctr" using assms(2) by (simp add: unchanged_def fresh_ctr_def)
  then show ?thesis
    unfolding on_core_seeded_def using assms(1) by (intro unchanged_bind unchanged_on_core)
qed

definition rpc_view :: "'z rpc_world_scheme \<Rightarrow> (ustring, route_sync_state) jmap \<times> peer_id \<times> 'z" where
  "rpc_view s = (rpc_states s, rpc_serverPeerId s, rpc_world.more s)"

lemma net_more_rpc:
  "net.more s' = net.more s \<Longrightarrow> rpc_core s' = rpc_core s \<and> rpc_states s' = rpc_states s
     \<and> rpc_serverPeerId s' = rpc_serverPeerId s \<and> rpc_world.more s' = rpc_world.more s"
  by (cases s; cases s') simp

lemma rpc_world_more_update:
  "rpc_world.more s' = rpc_world.more s \<Longrightarrow>
     s' = s\<lparr>net_conns := net_conns s', net_sessions := net_sessions s', net_ctr := net_ctr s', rpc_core := rpc_core s',
            rpc_states := rpc_states s', rpc_serverPeerId := rpc_serverPeerId s'\<rparr>"
  by (cases s; cases s') simp

lemma local_net_rpc_view: "local_net m \<Longrightarrow> unchanged rpc_view m"
  unfolding unchanged_def rpc_view_def by (metis net_more_rpc)

lemma rpc_view_simps [simp]:
  "rpc_view (s\<lparr>rpc_core := c\<rparr>) = rpc_view s" "rpc_view (s\<lparr>net_ctr := n\<rparr>) = rpc_view s"
  by (simp_all add: rpc_view_def)

lemma admin_simps [simp]:
  "admin (s\<lparr>rpc_core := c\<rparr>) = admin s" "admin (s\<lparr>net_ctr := n\<rparr>) = admin s"
  "admin (s\<lparr>rpc_states := x\<rparr>) = admin s" "admin (s\<lparr>rpc_serverPeerId := i\<rparr>) = admin s"
  by (simp_all add: admin_def fun_eq_iff)

text \<open>
  What the server sees: the administrative facts of the connections, whether the core is set up, and its
  own fields.
\<close>

definition server_view :: "'z rpc_world_scheme \<Rightarrow> (conn_id \<Rightarrow> conn_facts option) \<times> bool \<times> 'z" where
  "server_view s = (admin s, rpc_core s = None, rpc_world.more s)"

abbreviation calm :: "('a, 'z rpc_world_scheme) st \<Rightarrow> bool" where
  "calm \<equiv> unchanged server_view"

lemma server_view_simps [simp]:
  "rpc_core s \<noteq> None \<Longrightarrow> server_view (s\<lparr>rpc_core := Some c\<rparr>) = server_view s"
  "server_view (s\<lparr>net_ctr := n\<rparr>) = server_view s"
  "server_view (s\<lparr>rpc_states := x\<rparr>) = server_view s" "server_view (s\<lparr>rpc_serverPeerId := i\<rparr>) = server_view s"
  by (simp_all add: server_view_def)

lemma calm_net: "quiet m \<Longrightarrow> local_net m \<Longrightarrow> calm m"
  unfolding unchanged_def server_view_def by (metis net_more_rpc)

lemma calm_conn [intro]: "calm (conn_send E cid pkt)" "calm (conn_encrypt E cid pkt)" "calm fresh_ctr"
  by (auto intro: calm_net)

lemma sendControl_view [intro]: "unchanged rpc_view (sendControl E cid ptype pl)"
  unfolding sendControl_def by (intro unchanged_with_conn unchanged_bind unchanged_basic) (auto intro: local_net_rpc_view)

lemma sendControl_calm [intro]: "calm (sendControl E cid ptype pl)"
  unfolding sendControl_def by (intro unchanged_with_conn unchanged_bind unchanged_basic calm_conn)

lemma on_core_seeded_view [intro]: "unchanged rpc_view (on_core_seeded E f)"
  by (rule unchanged_on_core_seeded) simp_all

lemma on_core_seeded_calm [intro]: "calm (on_core_seeded E f)"
  by (rule unchanged_on_core_seeded) simp_all

lemma on_core_calm [intro]: "calm (on_core f)"
  by (rule unchanged_on_core) simp

lemma calm_set_state [intro]: "calm (st_modify (set_state key st))"
  by (rule unchanged_modify) (simp add: set_state_def)

lemma flushRouteUpdate_calm [intro]: "calm (flushRouteUpdate E key now)"
proof -
  have "calm (with_conn (ry_peer st) (\<lambda>peer.
             st_bind (on_core_seeded E (\<lambda>n. build_route_update (we_codec E) (we_group_seed E n) (we_draws E n)
                        (cn_networkName peer) (cn_peerId peer) (cn_serverSessionId peer) (ry_forceFull st) now))
               (\<lambda>packet.
             st_seq (st_modify (set_state key (st\<lparr>ry_dirty := False, ry_forceFull := False,
                                                  ry_inFlight := True, ry_sentAt := now\<rparr>)))
             (st_catch (sendControl E (ry_peer st) RpcReq packet)
               (\<lambda>e. st_seq (st_modify (set_state key (st\<lparr>ry_dirty := True, ry_forceFull := ry_forceFull st,
                                                          ry_inFlight := False, ry_sentAt := now\<rparr>)))
                           (st_throw e)))))
        :: (unit, 'a rpc_world_scheme) st)" for st
    by (intro unchanged_with_conn unchanged_bind unchanged_seq unchanged_catch unchanged_basic) auto
  then show ?thesis
    by (auto simp: unchanged_def flushRouteUpdate_def split: option.splits)
qed

lemma sendRouteUpdate_calm [intro]: "calm (sendRouteUpdate E cid forceFull)"
  unfolding sendRouteUpdate_def Let_def
  by (intro unchanged_with_conn unchanged_seq unchanged_modify) (auto simp: set_state_def split: option.splits)

lemma handleRequest_calm [intro]: "calm (handleRequest E cid pl)"
  unfolding handleRequest_def
  by (intro unchanged_with_conn unchanged_bind) (auto split: list.splits)

lemma handleResponse_calm [intro]: "calm (handleResponse E cid pl)"
  unfolding handleResponse_def
  by (intro unchanged_with_conn unchanged_bind unchanged_if unchanged_case_option unchanged_seq) auto

lemma maintainPeer_calm [intro]: "calm (maintainPeer E cid now)"
  unfolding maintainPeer_def
  by (intro unchanged_with_conn unchanged_bind) (auto split: option.splits)

lemma addPeer_calm [intro]: "calm (addPeer E cid)"
  unfolding addPeer_def by (intro unchanged_with_conn unchanged_seq unchanged_modify) auto

lemma removePeer_calm [intro]: "calm (removePeer E cid)"
  unfolding removePeer_def by (intro unchanged_with_conn unchanged_seq unchanged_modify) auto

lemma retry_expired_calm [intro]: "calm (retry_expired E now key)"
proof -
  have "calm (st_seq (st_modify (set_state key (st\<lparr>ry_inFlight := False, ry_dirty := True, ry_forceFull := True\<rparr>)))
             (st_catch (st_seq (flushRouteUpdate E key now) (st_return []))
               (\<lambda>e. with_conn (ry_peer st) (\<lambda>peer. st_return
                 [\<lparr>rf_networkName = cn_networkName peer, rf_peerId = Fin (of_nat (unat (cn_peerId peer))), rf_error = e\<rparr>])))
        :: (route_sync_failure list, 'a rpc_world_scheme) st)" for st
    by (intro unchanged_seq unchanged_catch) auto
  then show ?thesis by (auto simp: unchanged_def retry_expired_def split: option.splits)
qed

lemma retry_all_calm [intro]: "calm (retry_all E now keys)"
proof (induction keys)
  case (Cons key keys)
  then show ?case unfolding retry_all.simps by (intro unchanged_bind unchanged_basic) auto
qed (simp only: retry_all.simps unchanged_basic)

lemma cleanExpired_calm [intro]: "calm (cleanExpired E now)"
  unfolding cleanExpired_def by (intro unchanged_bind unchanged_basic) auto

section \<open>Properties\<close>

lemma last_separator_split:
  assumes "x \<notin> set b"
  shows "takeWhile (\<lambda>c. c \<noteq> x) (rev (a @ x # b)) = rev b" "dropWhile (\<lambda>c. c \<noteq> x) (rev (a @ x # b)) = x # rev a"
  using assms by (simp_all add: takeWhile_append2 dropWhile_append2 takeWhile_append dropWhile_append)

lemma separator_not_digit: "c < 48 \<or> 57 < c \<Longrightarrow> c \<notin> set (dec_digits n)"
  using dec_digits_digit by fastforce

lemma routeSyncKey_eq:
  "routeSyncKey c = routeSyncKey d \<longleftrightarrow> cn_networkName c = cn_networkName d \<and> cn_peerId c = cn_peerId d"
proof
  assume eq: "routeSyncKey c = routeSyncKey d"
  have key: "routeSyncKey x = cn_networkName x @ 58 # dec_digits (unat (cn_peerId x))" for x
    by (simp add: routeSyncKey_def)
  have nd: "58 \<notin> set (dec_digits n)" for n by (rule separator_not_digit) simp
  have "takeWhile (\<lambda>c. c \<noteq> 58) (rev (routeSyncKey x)) = rev (dec_digits (unat (cn_peerId x)))"
    "dropWhile (\<lambda>c. c \<noteq> 58) (rev (routeSyncKey x)) = 58 # rev (cn_networkName x)" for x
    unfolding key by (rule last_separator_split [OF nd])+
  with eq have "rev (dec_digits (unat (cn_peerId c))) = rev (dec_digits (unat (cn_peerId d)))"
    "58 # rev (cn_networkName c) = 58 # rev (cn_networkName d)"
    by metis+
  then show "cn_networkName c = cn_networkName d \<and> cn_peerId c = cn_peerId d"
    by (simp add: dec_digits_inj unsigned_word_eqI)
qed (simp add: routeSyncKey_def)

text \<open>
  The host reads back exactly what the core reported: a dead peer's entry is parsed to the network
  and the peer id it was built from, for every network name that is not empty, even one that contains
  the separator, and the number the host computes is the id.
\<close>

theorem dead_entry_roundtrip:
  assumes "network \<noteq> []"
  shows "parse_dead_entry (dead_entry network pid) = Some (network, Fin (of_nat (unat pid)))"
proof -
  have nd: "31 \<notin> set (dec_digits n)" for n by (rule separator_not_digit) simp
  have entry: "dead_entry network pid = network @ 31 # dec_digits (unat pid)" by (simp add: dead_entry_def)
  have "unat pid < 2 ^ 32" using unsigned_less [of pid] by simp
  then have "js_Number (dec_digits (unat pid)) = Fin (of_nat (unat pid))"
    by (intro js_Number_dec_digits) simp
  then show ?thesis
    using assms unfolding parse_dead_entry_def entry last_separator_split [OF nd] by (simp add: Let_def)
qed

theorem dead_entry_roundtrip_witness:
  "parse_dead_entry (dead_entry (ustr ''office'') 4294967295) = Some (ustr ''office'', Fin 4294967295)"
  using dead_entry_roundtrip [of "ustr ''office''" 4294967295] by (simp add: ustr_def)

lemma jset_jset [simp]: "jset k v (jset k w m) = jset k v m"
  unfolding jset_def by (induction m) auto

text \<open>The state after a flush: what it finds, and what it leaves at its own key.\<close>

lemma flush_idle:
  "jget (rpc_states s) key = Some st \<Longrightarrow> ry_inFlight st \<or> \<not> ry_dirty st \<and> \<not> ry_forceFull st \<Longrightarrow>
     flushRouteUpdate E key now s = (Inr (), s)"
  by (simp add: flushRouteUpdate_def)

lemma rpc_view_states: "rpc_view s' = rpc_view s \<Longrightarrow> rpc_states s' = rpc_states s"
  by (simp add: rpc_view_def)

lemma flush_sends:
  assumes st: "jget (rpc_states s) key = Some st" and idle: "\<not> ry_inFlight st" and owed: "ry_dirty st \<or> ry_forceFull st"
    and run: "flushRouteUpdate E key now s = (r, s')"
  shows "\<exists>st'. rpc_states s' = jset key st' (rpc_states s) \<and> ry_peer st' = ry_peer st \<and>
           (case r of
              Inr _ \<Rightarrow> ry_inFlight st' \<and> \<not> ry_dirty st' \<and> \<not> ry_forceFull st' \<and> ry_sentAt st' = now
            | Inl _ \<Rightarrow> \<not> ry_inFlight st' \<and> (ry_dirty st \<longrightarrow> ry_dirty st') \<and> ry_forceFull st' = ry_forceFull st)"
proof -
  have sc: "rpc_states t' = rpc_states t" if "sendControl E cid ptype pl t = (x, t')" for cid ptype pl t x t'
    using sendControl_view [THEN unchangedD, OF that] by (rule rpc_view_states)
  have oc: "rpc_states t' = rpc_states t" if "on_core_seeded E f t = (x, t')" for f t t' and x :: "bytes res"
    using on_core_seeded_view [THEN unchangedD, OF that] by (rule rpc_view_states)
  have go: "(\<not> ry_dirty st \<and> \<not> ry_forceFull st) = False" using owed by blast
  have same: "rpc_states s = jset key st (rpc_states s)" using st by (simp add: jset_same)
  show ?thesis
  proof (cases "jget (net_conns s) (ry_peer st)")
    case None
    then show ?thesis
      using run st idle owed same by (auto simp: flushRouteUpdate_def with_conn_def intro!: exI [of _ st])
  next
    case (Some peer)
    obtain built s1 where b: "on_core_seeded E (\<lambda>n. build_route_update (we_codec E) (we_group_seed E n) (we_draws E n)
        (cn_networkName peer) (cn_peerId peer) (cn_serverSessionId peer) (ry_forceFull st) now) s = (built, s1)"
      by fastforce
    show ?thesis
    proof (cases built)
      case (Inl e)
      then show ?thesis
        using run st idle owed Some b oc [OF b] same
        by (auto simp: flushRouteUpdate_def with_conn_def st_bind_def intro!: exI [of _ st])
    next
      case (Inr packet)
      define s2 where "s2 = set_state key (st\<lparr>ry_dirty := False, ry_forceFull := False, ry_inFlight := True, ry_sentAt := now\<rparr>) s1"
      obtain sent s3 where c: "sendControl E (ry_peer st) RpcReq packet s2 = (sent, s3)" by fastforce
      then have "(r, s') = (case sent of Inr _ \<Rightarrow> (Inr (), s3)
          | Inl e \<Rightarrow> (Inl e, set_state key (st\<lparr>ry_dirty := True, ry_forceFull := ry_forceFull st,
                                ry_inFlight := False, ry_sentAt := now\<rparr>) s3))"
        using run st idle go Some b Inr
        by (cases sent)
          (simp_all add: flushRouteUpdate_def with_conn_def st_bind_def st_seq_def st_catch_def s2_def [symmetric],
            (elim conjE, hypsubst, simp)+)
      then show ?thesis
        using sc [OF c] oc [OF b]
        by (cases sent) (simp_all add: set_state_def s2_def, (rule exI, rule conjI, rule refl, simp)+)
    qed
  qed
qed

definition sync_state :: "'z rpc_world_scheme \<Rightarrow> connection \<Rightarrow> route_sync_state" where
  "sync_state s peer = (case jget (rpc_states s) (routeSyncKey peer) of None \<Rightarrow> new_sync_state 0 | Some st \<Rightarrow> st)"

lemma with_conn_Some: "jget (net_conns s) cid = Some c \<Longrightarrow> with_conn cid f s = f c s"
  by (simp add: with_conn_def)

definition sample_env0 :: world_env where
  "sample_env0 = \<lparr>we_crypto = toy_crypto, we_codec = toy_codec, we_now = 5000, we_group_seed = (\<lambda>_. sample_seed),
     we_draws = (\<lambda>_. [Some 7]), we_bytes = (\<lambda>_ n. Some (replicate n 1)), we_uuid = (\<lambda>_. None)\<rparr>"

definition sample_conn :: connection where
  "sample_conn = (createConnection toy_peer (ustr ''ip'') 1 2 0)\<lparr>cn_mode := LegacyMode, cn_phase := Ready,
     cn_peerId := 7, cn_networkName := ustr ''office''\<rparr>"

text \<open>A world with one peer whose update was sent at time 1000.\<close>

definition sample_world :: rpc_world where
  "sample_world = \<lparr>net_conns = [(1, sample_conn)], net_sessions = [], net_ctr = 0, rpc_core = Some sample_core,
     rpc_states = [(routeSyncKey sample_conn, \<lparr>ry_peer = 1, ry_inFlight = True, ry_dirty = False,
        ry_forceFull = False, ry_sentAt = 1000, ry_lastCompletedAt = 0\<rparr>)],
     rpc_serverPeerId = 1\<rparr>"

text \<open>
  C36. A requested route update is never lost: after \<open>sendRouteUpdate\<close> the peer's update is on its way
  with nothing left to send, or one is still in flight and the request is remembered together with every
  full synchronisation asked for so far, or an error was reported and the whole request is still
  remembered.
\<close>

theorem update_request_not_lost:
  assumes peer: "jget (net_conns s) cid = Some peer"
    and run: "sendRouteUpdate E cid forceFull s = (r, s')"
  shows "let old = sync_state s peer; new = sync_state s' peer; full = ry_forceFull old \<or> forceFull
         in jhas (rpc_states s') (routeSyncKey peer) \<and> ry_peer new = cid \<and>
            (if ry_inFlight old then r = Inr () \<and> ry_inFlight new \<and> ry_dirty new \<and> ry_forceFull new = full
             else if is_ok r then ry_inFlight new \<and> \<not> ry_dirty new \<and> \<not> ry_forceFull new \<and> ry_sentAt new = we_now E
             else \<not> ry_inFlight new \<and> ry_dirty new \<and> ry_forceFull new = full)"
proof -
  let ?key = "routeSyncKey peer"
  define old where "old = (case jget (rpc_states s) ?key of None \<Rightarrow> new_sync_state cid | Some st \<Rightarrow> st)"
  define st where "st = old\<lparr>ry_peer := cid, ry_dirty := True, ry_forceFull := ry_forceFull old \<or> forceFull\<rparr>"
  define s1 where "s1 = set_state ?key st s"
  have old: "ry_inFlight old = ry_inFlight (sync_state s peer)" "ry_forceFull old = ry_forceFull (sync_state s peer)"
    by (simp_all add: old_def sync_state_def new_sync_state_def split: option.splits)
  have s1: "jget (rpc_states s1) ?key = Some st" by (simp add: s1_def set_state_def)
  have run1: "flushRouteUpdate E ?key (we_now E) s1 = (r, s')"
    using run by (simp add: sendRouteUpdate_def with_conn_Some [OF peer] Let_def st_seq_def st_bind_def
        s1_def st_def old_def)
  show ?thesis
  proof (cases "ry_inFlight old")
    case True
    with run1 s1 have "r = Inr ()" "s' = s1" by (simp_all add: flush_idle st_def)
    with True old s1 show ?thesis by (simp add: sync_state_def jhas_Some st_def)
  next
    case False
    then have "\<not> ry_inFlight st" "ry_dirty st \<or> ry_forceFull st" "ry_dirty st" by (simp_all add: st_def)
    from flush_sends [OF s1 this(1,2) run1] this(3) old False show ?thesis
      by (auto simp: sync_state_def st_def is_ok_def split: sum.splits)
  qed
qed

theorem update_request_not_lost_witness:
  "\<exists>r s'. sendRouteUpdate sample_env0 1 True sample_world = (r, s') \<and> ry_forceFull (sync_state s' sample_conn)"
proof -
  obtain r s' where run: "sendRouteUpdate sample_env0 1 True sample_world = (r, s')" by fastforce
  have peer: "jget (net_conns sample_world) 1 = Some sample_conn" by (simp add: sample_world_def)
  have "ry_inFlight (sync_state sample_world sample_conn)"
    by (simp add: sync_state_def sample_world_def)
  with update_request_not_lost [OF peer run] have "ry_forceFull (sync_state s' sample_conn)"
    by (simp add: Let_def)
  with run show ?thesis by blast
qed

text \<open>The retry of one state, and of all of them.\<close>

definition peers_exist :: "'z rpc_world_scheme \<Rightarrow> bool" where
  "peers_exist s \<longleftrightarrow> (\<forall>key st. jget (rpc_states s) key = Some st \<longrightarrow> jhas (net_conns s) (ry_peer st))"

definition settled :: "nat \<Rightarrow> 'z rpc_world_scheme \<Rightarrow> ustring \<Rightarrow> bool" where
  "settled now s key \<longleftrightarrow>
     (\<forall>st. jget (rpc_states s) key = Some st \<longrightarrow> ry_inFlight st \<longrightarrow> now - ry_sentAt st \<le> ROUTE_SYNC_TIMEOUT_MS)"

lemma admin_jhas: "admin s = admin s' \<Longrightarrow> jhas (net_conns s) cid = jhas (net_conns s') cid"
  by (drule fun_cong [of _ _ cid]) (cases "jget (net_conns s) cid"; cases "jget (net_conns s') cid"; simp add: admin_def jhas_def)

lemma retry_expired_settles:
  assumes ex: "peers_exist s"
  shows "\<exists>fs s'. retry_expired E now key s = (Inr fs, s') \<and> peers_exist s' \<and> settled now s' key \<and>
           (\<forall>k. k \<noteq> key \<longrightarrow> jget (rpc_states s') k = jget (rpc_states s) k)"
proof (cases "\<exists>st. jget (rpc_states s) key = Some st \<and> ry_inFlight st \<and> ROUTE_SYNC_TIMEOUT_MS < now - ry_sentAt st")
  case False
  then have "retry_expired E now key s = (Inr [], s)"
    by (fastforce simp: retry_expired_def split: option.splits)
  with ex False show ?thesis by (auto simp: settled_def not_less)
next
  case True
  then obtain st where st: "jget (rpc_states s) key = Some st" "ry_inFlight st" "ROUTE_SYNC_TIMEOUT_MS < now - ry_sentAt st"
    by blast
  define st1 where "st1 = st\<lparr>ry_inFlight := False, ry_dirty := True, ry_forceFull := True\<rparr>"
  define s1 where "s1 = set_state key st1 s"
  have s1: "jget (rpc_states s1) key = Some st1" by (simp add: s1_def set_state_def)
  obtain r s2 where run: "flushRouteUpdate E key now s1 = (r, s2)" by fastforce
  obtain st2 where st2: "rpc_states s2 = jset key st2 (rpc_states s1)" "ry_peer st2 = ry_peer st1"
    "ry_inFlight st2 \<Longrightarrow> ry_sentAt st2 = now"
    using flush_sends [OF s1 _ _ run] by (cases r) (auto simp: st1_def)
  have conns: "jhas (net_conns s2) cid = jhas (net_conns s) cid" for cid
    using admin_jhas unchangedD [OF flushRouteUpdate_calm run]
    by (metis server_view_def Pair_inject s1_def set_state_def admin_simps(3))
  have here: "jhas (net_conns s2) (ry_peer st)" using ex st conns by (auto simp: peers_exist_def)
  then obtain peer where peer: "jget (net_conns s2) (ry_peer st) = Some peer" by (auto simp: jhas_def split: option.splits)
  have "\<exists>fs. retry_expired E now key s = (Inr fs, s2)"
    using st run peer
    by (cases r) (simp_all add: retry_expired_def st_seq_def st_bind_def st_catch_def with_conn_def not_le
        s1_def [symmetric] st1_def [symmetric])
  moreover have "peers_exist s2"
    using ex st here conns by (auto simp: peers_exist_def st2 s1_def set_state_def st1_def)
  moreover have "settled now s2 key" using st2 by (auto simp: settled_def)
  ultimately show ?thesis by (auto simp: st2 s1_def set_state_def)
qed

lemma retry_all_settles:
  "peers_exist s \<Longrightarrow> \<exists>fs s'. retry_all E now keys s = (Inr fs, s') \<and> peers_exist s' \<and> (\<forall>k \<in> set keys. settled now s' k) \<and>
     (\<forall>k. k \<notin> set keys \<longrightarrow> jget (rpc_states s') k = jget (rpc_states s) k)"
proof (induction keys arbitrary: s)
  case (Cons key keys)
  obtain fs s1 where 1: "retry_expired E now key s = (Inr fs, s1)" "peers_exist s1" "settled now s1 key"
    "\<forall>k. k \<noteq> key \<longrightarrow> jget (rpc_states s1) k = jget (rpc_states s) k"
    using retry_expired_settles [OF Cons.prems] by blast
  from Cons.IH [OF 1(2)] obtain gs s2 where 2: "retry_all E now keys s1 = (Inr gs, s2)" "peers_exist s2"
    "\<forall>k \<in> set keys. settled now s2 k" "\<forall>k. k \<notin> set keys \<longrightarrow> jget (rpc_states s2) k = jget (rpc_states s1) k" by blast
  have "settled now s2 key" using 1(3) 2(3,4) by (cases "key \<in> set keys") (auto simp: settled_def)
  with 1 2 show ?case by (simp add: st_bind_def)
qed simp

lemma cleanExpired_settles:
  assumes "rpc_core s = Some core" "peers_exist s"
  shows "\<exists>out s'. cleanExpired E now s = (Inr out, s') \<and> peers_exist s' \<and> (\<forall>key. settled now s' key)"
proof -
  obtain parsed core' where c: "clean_expired (we_now E) now core = (parsed, core')" by fastforce
  define s1 where "s1 = s\<lparr>rpc_core := Some core'\<rparr>"
  have "peers_exist s1" using assms(2) by (simp add: peers_exist_def s1_def)
  from retry_all_settles [OF this] obtain fs s2 where 2:
    "retry_all E now (jkeys (rpc_states s1)) s1 = (Inr fs, s2)" "peers_exist s2"
    "\<forall>k \<in> set (jkeys (rpc_states s1)). settled now s2 k"
    "\<forall>k. k \<notin> set (jkeys (rpc_states s1)) \<longrightarrow> jget (rpc_states s2) k = jget (rpc_states s1) k" by blast
  have "settled now s2 key" for key
    using 2(3,4) by (cases "key \<in> set (jkeys (rpc_states s1))")
      (auto simp: settled_def jkeys_iff jhas_def split: option.splits)
  then have "\<forall>key. settled now s2 key" by blast
  with 2(1,2) show ?thesis
    using assms(1) c
    by (simp add: cleanExpired_def st_bind_def on_core_def total_op_def s1_def)
qed

text \<open>
  C35. No route synchronisation stays stuck: \<open>cleanExpired\<close> at time \<open>now\<close> returns whenever the core is set
  up and the peers' connections exist, and afterwards every update still in flight was sent at most
  \<open>ROUTE_SYNC_TIMEOUT_MS\<close> ago.
\<close>

theorem expired_updates_retried:
  assumes "rpc_core s = Some core" "peers_exist s"
  shows "\<exists>out s'. cleanExpired E now s = (Inr out, s') \<and> (\<forall>key. settled now s' key)"
  using cleanExpired_settles [OF assms] by blast

theorem expired_updates_retried_witness:
  "\<exists>out s'. cleanExpired sample_env0 5000 sample_world = (Inr out, s') \<and> settled 5000 s' (routeSyncKey sample_conn)"
proof -
  have "rpc_core sample_world = Some sample_core" "peers_exist sample_world"
    by (simp_all add: sample_world_def peers_exist_def jhas_def split: if_splits)
  from expired_updates_retried [OF this] show ?thesis by blast
qed

end
