(* ===== verification/Server.thy ===== *)
theory Server
  imports Rpc Rooms Messages
begin

unbundle bit_operations_syntax

text \<open>
  The Durable Object, \<^verbatim>\<open>src/server.ts\<close>: class \<open>EasyTierServer\<close>. Its state extends the world of the RPC
  driver with its own fields. Every method is a computation that changes the state and may throw; one
  event of the runtime (a request, a message, a close, a timer, a finished storage write) runs to its end
  before the next, as in JavaScript. The only suspension points are the storage calls of \<open>initIdentity\<close>;
  until they end no connection exists and every request waits for them, so the initialisation is one step
  of the first request.

  Storage writes that the code does not wait for are queued in \<open>srv_pendingPuts\<close>; an event of their own
  completes them or lets them fail.
\<close>

section \<open>State\<close>

record server = rpc_world +
  srv_config :: server_config
  srv_localPrivateKey :: ustring
  srv_localPublicKey :: ustring
  srv_identityReady :: bool
  srv_storage :: "(ustring, json) jmap"
  srv_pendingPuts :: "(ustring \<times> ustring) list"
  srv_persistedRouteIds :: "ustring list"
  srv_resyncPending :: "ustring list"
  srv_connections :: "conn_id list"
  srv_rooms :: "conn_id room_registry"
  srv_pendingHandshakes :: nat
  srv_pendingByIp :: "(ustring, nat) jmap"
  srv_maintenanceTimer :: bool

text \<open>Whether the storage calls of one initialisation succeed.\<close>

record storage_env =
  sto_get_ok :: bool
  sto_put_ok :: bool
  sto_list_ok :: bool

record http_request =
  hq_pathname :: ustring
  hq_method :: ustring
  hq_upgrade :: "ustring option"
  hq_connecting_ip :: "ustring option"

record http_response =
  hs_status :: nat
  hs_body :: string

definition MAX_CONNECTIONS :: nat where "MAX_CONNECTIONS = 2048"
definition MAX_PENDING_HANDSHAKES :: nat where "MAX_PENDING_HANDSHAKES = 256"
definition UNKNOWN_IP :: ustring where "UNKNOWN_IP = ustr ''unknown''"
definition IDENTITY_STORAGE_KEY :: ustring where "IDENTITY_STORAGE_KEY = ustr ''secure-identity-v1''"
definition ROUTE_ID_STORAGE_PREFIX :: ustring where "ROUTE_ID_STORAGE_PREFIX = ustr ''route-id-v1:''"

text \<open>The constructor: no connection, nothing initialised; the storage is what earlier instances left.\<close>

definition new_server :: "server_config \<Rightarrow> (ustring, json) jmap \<Rightarrow> session_store \<Rightarrow> nat \<Rightarrow> server" where
  "new_server cfg storage sessions ctr =
     \<lparr>net_conns = [], net_sessions = sessions, net_ctr = ctr, rpc_core = None, rpc_states = [], rpc_serverPeerId = 0,
      srv_config = cfg, srv_localPrivateKey = [], srv_localPublicKey = [], srv_identityReady = False,
      srv_storage = storage, srv_pendingPuts = [], srv_persistedRouteIds = [], srv_resyncPending = [],
      srv_connections = [], srv_rooms = [], srv_pendingHandshakes = 0, srv_pendingByIp = [],
      srv_maintenanceTimer = False\<rparr>"

section \<open>Identity\<close>

definition server_decodeBase64Key :: "ustring \<Rightarrow> bytes res" where
  "server_decodeBase64Key val =
     (case atob val of
        None \<Rightarrow> raise ''InvalidCharacterError''
      | Some decoded \<Rightarrow>
          if length decoded \<noteq> 32 then raise ''generated public key must decode to exactly 32 bytes'' else Inr decoded)"

definition isValidKeypair :: "json option \<Rightarrow> json option \<Rightarrow> bool" where
  "isValidKeypair privateKey publicKey =
     (case (privateKey, publicKey) of
        (Some (JStr priv), Some (JStr pub)) \<Rightarrow> is_ok (server_decodeBase64Key priv) \<and> is_ok (server_decodeBase64Key pub)
      | _ \<Rightarrow> False)"

definition generate_keypair :: "crypto \<Rightarrow> bytes option \<Rightarrow> json res" where
  "generate_keypair C rand32 =
     (case rand32 of
        None \<Rightarrow> raise ''getrandom failed''
      | Some secret \<Rightarrow> Inr (JObj [(ustr ''private_key_base64'', JStr (b64_encode C secret)),
                              (ustr ''public_key_base64'', JStr (b64_encode C (x25519_public C secret)))]))"

definition stored_identity :: "(ustring, json) jmap \<Rightarrow> (ustring \<times> ustring) option" where
  "stored_identity storage =
     (case jget storage IDENTITY_STORAGE_KEY of
        Some (JObj fs) \<Rightarrow>
          if isValidKeypair (field fs ''privateKey'') (field fs ''publicKey'')
          then (case (field fs ''privateKey'', field fs ''publicKey'') of
                  (Some (JStr priv), Some (JStr pub)) \<Rightarrow> Some (priv, pub) | _ \<Rightarrow> None)
          else None
      | _ \<Rightarrow> None)"

text \<open>The key pair of \<open>initIdentity\<close>: configured, stored, or generated and stored.\<close>

definition resolve_keypair :: "world_env \<Rightarrow> storage_env \<Rightarrow> (ustring option \<times> ustring option, server) st" where
  "resolve_keypair E S =
     st_bind (st_gets srv_config) (\<lambda>cfg.
     if truthy (cfg_localPrivateKey cfg) \<and> truthy (cfg_localPublicKey cfg)
     then st_return (cfg_localPrivateKey cfg, cfg_localPublicKey cfg)
     else if \<not> sto_get_ok S then st_throw (JsError ''storage.get failed'' [])
     else st_bind (st_gets srv_storage) (\<lambda>storage.
       case stored_identity storage of
         Some (priv, pub) \<Rightarrow> st_return (Some priv, Some pub)
       | None \<Rightarrow>
           st_bind fresh_ctr (\<lambda>n.
           st_bind (st_lift (bind_res (generate_keypair (we_crypto E) (we_bytes E n 32)) (\<lambda>j. parseGeneratedKeypair (Some j)))) (\<lambda>kp.
           if \<not> sto_put_ok S then st_throw (JsError ''storage.put failed'' [])
           else st_seq (st_modify (\<lambda>s. s\<lparr>srv_storage := jset IDENTITY_STORAGE_KEY
                    (JObj [(ustr ''privateKey'', JStr (gk_privateKey kp)), (ustr ''publicKey'', JStr (gk_publicKey kp))])
                    (srv_storage s)\<rparr>))
                  (st_return (Some (gk_privateKey kp), Some (gk_publicKey kp)))))))"

definition strip_prefix :: "ustring \<Rightarrow> ustring \<Rightarrow> ustring option" where
  "strip_prefix pre s = (if take (length pre) s = pre then Some (drop (length pre) s) else None)"

definition set_add :: "'a \<Rightarrow> 'a list \<Rightarrow> 'a list" where
  "set_add x xs = (if x \<in> set xs then xs else xs @ [x])"

definition restore_entry :: "ustring \<times> json \<Rightarrow> (unit, server) st" where
  "restore_entry entry =
     (case (strip_prefix ROUTE_ID_STORAGE_PREFIX (fst entry), snd entry) of
        (Some networkName, JStr routeId) \<Rightarrow>
          if networkName = [] then st_return ()
          else st_catch
            (st_seq (setPeerRouteId networkName routeId)
              (st_modify (\<lambda>s. s\<lparr>srv_persistedRouteIds := set_add networkName (srv_persistedRouteIds s),
                                 srv_resyncPending := set_add networkName (srv_resyncPending s)\<rparr>)))
            (\<lambda>_. st_return ())
      | _ \<Rightarrow> st_return ())"

fun restore_entries :: "(ustring \<times> json) list \<Rightarrow> (unit, server) st" where
  "restore_entries [] = st_return ()"
| "restore_entries (e # es) = st_seq (restore_entry e) (restore_entries es)"

definition restoreRouteIds :: "storage_env \<Rightarrow> (unit, server) st" where
  "restoreRouteIds S =
     (if \<not> sto_list_ok S then st_throw (JsError ''storage.list failed'' [])
      else st_bind (st_gets srv_storage) restore_entries)"

definition initIdentity :: "world_env \<Rightarrow> storage_env \<Rightarrow> (unit, server) st" where
  "initIdentity E S =
     st_bind (resolve_keypair E S) (\<lambda>(privateKey, publicKey).
     if \<not> truthy privateKey \<or> \<not> truthy publicKey
     then st_throw (JsError ''failed to resolve the secure-mode X25519 keypair'' [])
     else st_seq (st_modify (\<lambda>s. s\<lparr>srv_localPrivateKey := the privateKey, srv_localPublicKey := the publicKey\<rparr>))
       (st_bind (st_gets srv_config) (\<lambda>cfg.
        st_bind (st_lift (case cfg_localPublicKeyBytes cfg of
                            Some bs \<Rightarrow> Inr bs | None \<Rightarrow> server_decodeBase64Key (the publicKey))) (\<lambda>pk.
        st_seq (newEasyTierRpc E pk (cfg_hostname cfg) SERVER_PEER_ID (cfg_disableRelayData cfg))
               (restoreRouteIds S)))))"

definition ensureIdentity :: "world_env \<Rightarrow> storage_env \<Rightarrow> (unit, server) st" where
  "ensureIdentity E S =
     st_bind (st_gets srv_identityReady) (\<lambda>ready.
     if ready then st_return ()
     else st_seq (initIdentity E S) (st_modify (\<lambda>s. s\<lparr>srv_identityReady := True\<rparr>)))"

section \<open>Removing connections\<close>

definition releaseHandshakeSlot :: "ustring \<Rightarrow> server \<Rightarrow> server" where
  "releaseHandshakeSlot ip s =
     (let held = (case jget (srv_pendingByIp s) ip of None \<Rightarrow> 1 | Some n \<Rightarrow> n);
          remaining = int held - 1
      in s\<lparr>srv_pendingHandshakes := (if srv_pendingHandshakes s > 0 then srv_pendingHandshakes s - 1 else 0),
           srv_pendingByIp := (if remaining > 0 then jset ip (nat remaining) (srv_pendingByIp s)
                               else jdel ip (srv_pendingByIp s))\<rparr>)"

text \<open>
  The socket's \<open>close\<close>: a code outside the range of the standard or a reason over 123 bytes is refused, a
  socket that is closing already is left alone.
\<close>

definition socket_close :: "nat \<Rightarrow> string \<Rightarrow> connection \<Rightarrow> unit res \<times> connection" where
  "socket_close code reason c =
     (if code < 1000 \<or> 4999 < code \<or> code \<in> {1004, 1005, 1006, 1015} \<or> length reason > 123
      then (raise ''InvalidAccessError'', c)
      else (Inr (), c\<lparr>cn_readyState := (if cn_readyState c = WS_OPEN then 2 else cn_readyState c),
                       cn_closed_with := (if cn_closed_with c = None then Some (code, reason) else cn_closed_with c)\<rparr>))"

text \<open>
  \<open>close\<close>, \<open>removeConnection\<close> and \<open>broadcastRouteUpdate\<close> call each other. The first and the last are
  given the removal as an argument, and \<open>removeConnection\<close> is defined by recursion on the depth of the calls that
  the stack still admits; at depth 0 it throws JavaScript's \<open>RangeError\<close>. The loop over a room visits the
  peers it had at the start; one that left in between is closed, so the guard skips it as the iterator of
  the JavaScript map does.
\<close>

definition close_with :: "(conn_id \<Rightarrow> (unit, server) st) \<Rightarrow> conn_id \<Rightarrow> nat \<Rightarrow> string \<Rightarrow> (unit, server) st" where
  "close_with remove cid code reason = with_conn cid (\<lambda>c.
     if cn_phase c = Closed then st_return ()
     else st_finally (on_conn cid (socket_close code (take 120 reason))) (remove cid))"

fun broadcast_peers ::
    "(conn_id \<Rightarrow> (unit, server) st) \<Rightarrow> world_env \<Rightarrow> peer_id option \<Rightarrow> bool \<Rightarrow> conn_id list \<Rightarrow> (unit, server) st" where
  "broadcast_peers remove E excludePeerId forceFull [] = st_return ()"
| "broadcast_peers remove E excludePeerId forceFull (cid # cids) =
     st_seq (with_conn cid (\<lambda>peer.
        if Some (cn_peerId peer) = excludePeerId \<or> cn_phase peer \<noteq> Ready then st_return ()
        else st_catch (sendRouteUpdate E cid forceFull)
               (\<lambda>_. close_with remove cid 1011 ''route synchronization failed'')))
       (broadcast_peers remove E excludePeerId forceFull cids)"

definition broadcast_with ::
    "(conn_id \<Rightarrow> (unit, server) st) \<Rightarrow> world_env \<Rightarrow> ustring \<Rightarrow> peer_id option \<Rightarrow> bool \<Rightarrow> (unit, server) st" where
  "broadcast_with remove E networkName excludePeerId forceFull =
     st_bind (st_gets (\<lambda>s. rooms_peers (srv_rooms s) networkName)) (broadcast_peers remove E excludePeerId forceFull)"

definition drop_connection :: "conn_id \<Rightarrow> server \<Rightarrow> server" where
  "drop_connection cid s = s\<lparr>srv_connections := removeAll cid (srv_connections s)\<rparr>"

definition clear_idle_timer :: "server \<Rightarrow> server" where
  "clear_idle_timer s = (if srv_connections s = [] then s\<lparr>srv_maintenanceTimer := False\<rparr> else s)"

definition leave_room :: "connection \<Rightarrow> conn_id \<Rightarrow> server \<Rightarrow> server" where
  "leave_room c cid s = s\<lparr>srv_rooms := snd (rooms_delete (cn_networkName c) (cn_peerId c) cid (srv_rooms s))\<rparr>"

primrec removeConnection :: "nat \<Rightarrow> world_env \<Rightarrow> conn_id \<Rightarrow> (unit, server) st" where
  "removeConnection 0 E cid = st_throw (JsError ''Maximum call stack size exceeded'' [])"
| "removeConnection (Suc depth) E cid = with_conn cid (\<lambda>c.
     if cn_phase c = Closed then st_return ()
     else
       st_seq (st_modify (upd_conn cid (\<lambda>c. c\<lparr>cn_phase := Closed\<rparr>)))
      (st_seq (st_modify (drop_connection cid))
      (st_seq (if cn_phase c \<noteq> Ready then st_modify (releaseHandshakeSlot (cn_clientIp c)) else st_return ())
      (st_seq (st_modify clear_idle_timer)
      (st_seq (st_modify (leave_room c cid))
      (st_seq (if cn_phase c = Ready
               then st_seq (removePeer E cid)
                      (broadcast_with (removeConnection depth E) E (cn_networkName c) None False)
               else st_return ())
      (st_modify (disposeConnection E cid))))))))"

text \<open>A depth that is enough for every chain of removals: one more than the open connections.\<close>

definition call_depth :: "server \<Rightarrow> nat" where
  "call_depth s = Suc (length (srv_connections s))"

definition remove_conn :: "world_env \<Rightarrow> conn_id \<Rightarrow> (unit, server) st" where
  "remove_conn E cid s = removeConnection (call_depth s) E cid s"

definition close :: "world_env \<Rightarrow> conn_id \<Rightarrow> nat \<Rightarrow> string \<Rightarrow> (unit, server) st" where
  "close E cid code reason s = close_with (removeConnection (call_depth s) E) cid code reason s"

definition broadcastRouteUpdate :: "world_env \<Rightarrow> ustring \<Rightarrow> peer_id option \<Rightarrow> bool \<Rightarrow> (unit, server) st" where
  "broadcastRouteUpdate E networkName excludePeerId forceFull s =
     broadcast_with (removeConnection (call_depth s) E) E networkName excludePeerId forceFull s"

definition failConnection :: "world_env \<Rightarrow> conn_id \<Rightarrow> (unit, server) st" where
  "failConnection E cid = close E cid 4401 ''EasyTier authentication or protocol error''"

section \<open>Rooms and routes\<close>

definition findPeer :: "server \<Rightarrow> ustring \<Rightarrow> peer_id \<Rightarrow> conn_id option" where
  "findPeer s networkName peerId = rooms_get (srv_rooms s) networkName peerId"

definition is_ready :: "server \<Rightarrow> conn_id \<Rightarrow> bool" where
  "is_ready s cid = (case jget (net_conns s) cid of None \<Rightarrow> False | Some c \<Rightarrow> cn_phase c = Ready)"

definition resolveRecipient :: "ustring \<Rightarrow> peer_id \<Rightarrow> (conn_id option, server) st" where
  "resolveRecipient networkName toPeer =
     st_bind (st_gets (\<lambda>s. findPeer s networkName toPeer)) (\<lambda>direct.
     case direct of
       Some cid \<Rightarrow> st_gets (\<lambda>s. if is_ready s cid then Some cid else None)
     | None \<Rightarrow>
         st_bind (getNextHop networkName toPeer) (\<lambda>gatewayId.
         if gatewayId = 0 \<or> gatewayId = toPeer then st_return None
         else st_gets (\<lambda>s. case findPeer s networkName gatewayId of
                              None \<Rightarrow> None | Some g \<Rightarrow> if is_ready s g then Some g else None)))"

definition persistPeerRouteId :: "world_env \<Rightarrow> ustring \<Rightarrow> (unit, server) st" where
  "persistPeerRouteId E networkName =
     st_bind (st_gets (\<lambda>s. networkName = [] \<or> networkName \<in> set (srv_persistedRouteIds s))) (\<lambda>skip.
     if skip then st_return ()
     else st_seq (st_modify (\<lambda>s. s\<lparr>srv_persistedRouteIds := set_add networkName (srv_persistedRouteIds s)\<rparr>))
       (st_bind (getPeerRouteId E networkName) (\<lambda>routeId.
        st_modify (\<lambda>s. s\<lparr>srv_pendingPuts := srv_pendingPuts s @ [(networkName, routeId)]\<rparr>))))"

definition registerConnection :: "world_env \<Rightarrow> conn_id \<Rightarrow> (unit, server) st" where
  "registerConnection E cid = with_conn cid (\<lambda>c.
     st_bind (st_gets (\<lambda>s. fst (rooms_set (cn_networkName c) (cn_peerId c) cid (srv_rooms s)))) (\<lambda>replaced.
     st_seq (st_modify (\<lambda>s. s\<lparr>srv_rooms := snd (rooms_set (cn_networkName c) (cn_peerId c) cid (srv_rooms s))\<rparr>))
    (st_seq (case replaced of
               None \<Rightarrow> st_return ()
             | Some old \<Rightarrow> if old \<noteq> cid then close E old 4000 ''replaced by an authenticated reconnect'' else st_return ())
    (st_seq (addPeer E cid)
            (persistPeerRouteId E (cn_networkName c))))))"

definition announcePeer :: "world_env \<Rightarrow> ustring \<Rightarrow> (unit, server) st" where
  "announcePeer E networkName =
     st_bind (st_gets (\<lambda>s. networkName \<in> set (srv_resyncPending s))) (\<lambda>forceFull.
     st_seq (st_modify (\<lambda>s. s\<lparr>srv_resyncPending := removeAll networkName (srv_resyncPending s)\<rparr>))
            (broadcastRouteUpdate E networkName None forceFull))"

section \<open>Handshakes\<close>

text \<open>The end of both handshakes.\<close>

definition admit :: "world_env \<Rightarrow> conn_id \<Rightarrow> (unit, server) st" where
  "admit E cid =
     st_seq (registerConnection E cid)
    (st_seq (st_modify (upd_conn cid completeHandshake))
    (with_conn cid (\<lambda>c.
     st_seq (st_modify (releaseHandshakeSlot (cn_clientIp c)))
            (announcePeer E (cn_networkName c)))))"

definition noise_seed :: "world_env \<Rightarrow> nat \<Rightarrow> bytes" where
  "noise_seed E n = (case we_bytes E n 32 of None \<Rightarrow> [] | Some b \<Rightarrow> b)"

definition handleHandshakeMessage1 :: "world_env \<Rightarrow> conn_id \<Rightarrow> bytes \<Rightarrow> byte \<Rightarrow> (unit, server) st" where
  "handleHandshakeMessage1 E cid frame ptype =
     st_bind (st_gets srv_config) (\<lambda>cfg.
     if ptype \<noteq> pt_code NoiseHandshakeMsg1
     then st_throw (JsError ''unexpected or out-of-order handshake packet'' [])
     else if cfg_connectionMode cfg = LegacyMode
     then st_throw (JsError ''CONNECTION_MODE=legacy rejects secure-mode handshakes'' [])
     else
       st_bind fresh_ctr (\<lambda>n.
       st_bind (on_secure cid (\<lambda>p store.
         let (r, p') = read_msg1 (we_crypto E) (we_codec E) (noise_seed E n) frame p in (r, p', store))) (\<lambda>j.
       st_bind (st_lift (parseHandshakeInfo (Some j))) (\<lambda>info.
       case jget (cfg_rooms cfg) (hi_networkName info) of
         None \<Rightarrow> close E cid 4403 ''network is not configured''
       | Some secret \<Rightarrow>
           st_seq (st_modify (upd_conn cid (\<lambda>c. c\<lparr>cn_peerId := hi_peerId info, cn_networkName := hi_networkName info\<rparr>)))
          (st_bind fresh_ctr (\<lambda>m.
           st_bind (on_secure cid (build_msg2 (we_crypto E) (we_codec E) (we_now E) (we_bytes E m 32) (we_uuid E m) secret)) (\<lambda>msg2.
           st_seq (conn_send E cid msg2)
                  (st_modify (upd_conn cid (\<lambda>c. c\<lparr>cn_phase := Msg3\<rparr>))))))))))"

definition handleLegacyHandshake :: "world_env \<Rightarrow> conn_id \<Rightarrow> bytes \<Rightarrow> packet_header \<Rightarrow> (unit, server) st" where
  "handleLegacyHandshake E cid frame h =
     st_bind (st_gets srv_config) (\<lambda>cfg.
     if cfg_connectionMode cfg = SecureMode
     then st_throw (JsError ''CONNECTION_MODE=secure rejects legacy plaintext handshakes'' [])
     else if fromPeerId h = SERVER_PEER_ID
     then st_throw (JsError ''legacy handshake peer id conflicts with the relay peer id'' [])
     else
       st_bind (st_lift (bind_res (parse_legacy_handshake (we_crypto E) (we_codec E) frame)
                           (\<lambda>j. parseLegacyHandshakeInfo (Some j)))) (\<lambda>info.
       case jget (cfg_rooms cfg) (li_networkName info) of
         None \<Rightarrow> close E cid 4403 ''network is not configured''
       | Some secret \<Rightarrow>
           st_bind (st_lift (verify_network_secret_digest (li_networkSecretDigest info) (li_networkName info) secret)) (\<lambda>digestOk.
           if \<not> digestOk then st_throw (JsError ''legacy handshake network-secret digest mismatch'' [])
           else
             st_seq (st_modify (upd_conn cid (\<lambda>c. c\<lparr>cn_peerId := li_peerId info, cn_networkName := li_networkName info,
                                                      cn_mode := LegacyMode\<rparr>)))
            (st_bind (st_lift (new_legacy_cipher secret)) (\<lambda>lc.
             st_seq (st_modify (upd_conn cid (\<lambda>c. c\<lparr>cn_legacyCipher := Some lc\<rparr>)))
            (st_bind (st_lift (build_legacy_handshake_response (we_codec E) SERVER_PEER_ID (li_networkName info) secret)) (\<lambda>msg.
             st_seq (conn_send E cid msg) (admit E cid))))))))"

definition handleHandshakeMessage3 :: "world_env \<Rightarrow> conn_id \<Rightarrow> bytes \<Rightarrow> byte \<Rightarrow> (unit, server) st" where
  "handleHandshakeMessage3 E cid frame ptype =
     (if ptype \<noteq> pt_code NoiseHandshakeMsg3 then st_throw (JsError ''expected NoiseHandshakeMsg3'' [])
      else
        st_bind (on_secure cid (finish_msg3 (we_crypto E) (we_codec E) (we_now E) frame)) (\<lambda>j.
        st_bind (st_lift (parseAuthenticationInfo (Some j))) (\<lambda>auth.
        with_conn cid (\<lambda>c.
        if ai_peerId auth \<noteq> cn_peerId c \<or> ai_networkName auth \<noteq> cn_networkName c
        then st_throw (JsError ''secure handshake identity mismatch'' [])
        else st_seq (st_modify (upd_conn cid (\<lambda>c. c\<lparr>cn_remotePublicKey := ai_remotePublicKey auth\<rparr>)))
                    (admit E cid)))))"

section \<open>Packets of an admitted connection\<close>

definition relay :: "world_env \<Rightarrow> conn_id \<Rightarrow> bytes \<Rightarrow> packet_header \<Rightarrow> (unit, server) st" where
  "relay E cid frame h =
     st_bind (st_gets (\<lambda>s. cfg_disableRelayData (srv_config s))) (\<lambda>disabled.
     st_bind (if disabled then st_lift (isRelayDataPacket frame) else st_return False) (\<lambda>dropped.
     if dropped then st_return ()
     else with_conn cid (\<lambda>c.
       st_bind (resolveRecipient (cn_networkName c) (toPeerId h)) (\<lambda>target.
       case target of
         None \<Rightarrow> st_return ()
       | Some t \<Rightarrow>
           st_bind (st_lift (incrementForwardCounter frame)) (\<lambda>forwarded.
           st_catch (conn_send E t forwarded)
             (\<lambda>_. close E t 1013 ''outbound relay capacity exceeded''))))))"

text \<open>The clear packet of a direct RPC frame; \<open>None\<close> when the decryption consumed the frame.\<close>

definition clear_rpc :: "world_env \<Rightarrow> conn_id \<Rightarrow> bytes \<Rightarrow> packet \<Rightarrow> (packet option, server) st" where
  "clear_rpc E cid frame pkt = with_conn cid (\<lambda>c.
     let encrypted = flags (header pkt) AND ENCRYPTED_FLAG \<noteq> 0;
         reparse = (\<lambda>clear. if clear = [] then st_return None
                            else st_bind (st_lift (parsePacket clear)) (\<lambda>p. st_return (Some p)))
     in if cn_mode c = LegacyMode
        then (case cn_legacyCipher c of
                None \<Rightarrow> st_throw (JsError ''legacy connection is missing its network-secret cipher'' [])
              | Some lc \<Rightarrow>
                  if encrypted then st_bind (st_lift (legacy_decrypt_packet (we_crypto E) lc frame)) reparse
                  else st_return (Some pkt))
        else if \<not> encrypted then st_throw (JsError ''secure_mode requires encrypted direct RPC packets'' [])
        else st_bind (on_secure cid (decrypt_packet (we_crypto E) (we_now E) frame)) reparse)"

definition handleReadyPacket :: "world_env \<Rightarrow> conn_id \<Rightarrow> bytes \<Rightarrow> packet \<Rightarrow> (unit, server) st" where
  "handleReadyPacket E cid frame pkt =
     (let h = header pkt
      in if toPeerId h \<noteq> SERVER_PEER_ID then relay E cid frame h
         else with_conn cid (\<lambda>c.
           if fromPeerId h \<noteq> cn_peerId c
           then st_throw (JsError ''direct control packet source does not match the authenticated peer'' [])
           else if (packetType h = pt_code Ping \<or> packetType h = pt_code Pong) \<and> flags h AND ENCRYPTED_FLAG \<noteq> 0
           then st_throw (JsError ''EasyTier Ping and Pong packets must remain unencrypted'' [])
           else if packetType h = pt_code Ping
           then st_bind (st_lift (createPong frame)) (conn_send E cid)
           else if packetType h = pt_code Pong then st_return ()
           else if packetType h \<noteq> pt_code RpcReq \<and> packetType h \<noteq> pt_code RpcResp then st_return ()
           else st_bind (clear_rpc E cid frame pkt) (\<lambda>clearPacket.
             case clearPacket of
               None \<Rightarrow> st_return ()
             | Some p \<Rightarrow>
                 if packetType h = pt_code RpcReq
                 then st_bind (handleRequest E cid (payload p)) (\<lambda>result.
                        if result = OutRoute
                        then broadcastRouteUpdate E (cn_networkName c) (Some (cn_peerId c)) False else st_return ())
                 else handleResponse E cid (payload p))))"

definition handleMessage :: "world_env \<Rightarrow> conn_id \<Rightarrow> ws_data \<Rightarrow> (unit, server) st" where
  "handleMessage E cid d =
     st_bind (st_gets srv_config) (\<lambda>cfg.
     st_bind (st_lift (toUint8Array d)) (\<lambda>frame.
     if length frame > cfg_maxFrameBytes cfg then st_throw (JsError ''EasyTier frame exceeds MAX_FRAME_BYTES'' [])
     else
       st_bind (st_lift (parsePacket frame)) (\<lambda>pkt.
       with_conn cid (\<lambda>c.
       case cn_phase c of
         Msg1 \<Rightarrow> if packetType (header pkt) = pt_code Handshake then handleLegacyHandshake E cid frame (header pkt)
                 else handleHandshakeMessage1 E cid frame (packetType (header pkt))
       | Msg3 \<Rightarrow> handleHandshakeMessage3 E cid frame (packetType (header pkt))
       | Ready \<Rightarrow> handleReadyPacket E cid frame pkt
       | Closed \<Rightarrow> st_return ()))))"

text \<open>The message listener: whatever the handler throws closes the connection.\<close>

definition on_message :: "world_env \<Rightarrow> conn_id \<Rightarrow> ws_data \<Rightarrow> (unit, server) st" where
  "on_message E cid d = st_catch (handleMessage E cid d) (\<lambda>_. failConnection E cid)"

section \<open>Requests\<close>

definition scheduleMaintenance :: "server \<Rightarrow> server" where
  "scheduleMaintenance s =
     (if srv_maintenanceTimer s \<or> srv_connections s = [] then s else s\<lparr>srv_maintenanceTimer := True\<rparr>)"

definition response :: "nat \<Rightarrow> string \<Rightarrow> http_response" where
  "response status body = \<lparr>hs_status = status, hs_body = body\<rparr>"

text \<open>An identity no connection has: each socket is an object of its own.\<close>

definition fresh_id :: "'z net_scheme \<Rightarrow> conn_id" where
  "fresh_id s = Suc (fold max (jkeys (net_conns s)) 0)"

definition pending_of :: "server \<Rightarrow> ustring \<Rightarrow> nat" where
  "pending_of s ip = (case jget (srv_pendingByIp s) ip of None \<Rightarrow> 0 | Some n \<Rightarrow> n)"

definition has_capacity :: "ustring \<Rightarrow> server \<Rightarrow> bool" where
  "has_capacity ip s \<longleftrightarrow> length (srv_connections s) < MAX_CONNECTIONS \<and> srv_pendingHandshakes s < MAX_PENDING_HANDSHAKES
     \<and> pending_of s ip < cfg_maxPendingPerIp (srv_config s)"

definition accept_connection :: "secure_peer \<Rightarrow> ustring \<Rightarrow> u32 \<Rightarrow> u32 \<Rightarrow> nat \<Rightarrow> server \<Rightarrow> server" where
  "accept_connection sec ip hi lo now s =
     (let cid = fresh_id s
      in scheduleMaintenance (s\<lparr>net_conns := jset cid (createConnection sec ip hi lo now) (net_conns s),
             srv_connections := srv_connections s @ [cid],
             srv_pendingHandshakes := srv_pendingHandshakes s + 1,
             srv_pendingByIp := jset ip (pending_of s ip + 1) (srv_pendingByIp s)\<rparr>))"

definition server_fetch ::
    "world_env \<Rightarrow> storage_env \<Rightarrow> http_request \<Rightarrow> u32 \<Rightarrow> u32 \<Rightarrow> server \<Rightarrow> http_response \<times> server" where
  "server_fetch E S req hi lo s =
     (if hq_pathname req \<noteq> ustr ''/'' then (response 404 ''Not found'', s)
      else if map_option js_toLowerCase (hq_upgrade req) \<noteq> Some (ustr ''websocket'')
      then (response 426 ''Expected a WebSocket upgrade'', s)
      else case ensureIdentity E S s of
        (Inl _, s1) \<Rightarrow> (response 503 ''Server secure-mode configuration is invalid'', s1)
      | (Inr _, s1) \<Rightarrow>
          let ip = (case hq_connecting_ip req of None \<Rightarrow> UNKNOWN_IP | Some ip \<Rightarrow> ip)
          in if \<not> has_capacity ip s1 then (response 503 ''EasyTier connection capacity exceeded'', s1)
             else case new_secure_peer (we_crypto E) (we_now E) (srv_localPrivateKey s1) (srv_localPublicKey s1) SERVER_PEER_ID of
               Inl _ \<Rightarrow> (response 503 ''Server secure-mode configuration is invalid'', s1)
             | Inr sec \<Rightarrow> (response 101 [], accept_connection sec ip hi lo (we_now E) s1))"

section \<open>Maintenance\<close>

definition number_peer_id :: "js_num \<Rightarrow> peer_id option" where
  "number_peer_id x =
     (case safe_integer x of Some i \<Rightarrow> if 0 \<le> i \<and> i < 2 ^ 32 then Some (of_int i) else None | None \<Rightarrow> None)"

definition close_failed :: "world_env \<Rightarrow> route_sync_failure \<Rightarrow> (unit, server) st" where
  "close_failed E f =
     st_bind (st_gets (\<lambda>s. case number_peer_id (rf_peerId f) of
                              None \<Rightarrow> None | Some pid \<Rightarrow> findPeer s (rf_networkName f) pid)) (\<lambda>found.
     case found of
       None \<Rightarrow> st_return ()
     | Some cid \<Rightarrow> close E cid 1011 ''route synchronization retry failed'')"

definition maintain :: "world_env \<Rightarrow> nat \<Rightarrow> conn_id \<Rightarrow> (unit, server) st" where
  "maintain E now cid = with_conn cid (\<lambda>c.
     if cn_phase c \<noteq> Ready then st_return ()
     else st_catch (maintainPeer E cid now)
            (\<lambda>_. close E cid 1011 ''route synchronization maintenance failed''))"

fun for_each :: "('a \<Rightarrow> (unit, 's) st) \<Rightarrow> 'a list \<Rightarrow> (unit, 's) st" where
  "for_each f [] = st_return ()"
| "for_each f (x # xs) = st_seq (f x) (for_each f xs)"

definition maintenance :: "world_env \<Rightarrow> (unit, server) st" where
  "maintenance E =
     st_seq (st_modify (\<lambda>s. s\<lparr>srv_maintenanceTimer := False\<rparr>))
    (st_bind (cleanExpired E (we_now E)) (\<lambda>(routeChangedNetworks, failures).
     st_seq (for_each (close_failed E) failures)
    (st_seq (for_each (\<lambda>networkName. broadcastRouteUpdate E networkName None False) routeChangedNetworks)
    (st_bind (st_gets srv_connections) (\<lambda>cids.
     st_seq (for_each (maintain E (we_now E)) cids)
            (st_modify scheduleMaintenance))))))"

end
