(* ===== verification/ServerInv.thy ===== *)
theory ServerInv
  imports Server
begin

unbundle bit_operations_syntax

text \<open>
  The invariant of the server and its preservation by every event. It is stated over the administrative
  facts of the connections, so that traffic leaves it alone by construction, and with two exception sets:
  \<open>X\<close> for a connection that is registered but not admitted yet, \<open>Y\<close> for one whose place in the room has
  just been taken over. Between events both are empty.
\<close>

section \<open>The invariant\<close>

definition open_conn :: "server \<Rightarrow> conn_id \<Rightarrow> bool" where
  "open_conn s cid = (case admin s cid of None \<Rightarrow> False | Some f \<Rightarrow> cf_phase f \<noteq> Closed)"

definition unready :: "server \<Rightarrow> conn_id \<Rightarrow> bool" where
  "unready s cid = (case admin s cid of None \<Rightarrow> False | Some f \<Rightarrow> cf_phase f \<noteq> Closed \<and> cf_phase f \<noteq> Ready)"

definition from_ip :: "server \<Rightarrow> ustring \<Rightarrow> conn_id \<Rightarrow> bool" where
  "from_ip s ip cid = (case admin s cid of None \<Rightarrow> False | Some f \<Rightarrow> cf_clientIp f = ip)"

text \<open>The connection table holds exactly the open connections.\<close>

definition table_ok :: "server \<Rightarrow> bool" where
  "table_ok s \<longleftrightarrow> distinct (srv_connections s) \<and> (\<forall>cid. cid \<in> set (srv_connections s) \<longleftrightarrow> open_conn s cid)"

text \<open>The handshake quotas count exactly the connections that are open and not admitted.\<close>

definition slots_ok :: "server \<Rightarrow> bool" where
  "slots_ok s \<longleftrightarrow>
     srv_pendingHandshakes s = length (filter (unready s) (srv_connections s)) \<and>
     (\<forall>ip. pending_of s ip = length (filter (\<lambda>cid. unready s cid \<and> from_ip s ip cid) (srv_connections s))) \<and>
     (\<forall>ip. jget (srv_pendingByIp s) ip \<noteq> Some 0)"

text \<open>A room lists connections under their own network and peer id, and every admitted one is listed.\<close>

definition rooms_ok :: "conn_id set \<Rightarrow> server \<Rightarrow> bool" where
  "rooms_ok X s \<longleftrightarrow> rooms_wf (srv_rooms s) \<and>
     (\<forall>n p cid. rooms_get (srv_rooms s) n p = Some cid \<longrightarrow>
        (\<exists>f. admin s cid = Some f \<and> cf_networkName f = n \<and> cf_peerId f = p \<and>
             (cf_phase f = Ready \<or> cid \<in> X \<and> cf_phase f \<noteq> Closed)))"

definition ready_ok :: "conn_id set \<Rightarrow> server \<Rightarrow> bool" where
  "ready_ok Y s \<longleftrightarrow>
     (\<forall>cid f. admin s cid = Some f \<longrightarrow> cf_phase f = Ready \<longrightarrow> cid \<notin> Y \<longrightarrow>
        rooms_get (srv_rooms s) (cf_networkName f) (cf_peerId f) = Some cid)"

text \<open>
  What a connection has proved: an admitted one belongs to a configured network and uses the configured
  mode; in secure mode its session is authenticated for exactly this peer and network, in legacy mode it
  holds the cipher of the network's secret.
\<close>

definition admitted :: "server_config \<Rightarrow> conn_facts \<Rightarrow> bool" where
  "admitted cfg f \<longleftrightarrow> cf_mode f = cfg_connectionMode cfg \<and>
     (case jget (cfg_rooms cfg) (cf_networkName f) of
        None \<Rightarrow> False
      | Some secret \<Rightarrow>
          (case cf_mode f of
             SecureMode \<Rightarrow> cf_peer f = (True, Some (cf_peerId f), Some (cf_networkName f))
           | LegacyMode \<Rightarrow> cf_cipher f \<noteq> None \<and> new_legacy_cipher secret = Inr (the (cf_cipher f))))"

definition conn_ok :: "server_config \<Rightarrow> conn_facts \<Rightarrow> bool" where
  "conn_ok cfg f \<longleftrightarrow>
     (case cf_phase f of
        Msg1 \<Rightarrow> cf_mode f = SecureMode
      | Msg3 \<Rightarrow> cf_mode f = SecureMode \<and> cfg_connectionMode cfg = SecureMode \<and> jhas (cfg_rooms cfg) (cf_networkName f)
      | Ready \<Rightarrow> admitted cfg f
      | Closed \<Rightarrow> True)"

definition facts_ok :: "conn_id set \<Rightarrow> server \<Rightarrow> bool" where
  "facts_ok X s \<longleftrightarrow>
     (\<forall>cid f. admin s cid = Some f \<longrightarrow> cf_phase f \<noteq> Closed \<longrightarrow>
        \<not> cf_freed f \<and> (cf_timer f \<longleftrightarrow> cf_phase f \<noteq> Ready) \<and>
        (conn_ok (srv_config s) f \<or> cid \<in> X \<and> cf_phase f \<noteq> Ready))"

definition srv_inv :: "conn_id set \<Rightarrow> conn_id set \<Rightarrow> server \<Rightarrow> bool" where
  "srv_inv X Y s \<longleftrightarrow> table_ok s \<and> slots_ok s \<and> rooms_ok X s \<and> ready_ok Y s \<and> facts_ok X s \<and>
     (srv_connections s \<noteq> [] \<longrightarrow> rpc_core s \<noteq> None)"

section \<open>What it depends on\<close>

lemma server_view_fields:
  assumes "server_view s' = server_view s"
  shows "admin s' = admin s" "(rpc_core s' = None) = (rpc_core s = None)" "srv_config s' = srv_config s"
    "srv_connections s' = srv_connections s" "srv_rooms s' = srv_rooms s"
    "srv_pendingHandshakes s' = srv_pendingHandshakes s" "srv_pendingByIp s' = srv_pendingByIp s"
    "srv_maintenanceTimer s' = srv_maintenanceTimer s" "srv_identityReady s' = srv_identityReady s"
    "srv_resyncPending s' = srv_resyncPending s" "srv_storage s' = srv_storage s"
    "srv_persistedRouteIds s' = srv_persistedRouteIds s"
proof -
  have "rpc_world.more s' = rpc_world.more s" using assms by (simp add: server_view_def)
  then obtain a b c d e f where s': "s' = s\<lparr>net_conns := a, net_sessions := b, net_ctr := c, rpc_core := d,
      rpc_states := e, rpc_serverPeerId := f\<rparr>"
    using rpc_world_more_update by blast
  show "srv_config s' = srv_config s"
    "srv_connections s' = srv_connections s" "srv_rooms s' = srv_rooms s"
    "srv_pendingHandshakes s' = srv_pendingHandshakes s" "srv_pendingByIp s' = srv_pendingByIp s"
    "srv_maintenanceTimer s' = srv_maintenanceTimer s" "srv_identityReady s' = srv_identityReady s"
    "srv_resyncPending s' = srv_resyncPending s" "srv_storage s' = srv_storage s"
    "srv_persistedRouteIds s' = srv_persistedRouteIds s"
    unfolding s' by simp_all
  show "admin s' = admin s" "(rpc_core s' = None) = (rpc_core s = None)"
    using assms by (simp_all add: server_view_def)
qed

lemma preds_admin:
  assumes "admin s' = admin s"
  shows "open_conn s' = open_conn s" "unready s' = unready s" "from_ip s' = from_ip s"
  by (intro ext, simp only: open_conn_def unready_def from_ip_def assms)+

lemma srv_inv_cong:
  assumes "admin s' = admin s" "(rpc_core s' = None) = (rpc_core s = None)" "srv_config s' = srv_config s"
    "srv_connections s' = srv_connections s" "srv_rooms s' = srv_rooms s"
    "srv_pendingHandshakes s' = srv_pendingHandshakes s" "srv_pendingByIp s' = srv_pendingByIp s"
  shows "srv_inv X Y s' = srv_inv X Y s"
proof -
  have "table_ok s' = table_ok s"
    unfolding table_ok_def preds_admin [OF assms(1)] assms(4) by (rule refl)
  moreover have "slots_ok s' = slots_ok s"
    unfolding slots_ok_def pending_of_def preds_admin [OF assms(1)] assms(4,6,7) by (rule refl)
  moreover have "rooms_ok X s' = rooms_ok X s" unfolding rooms_ok_def assms(1,5) by (rule refl)
  moreover have "ready_ok Y s' = ready_ok Y s" unfolding ready_ok_def assms(1,5) by (rule refl)
  moreover have "facts_ok X s' = facts_ok X s" unfolding facts_ok_def assms(1,3) by (rule refl)
  ultimately show ?thesis using assms(2,4) by (simp add: srv_inv_def)
qed

lemma srv_inv_view: "server_view s' = server_view s \<Longrightarrow> srv_inv X Y s' = srv_inv X Y s"
  by (rule srv_inv_cong) (rule server_view_fields, assumption)+

lemma srv_inv_exist: "srv_inv X Y s \<Longrightarrow> open_conn s cid \<Longrightarrow> rpc_core s \<noteq> None \<and> cid \<in> set (srv_connections s)"
  by (auto simp: srv_inv_def table_ok_def)

section \<open>Taking a connection out\<close>

definition detach :: "connection \<Rightarrow> conn_id \<Rightarrow> server \<Rightarrow> server" where
  "detach c cid s =
     leave_room c cid (clear_idle_timer
       ((if cn_phase c \<noteq> Ready then releaseHandshakeSlot (cn_clientIp c) else id)
         (drop_connection cid (upd_conn cid (\<lambda>c. c\<lparr>cn_phase := Closed\<rparr>) s))))"

lemma removeConnection_open:
  assumes "jget (net_conns s) cid = Some c" "cn_phase c \<noteq> Closed"
  shows "removeConnection (Suc depth) E cid s =
     st_seq (if cn_phase c = Ready
             then st_seq (removePeer E cid)
                    (broadcast_with (removeConnection depth E) E (cn_networkName c) None False)
             else st_return ()) (st_modify (disposeConnection E cid)) (detach c cid s)"
  using assms by (simp add: with_conn_def st_seq_def st_bind_def detach_def)

lemma admin_upd_conn:
  "jget (net_conns s) cid = Some c \<Longrightarrow> admin (upd_conn cid g s) = (admin s)(cid := Some (conn_admin (g c)))"
  by (auto simp: admin_def upd_conn_def fun_eq_iff)

lemma upd_conn_fields [simp]:
  "rpc_core (upd_conn cid g s) = rpc_core s" "rpc_states (upd_conn cid g s) = rpc_states s"
  "srv_config (upd_conn cid g s) = srv_config s" "srv_connections (upd_conn cid g s) = srv_connections s"
  "srv_rooms (upd_conn cid g s) = srv_rooms s" "srv_pendingHandshakes (upd_conn cid g s) = srv_pendingHandshakes s"
  "srv_pendingByIp (upd_conn cid g s) = srv_pendingByIp s" "srv_maintenanceTimer (upd_conn cid g s) = srv_maintenanceTimer s"
  by (simp_all add: upd_conn_def split: option.splits)

lemma admin_server_fields [simp]:
  "admin (s\<lparr>srv_connections := a\<rparr>) = admin s" "admin (s\<lparr>srv_rooms := b\<rparr>) = admin s"
  "admin (s\<lparr>srv_pendingHandshakes := c\<rparr>) = admin s" "admin (s\<lparr>srv_pendingByIp := d\<rparr>) = admin s"
  "admin (s\<lparr>srv_maintenanceTimer := e\<rparr>) = admin s" "admin (s\<lparr>srv_resyncPending := f\<rparr>) = admin s"
  "admin (s\<lparr>srv_persistedRouteIds := g\<rparr>) = admin s" "admin (s\<lparr>srv_pendingPuts := h\<rparr>) = admin s"
  "admin (s\<lparr>srv_storage := i\<rparr>) = admin s" "admin (s\<lparr>srv_identityReady := j\<rparr>) = admin s"
  "admin (s\<lparr>srv_localPrivateKey := k\<rparr>) = admin s" "admin (s\<lparr>srv_localPublicKey := l\<rparr>) = admin s"
  by (simp_all add: admin_def fun_eq_iff)

lemma detach_fields:
  assumes c: "jget (net_conns s) cid = Some c"
  shows "admin (detach c cid s) = (admin s)(cid := Some ((conn_admin c)\<lparr>cf_phase := Closed\<rparr>))"
    "srv_connections (detach c cid s) = removeAll cid (srv_connections s)"
    "srv_rooms (detach c cid s) = snd (rooms_delete (cn_networkName c) (cn_peerId c) cid (srv_rooms s))"
    "rpc_core (detach c cid s) = rpc_core s" "srv_config (detach c cid s) = srv_config s"
    "rpc_states (detach c cid s) = rpc_states s"
    "srv_pendingHandshakes (detach c cid s) = srv_pendingHandshakes s - (if cn_phase c \<noteq> Ready then 1 else 0)"
    "srv_pendingByIp (detach c cid s) =
       (if cn_phase c \<noteq> Ready then srv_pendingByIp (releaseHandshakeSlot (cn_clientIp c) s) else srv_pendingByIp s)"
    "srv_maintenanceTimer (detach c cid s) = (srv_maintenanceTimer s \<and> removeAll cid (srv_connections s) \<noteq> [])"
    "net_conns (detach c cid s) = jset cid (c\<lparr>cn_phase := Closed\<rparr>) (net_conns s)"
proof -
  have "conn_admin (c\<lparr>cn_phase := Closed\<rparr>) = (conn_admin c)\<lparr>cf_phase := Closed\<rparr>"
    by (simp add: conn_admin_def)
  then have "admin (upd_conn cid (\<lambda>c. c\<lparr>cn_phase := Closed\<rparr>) s) = (admin s)(cid := Some ((conn_admin c)\<lparr>cf_phase := Closed\<rparr>))"
    by (simp only: admin_upd_conn [OF c])
  then show "admin (detach c cid s) = (admin s)(cid := Some ((conn_admin c)\<lparr>cf_phase := Closed\<rparr>))"
    by (simp add: detach_def leave_room_def clear_idle_timer_def releaseHandshakeSlot_def drop_connection_def Let_def)
qed (use c in \<open>auto simp: detach_def leave_room_def clear_idle_timer_def releaseHandshakeSlot_def drop_connection_def
      Let_def upd_conn_def split: option.splits\<close>)

lemma count_removeAll:
  "distinct xs \<Longrightarrow> x \<in> set xs \<Longrightarrow>
     length (filter P xs) = length (filter P (removeAll x xs)) + (if P x then 1 else 0)"
proof (induction xs)
  case (Cons y ys)
  then show ?case by (cases "x = y") (simp_all add: removeAll_id)
qed simp

lemma admin_Some: "jget (net_conns s) cid = Some c \<Longrightarrow> admin s cid = Some (conn_admin c)"
  by (simp add: admin_def)

lemma open_conn_Some: "jget (net_conns s) cid = Some c \<Longrightarrow> open_conn s cid \<longleftrightarrow> cn_phase c \<noteq> Closed"
  by (simp add: open_conn_def admin_Some)

lemma open_connE:
  assumes "open_conn s cid"
  obtains c where "jget (net_conns s) cid = Some c" "cn_phase c \<noteq> Closed"
  using assms by (cases "jget (net_conns s) cid") (auto simp: open_conn_def admin_def)

text \<open>The predicates after one connection closed.\<close>

lemma preds_closed:
  assumes "admin s' = (admin s)(cid := Some f)" "cf_phase f = Closed"
  shows "open_conn s' d \<longleftrightarrow> d \<noteq> cid \<and> open_conn s d" "unready s' d \<longleftrightarrow> d \<noteq> cid \<and> unready s d"
    "d \<noteq> cid \<Longrightarrow> from_ip s' ip d = from_ip s ip d"
  using assms by (simp_all add: open_conn_def unready_def from_ip_def)

lemma pending_of_release:
  assumes "pending_of s ip > 0"
  shows "pending_of (releaseHandshakeSlot ip s) ip' = (if ip' = ip then pending_of s ip - 1 else pending_of s ip')"
  using assms by (auto simp: pending_of_def releaseHandshakeSlot_def Let_def split: option.splits)

lemma release_no_zero:
  assumes "\<And>ip. jget (srv_pendingByIp s) ip \<noteq> Some 0"
  shows "jget (srv_pendingByIp (releaseHandshakeSlot ip s)) ip' \<noteq> Some 0"
  using assms [of ip'] by (auto simp: releaseHandshakeSlot_def Let_def split: option.splits)

lemma pending_of_byIp: "srv_pendingByIp s' = srv_pendingByIp s \<Longrightarrow> pending_of s' = pending_of s"
  by (simp add: pending_of_def fun_eq_iff)

lemma filter_removed:
  "length (filter (\<lambda>d. d \<noteq> x \<and> P d) (removeAll x xs)) = length (filter P (removeAll x xs))"
  by (rule arg_cong [of _ _ length], rule filter_cong) auto

lemma slots_detach:
  assumes c: "jget (net_conns s) cid = Some c" "cn_phase c \<noteq> Closed" and t: "table_ok s" and sl: "slots_ok s"
  shows "slots_ok (detach c cid s)"
proof -
  let ?s' = "detach c cid s" and ?cs = "srv_connections s"
  note adm = detach_fields(1) [OF c(1)]
  have closed: "cf_phase ((conn_admin c)\<lparr>cf_phase := Closed\<rparr>) = Closed" by simp
  note preds = preds_closed [OF adm closed]
  have mem: "cid \<in> set ?cs" "distinct ?cs" using t c by (auto simp: table_ok_def open_conn_Some)
  have unr: "unready s cid \<longleftrightarrow> cn_phase c \<noteq> Ready" using c by (simp add: unready_def admin_Some)
  have ip: "from_ip s a cid \<longleftrightarrow> cn_clientIp c = a" for a using c by (simp add: from_ip_def admin_Some)
  have all: "length (filter (unready s) ?cs) = length (filter (unready ?s') (srv_connections ?s')) + (if cn_phase c \<noteq> Ready then 1 else 0)"
    unfolding detach_fields(2) [OF c(1)] preds using count_removeAll [OF mem(2,1), of "unready s"] filter_removed [of cid "unready s" ?cs]
    by (simp add: unr)
  have per: "length (filter (\<lambda>d. unready s d \<and> from_ip s a d) ?cs) =
      length (filter (\<lambda>d. unready ?s' d \<and> from_ip ?s' a d) (srv_connections ?s')) +
      (if cn_phase c \<noteq> Ready \<and> cn_clientIp c = a then 1 else 0)" for a
  proof -
    have "filter (\<lambda>d. unready ?s' d \<and> from_ip ?s' a d) (removeAll cid ?cs) = filter (\<lambda>d. unready s d \<and> from_ip s a d) (removeAll cid ?cs)"
      by (rule filter_cong) (auto simp: preds)
    then show ?thesis
      using count_removeAll [OF mem(2,1), of "\<lambda>d. unready s d \<and> from_ip s a d"]
      by (simp add: detach_fields(2) [OF c(1)] unr ip)
  qed
  show ?thesis
  proof (cases "cn_phase c = Ready")
    case True
    then have "pending_of ?s' = pending_of s" by (intro pending_of_byIp) (simp add: detach_fields(8) [OF c(1)])
    with True sl all per show ?thesis
      by (simp add: slots_ok_def detach_fields(7,8) [OF c(1)])
  next
    case False
    have by_ip: "srv_pendingByIp ?s' = srv_pendingByIp (releaseHandshakeSlot (cn_clientIp c) s)"
      using False by (simp add: detach_fields(8) [OF c(1)])
    have "pending_of s (cn_clientIp c) > 0" using per [of "cn_clientIp c"] sl False by (simp add: slots_ok_def)
    then have "pending_of ?s' a = (if a = cn_clientIp c then pending_of s a - 1 else pending_of s a)" for a
      using pending_of_release pending_of_byIp [OF by_ip] by simp
    moreover have "jget (srv_pendingByIp ?s') a \<noteq> Some 0" for a
      unfolding by_ip using sl by (intro release_no_zero) (simp add: slots_ok_def)
    ultimately show ?thesis
      using False sl all per by (auto simp: slots_ok_def detach_fields(7) [OF c(1)])
  qed
qed

lemma table_detach:
  assumes c: "jget (net_conns s) cid = Some c" and t: "table_ok s"
  shows "table_ok (detach c cid s)"
proof -
  have closed: "cf_phase ((conn_admin c)\<lparr>cf_phase := Closed\<rparr>) = Closed" by simp
  show ?thesis
    using t by (auto simp: table_ok_def detach_fields(2) [OF c] preds_closed [OF detach_fields(1) [OF c] closed] distinct_removeAll)
qed

lemma rooms_detach:
  assumes c: "jget (net_conns s) cid = Some c" and r: "rooms_ok X s"
  shows "rooms_ok X (detach c cid s)"
proof -
  have "rooms_get (srv_rooms s) n p \<noteq> Some cid \<or> n = cn_networkName c \<and> p = cn_peerId c" for n p
    using r admin_Some [OF c] by (fastforce simp: rooms_ok_def)
  moreover have "rooms_wf (srv_rooms (detach c cid s))"
    using r by (simp add: rooms_ok_def detach_fields(3) [OF c] rooms_wf_delete)
  ultimately show ?thesis
    using r by (auto simp: rooms_ok_def detach_fields(1,3) [OF c] rooms.get_del split: if_splits)
qed

lemma ready_detach:
  assumes c: "jget (net_conns s) cid = Some c" and r: "ready_ok Y s"
  shows "ready_ok Y (detach c cid s)"
  using r by (fastforce simp: ready_ok_def detach_fields(1,3) [OF c] rooms.get_del split: if_splits)

lemma facts_detach:
  assumes c: "jget (net_conns s) cid = Some c" and r: "facts_ok X s"
  shows "facts_ok X (detach c cid s)"
  using r by (auto simp: facts_ok_def detach_fields(1,5) [OF c] split: if_splits)

lemma srv_inv_detach:
  assumes "jget (net_conns s) cid = Some c" "cn_phase c \<noteq> Closed" "srv_inv X Y s"
  shows "srv_inv X Y (detach c cid s)"
  using assms slots_detach [OF assms(1,2)] table_detach [OF assms(1)] rooms_detach [OF assms(1)]
    ready_detach [OF assms(1)] facts_detach [OF assms(1)]
  by (auto simp: srv_inv_def detach_fields(2,4) [OF assms(1)])

section \<open>Closing only closes\<close>

lemma peers_exist_mono:
  assumes "peers_exist s" "admin s' = admin s"
    "\<And>key st. jget (rpc_states s') key = Some st \<Longrightarrow> \<exists>key' st'. jget (rpc_states s) key' = Some st' \<and> ry_peer st' = ry_peer st"
  shows "peers_exist s'"
  using assms admin_jhas [OF assms(2)] by (metis peers_exist_def)

lemma flush_keeps_peers:
  assumes "peers_exist s" "flushRouteUpdate E key now s = (r, s')"
  shows "peers_exist s'"
proof (cases "\<exists>st. jget (rpc_states s) key = Some st \<and> \<not> ry_inFlight st \<and> (ry_dirty st \<or> ry_forceFull st)")
  case True
  then obtain st where st: "jget (rpc_states s) key = Some st" "\<not> ry_inFlight st" "ry_dirty st \<or> ry_forceFull st" by blast
  obtain st' where st': "rpc_states s' = jset key st' (rpc_states s)" "ry_peer st' = ry_peer st"
    using flush_sends [OF st assms(2)] by blast
  have "admin s' = admin s" using unchangedD [OF flushRouteUpdate_calm assms(2)] by (simp add: server_view_def)
  then show ?thesis
    by (rule peers_exist_mono [OF assms(1)]) (use st st' in \<open>auto split: if_splits\<close>)
next
  case False
  then have "flushRouteUpdate E key now s = (Inr (), s)"
    by (auto simp: flushRouteUpdate_def split: option.splits)
  with assms show ?thesis by simp
qed

lemma flush_peers: "peers_exist s \<Longrightarrow> peers_exist (snd (flushRouteUpdate E key now s))"
  by (rule flush_keeps_peers [where r = "fst (flushRouteUpdate E key now s)"]) simp_all

lemma peers_exist_set_state:
  "peers_exist s \<Longrightarrow> jhas (net_conns s) (ry_peer st) \<Longrightarrow> peers_exist (set_state key st s)"
  by (auto simp: peers_exist_def set_state_def)

lemma sendRouteUpdate_keeps_peers [intro]: "keeps peers_exist (sendRouteUpdate E cid ff)"
  unfolding keeps_def
proof (intro allI impI)
  fix s :: "'a rpc_world_scheme"
  assume ex: "peers_exist s"
  show "peers_exist (snd (sendRouteUpdate E cid ff s))"
  proof (cases "jget (net_conns s) cid")
    case (Some peer)
    define st where "st = (case jget (rpc_states s) (routeSyncKey peer) of None \<Rightarrow> new_sync_state cid | Some st \<Rightarrow> st)"
    have "peers_exist (set_state (routeSyncKey peer)
        (st\<lparr>ry_peer := cid, ry_dirty := True, ry_forceFull := ry_forceFull st \<or> ff\<rparr>) s)"
      using Some ex by (intro peers_exist_set_state) (simp_all add: jhas_Some)
    from flush_peers [OF this] show ?thesis
      by (simp add: sendRouteUpdate_def with_conn_Some [OF Some] Let_def st_seq_def st_bind_def st_def)
  qed (use ex in \<open>simp add: sendRouteUpdate_def with_conn_def\<close>)
qed

definition closes :: "conn_id set \<Rightarrow> server \<Rightarrow> server \<Rightarrow> bool" where
  "closes Z s s' \<longleftrightarrow>
     (\<forall>cid. admin s' cid = admin s cid \<or>
        (\<exists>f f'. admin s cid = Some f \<and> (cf_phase f = Ready \<or> cid \<in> Z) \<and> admin s' cid = Some f' \<and> cf_phase f' = Closed)) \<and>
     srv_config s' = srv_config s \<and> srv_identityReady s' = srv_identityReady s \<and> (rpc_core s' = None) = (rpc_core s = None) \<and>
     length (srv_connections s') \<le> length (srv_connections s) \<and>
     (srv_connections s' \<noteq> [] \<longrightarrow> srv_maintenanceTimer s' = srv_maintenanceTimer s) \<and>
     (srv_maintenanceTimer s' \<longrightarrow> srv_maintenanceTimer s) \<and>
     (srv_connections s \<noteq> [] \<longrightarrow> srv_connections s' = [] \<longrightarrow> \<not> srv_maintenanceTimer s') \<and>
     (peers_exist s \<longrightarrow> peers_exist s') \<and>
     (\<forall>n p c. rooms_get (srv_rooms s) n p = Some c \<longrightarrow> open_conn s' c \<longrightarrow> rooms_get (srv_rooms s') n p = Some c)"

lemma closes_admin:
  "closes Z s s' \<Longrightarrow> admin s' cid = admin s cid \<or>
     (\<exists>f f'. admin s cid = Some f \<and> (cf_phase f = Ready \<or> cid \<in> Z) \<and> admin s' cid = Some f' \<and> cf_phase f' = Closed)"
  by (simp add: closes_def)

lemma closes_view:
  assumes "server_view s' = server_view s" "peers_exist s \<Longrightarrow> peers_exist s'"
  shows "closes Z s s'"
  using server_view_fields [OF assms(1)] assms(2) by (simp add: closes_def)

lemma closes_refl [simp]: "closes Z s s"
  by (simp add: closes_def)

lemma closes_trans:
  assumes "closes Z s s'" "closes Z s' s''"
  shows "closes Z s s''"
proof -
  have "admin s'' cid = admin s cid \<or>
     (\<exists>f f'. admin s cid = Some f \<and> (cf_phase f = Ready \<or> cid \<in> Z) \<and> admin s'' cid = Some f' \<and> cf_phase f' = Closed)" for cid
    using closes_admin [OF assms(1), of cid] closes_admin [OF assms(2), of cid] by auto
  moreover have "srv_connections s'' \<noteq> [] \<Longrightarrow> srv_connections s' \<noteq> []"
    using assms(2) by (auto simp: closes_def)
  moreover have "open_conn s' c" if "open_conn s'' c" for c
    using that closes_admin [OF assms(2), of c] by (auto simp: open_conn_def)
  ultimately show ?thesis using assms unfolding closes_def by auto
qed

lemma closes_mono: "closes Z s s' \<Longrightarrow> Z \<subseteq> Z' \<Longrightarrow> closes Z' s s'"
  unfolding closes_def by blast

lemma closes_ready:
  assumes "closes {cid} s s'" "admin s cid = Some f" "cf_phase f = Ready"
  shows "closes {} s s'"
proof -
  have "admin s' d = admin s d \<or>
     (\<exists>f f'. admin s d = Some f \<and> cf_phase f = Ready \<and> admin s' d = Some f' \<and> cf_phase f' = Closed)" for d
    using closes_admin [OF assms(1), of d] assms(2,3) by auto
  then show ?thesis using assms(1) unfolding closes_def by simp
qed

lemma closes_exists: "closes Z s s' \<Longrightarrow> admin s cid \<noteq> None \<Longrightarrow> admin s' cid \<noteq> None"
  using closes_admin [of Z s s' cid] by auto

lemma closes_closed: "closes Z s s' \<Longrightarrow> admin s cid \<noteq> None \<Longrightarrow> \<not> open_conn s cid \<Longrightarrow> \<not> open_conn s' cid"
  using closes_admin [of Z s s' cid] by (auto simp: open_conn_def)

lemma detach_closes:
  assumes c: "jget (net_conns s) cid = Some c" and mem: "cid \<in> set (srv_connections s)"
  shows "closes {cid} s (detach c cid s)"
proof -
  have "peers_exist s \<Longrightarrow> peers_exist (detach c cid s)"
    by (auto simp: peers_exist_def detach_fields [OF c])
  moreover have "srv_identityReady (detach c cid s) = srv_identityReady s"
    by (simp add: detach_def leave_room_def clear_idle_timer_def releaseHandshakeSlot_def drop_connection_def Let_def
        upd_conn_def split: option.splits)
  ultimately show ?thesis
    using c by (auto simp: closes_def detach_fields [OF c] admin_Some rooms.get_del open_conn_def)
qed

section \<open>Removal returns\<close>

definition valid_code :: "nat \<Rightarrow> bool" where
  "valid_code code \<longleftrightarrow> 1000 \<le> code \<and> code \<le> 4999 \<and> code \<notin> {1004, 1005, 1006, 1015}"

lemma calm_socket_close: "calm (on_conn cid (socket_close code reason))"
  by (intro calm_net quiet_on_conn local_net_on_conn) (simp add: socket_close_def conn_admin_def)

lemma rpc_states_on_conn: "rpc_states (snd (on_conn cid f s)) = rpc_states s"
  by (simp add: on_conn_def split_beta split: option.splits)

lemma peers_exist_view:
  "server_view s' = server_view s \<Longrightarrow> rpc_states s' = rpc_states s \<Longrightarrow> peers_exist s \<Longrightarrow> peers_exist s'"
  by (rule peers_exist_mono [of s s']) (auto simp: server_view_def)

lemma open_conn_view: "server_view s' = server_view s \<Longrightarrow> open_conn s' = open_conn s"
  by (rule preds_admin(1)) (rule server_view_fields(1))

text \<open>
  What \<open>close\<close> and \<open>broadcastRouteUpdate\<close> rely on: a removal that, as long as the call depth covers the
  open connections, returns normally, closes the connection it is given and otherwise only admitted ones,
  and keeps the invariant.
\<close>

locale remover =
  fixes remove :: "conn_id \<Rightarrow> (unit, server) st"
    and depth :: nat
    and X :: "conn_id set"
    and Y :: "conn_id set"
  assumes removes: "srv_inv X Y s \<Longrightarrow> open_conn s cid \<Longrightarrow> length (srv_connections s) \<le> depth \<Longrightarrow>
      \<exists>s'. remove cid s = (Inr (), s') \<and> srv_inv X Y s' \<and> closes {cid} s s' \<and> \<not> open_conn s' cid"
begin

lemma close_open:
  assumes inv: "srv_inv X Y s" and op: "open_conn s cid" and len: "length (srv_connections s) \<le> depth"
    and code: "valid_code code"
  shows "\<exists>s'. close_with remove cid code reason s = (Inr (), s') \<and> srv_inv X Y s' \<and> closes {cid} s s' \<and> \<not> open_conn s' cid"
proof -
  from op obtain c where c: "jget (net_conns s) cid = Some c" "cn_phase c \<noteq> Closed" by (rule open_connE)
  define s1 where "s1 = snd (on_conn cid (socket_close code (take 120 reason)) s)"
  have run: "on_conn cid (socket_close code (take 120 reason)) s = (Inr (), s1)"
    using c code by (simp add: s1_def on_conn_def socket_close_def valid_code_def)
  have view: "server_view s1 = server_view s" using calm_socket_close run by (rule unchangedD)
  have pe: "peers_exist s \<Longrightarrow> peers_exist s1"
    using peers_exist_view [OF view] by (simp add: s1_def rpc_states_on_conn)
  obtain s' where s': "remove cid s1 = (Inr (), s')" "srv_inv X Y s'" "closes {cid} s1 s'" "\<not> open_conn s' cid"
    using removes [of s1 cid] inv op len srv_inv_view [OF view] open_conn_view [OF view] server_view_fields(4) [OF view] by auto
  have "close_with remove cid code reason s = (Inr (), s')"
    using c run s'(1) by (simp add: close_with_def with_conn_Some [OF c(1)] st_finally_def)
  moreover have "closes {cid} s s'" using closes_trans [OF closes_view [OF view pe] s'(3)] by simp
  ultimately show ?thesis using s' by blast
qed

lemma broadcast_peers_total:
  assumes "srv_inv X Y s" "length (srv_connections s) \<le> depth" "\<forall>cid \<in> set cids. admin s cid \<noteq> None"
  shows "\<exists>s'. broadcast_peers remove E ex ff cids s = (Inr (), s') \<and> srv_inv X Y s' \<and> closes {} s s'"
  using assms
proof (induction cids arbitrary: s)
  case Nil
  then show ?case by simp
next
  case (Cons cid cids)
  let ?m = "with_conn cid (\<lambda>peer.
        if Some (cn_peerId peer) = ex \<or> cn_phase peer \<noteq> Ready then st_return ()
        else st_catch (sendRouteUpdate E cid ff) (\<lambda>_. close_with remove cid 1011 ''route synchronization failed''))"
  obtain c where c: "jget (net_conns s) cid = Some c" using Cons.prems(3) by (auto simp: admin_def)
  have "\<exists>s1. ?m s = (Inr (), s1) \<and> srv_inv X Y s1 \<and> closes {} s s1"
  proof (cases "Some (cn_peerId c) = ex \<or> cn_phase c \<noteq> Ready")
    case True
    then show ?thesis using Cons.prems(1) by (simp add: with_conn_Some [OF c])
  next
    case False
    obtain r s1 where run: "sendRouteUpdate E cid ff s = (r, s1)" by fastforce
    have view: "server_view s1 = server_view s" using sendRouteUpdate_calm run by (rule unchangedD)
    have pe: "peers_exist s \<Longrightarrow> peers_exist s1"
      using sendRouteUpdate_keeps_peers [of E cid ff] run unfolding keeps_def by (metis snd_conv)
    have cl: "closes {} s s1" by (rule closes_view [OF view pe])
    have inv1: "srv_inv X Y s1" using Cons.prems(1) srv_inv_view [OF view] by simp
    show ?thesis
    proof (cases r)
      case (Inr u)
      then show ?thesis using False run inv1 cl by (simp add: with_conn_Some [OF c] st_catch_def)
    next
      case (Inl e)
      have adm: "admin s1 cid = Some (conn_admin c)" using server_view_fields(1) [OF view] admin_Some [OF c] by simp
      have "open_conn s1 cid" using adm False by (simp add: open_conn_def)
      moreover have "length (srv_connections s1) \<le> depth" using Cons.prems(2) server_view_fields(4) [OF view] by simp
      moreover have "valid_code 1011" by (simp add: valid_code_def)
      ultimately obtain s2 where s2: "close_with remove cid 1011 ''route synchronization failed'' s1 = (Inr (), s2)"
        "srv_inv X Y s2" "closes {cid} s1 s2"
        using close_open [OF inv1] by blast
      have "closes {} s1 s2" by (rule closes_ready [OF s2(3) adm]) (use False in simp)
      with cl have "closes {} s s2" by (rule closes_trans)
      then show ?thesis using False run Inl s2 by (simp add: with_conn_Some [OF c] st_catch_def)
    qed
  qed
  then obtain s1 where s1: "?m s = (Inr (), s1)" "srv_inv X Y s1" "closes {} s s1" by blast
  have "length (srv_connections s1) \<le> depth" using s1(3) Cons.prems(2) by (simp add: closes_def)
  moreover have "\<forall>d \<in> set cids. admin s1 d \<noteq> None" using Cons.prems(3) closes_exists [OF s1(3)] by simp
  ultimately obtain s2 where s2: "broadcast_peers remove E ex ff cids s1 = (Inr (), s2)" "srv_inv X Y s2" "closes {} s1 s2"
    using Cons.IH [OF s1(2)] by blast
  have "closes {} s s2" using s1(3) s2(3) by (rule closes_trans)
  then show ?case using s1 s2 by (simp add: st_seq_def st_bind_def)
qed

lemma broadcast_total:
  assumes "srv_inv X Y s" "length (srv_connections s) \<le> depth"
  shows "\<exists>s'. broadcast_with remove E network ex ff s = (Inr (), s') \<and> srv_inv X Y s' \<and> closes {} s s'"
proof -
  have "set (rooms_peers (srv_rooms s) network) = {c. \<exists>p. rooms_get (srv_rooms s) network p = Some c}"
    using assms(1) by (intro rooms.peers_get) (simp add: srv_inv_def rooms_ok_def)
  then have "\<forall>cid \<in> set (rooms_peers (srv_rooms s) network). admin s cid \<noteq> None"
    using assms(1) by (fastforce simp: srv_inv_def rooms_ok_def)
  from broadcast_peers_total [OF assms this] show ?thesis
    by (simp add: broadcast_with_def st_bind_def)
qed

end

lemma removePeer_runs:
  assumes "jget (net_conns s) cid = Some c" "rpc_core s \<noteq> None"
  shows "\<exists>s'. removePeer E cid s = (Inr (), s') \<and> server_view s' = server_view s \<and> (peers_exist s \<longrightarrow> peers_exist s')"
proof -
  obtain core where core: "rpc_core s = Some core" using assms(2) by blast
  define s' where "s' = snd (removePeer E cid s)"
  have run: "removePeer E cid s = (Inr (), s')"
    using core by (simp add: s'_def removePeer_def with_conn_Some [OF assms(1)] st_seq_def st_bind_def
        on_core_seeded_def fresh_ctr_def on_core_def total_op_def)
  have view: "server_view s' = server_view s" using removePeer_calm run by (rule unchangedD)
  moreover have "rpc_states s' = jdel (routeSyncKey c) (rpc_states s)"
    using core by (simp add: s'_def removePeer_def with_conn_Some [OF assms(1)] st_seq_def st_bind_def
        on_core_seeded_def fresh_ctr_def on_core_def total_op_def)
  then have "peers_exist s \<Longrightarrow> peers_exist s'"
    by (rule_tac peers_exist_mono) (use view in \<open>auto simp: server_view_def split: if_splits\<close>)
  ultimately show ?thesis using run by blast
qed

lemma disposeConnection_fields:
  assumes "jget (net_conns s) cid = Some c"
  shows "admin (disposeConnection E cid s) = (admin s)(cid := Some ((conn_admin c)\<lparr>cf_freed := True, cf_timer := False, cf_cipher := None\<rparr>))"
    "srv_connections (disposeConnection E cid s) = srv_connections s" "srv_rooms (disposeConnection E cid s) = srv_rooms s"
    "srv_config (disposeConnection E cid s) = srv_config s" "rpc_core (disposeConnection E cid s) = rpc_core s"
    "srv_pendingHandshakes (disposeConnection E cid s) = srv_pendingHandshakes s"
    "srv_pendingByIp (disposeConnection E cid s) = srv_pendingByIp s"
    "srv_maintenanceTimer (disposeConnection E cid s) = srv_maintenanceTimer s"
    "srv_identityReady (disposeConnection E cid s) = srv_identityReady s"
    "rpc_states (disposeConnection E cid s) = rpc_states s"
    "jhas (net_conns (disposeConnection E cid s)) d \<longleftrightarrow> d = cid \<or> jhas (net_conns s) d"
  using assms by (auto simp: disposeConnection_def admin_def conn_admin_def fun_eq_iff)

text \<open>Freeing a closed connection changes nothing the invariant looks at.\<close>

lemma dispose_closed:
  assumes c: "jget (net_conns s) cid = Some c" "cn_phase c = Closed" and inv: "srv_inv X Y s"
  shows "srv_inv X Y (disposeConnection E cid s) \<and> closes {cid} s (disposeConnection E cid s)
         \<and> \<not> open_conn (disposeConnection E cid s) cid"
proof -
  let ?s' = "disposeConnection E cid s"
  note f = disposeConnection_fields [OF c(1)]
  note a = admin_Some [OF c(1)]
  have o: "open_conn ?s' = open_conn s" and u: "unready ?s' = unready s" and i: "from_ip ?s' = from_ip s"
    using a c(2) by (auto simp: open_conn_def unready_def from_ip_def fun_eq_iff f)
  have "table_ok ?s' = table_ok s" unfolding table_ok_def o f by (rule refl)
  moreover have "slots_ok ?s' = slots_ok s" unfolding slots_ok_def pending_of_def u i f by (rule refl)
  moreover have "rooms_ok X s \<Longrightarrow> rooms_ok X ?s'"
    using a c(2) by (fastforce simp: rooms_ok_def f)
  moreover have "ready_ok Y s \<Longrightarrow> ready_ok Y ?s'" using a c(2) by (auto simp: ready_ok_def f split: if_splits)
  moreover have "facts_ok X s \<Longrightarrow> facts_ok X ?s'" using a c(2) by (auto simp: facts_ok_def f split: if_splits)
  ultimately have "srv_inv X Y ?s'" using inv by (simp add: srv_inv_def f)
  moreover have "closes {cid} s ?s'"
    using a c(2) by (auto simp: closes_def f peers_exist_def)
  moreover have "\<not> open_conn ?s' cid" using o a c(2) by (simp add: open_conn_def)
  ultimately show ?thesis by blast
qed

lemma removeConnection_remover: "remover (removeConnection depth E) depth X Y"
proof (induction depth)
  case 0
  then show ?case by unfold_locales (use srv_inv_exist in fastforce)
next
  case (Suc depth)
  show ?case
  proof
    fix s cid
    assume inv: "srv_inv X Y s" and op: "open_conn s cid" and len: "length (srv_connections s) \<le> Suc depth"
    from op obtain c where c: "jget (net_conns s) cid = Some c" "cn_phase c \<noteq> Closed" by (rule open_connE)
    have mem: "cid \<in> set (srv_connections s)" "rpc_core s \<noteq> None" "distinct (srv_connections s)"
      using srv_inv_exist [OF inv op] inv by (auto simp: srv_inv_def table_ok_def)
    define s1 where "s1 = detach c cid s"
    have inv1: "srv_inv X Y s1" unfolding s1_def by (rule srv_inv_detach [OF c inv])
    have cl1: "closes {cid} s s1" unfolding s1_def by (rule detach_closes [OF c(1) mem(1)])
    have c1: "jget (net_conns s1) cid = Some (c\<lparr>cn_phase := Closed\<rparr>)" by (simp add: s1_def detach_fields(10) [OF c(1)])
    have len1: "length (srv_connections s1) \<le> depth"
      using len mem by (simp add: s1_def detach_fields(2) [OF c(1)] distinct_remove1_removeAll [symmetric] length_remove1)
    define m where "m = (if cn_phase c = Ready
             then st_seq (removePeer E cid) (broadcast_with (removeConnection depth E) E (cn_networkName c) None False)
             else st_return ())"
    have "\<exists>s2. m s1 = (Inr (), s2) \<and> srv_inv X Y s2 \<and> closes {} s1 s2"
    proof (cases "cn_phase c = Ready")
      case True
      obtain s2 where s2: "removePeer E cid s1 = (Inr (), s2)" "server_view s2 = server_view s1" "peers_exist s1 \<longrightarrow> peers_exist s2"
        using removePeer_runs [OF c1] mem(2) by (auto simp: s1_def detach_fields(4) [OF c(1)])
      have "srv_inv X Y s2" using inv1 srv_inv_view [OF s2(2)] by simp
      moreover have "length (srv_connections s2) \<le> depth" using len1 server_view_fields(4) [OF s2(2)] by simp
      ultimately obtain s3 where s3: "broadcast_with (removeConnection depth E) E (cn_networkName c) None False s2 = (Inr (), s3)"
        "srv_inv X Y s3" "closes {} s2 s3"
        using remover.broadcast_total [OF Suc.IH] by blast
      have "closes {} s1 s2" by (rule closes_view [OF s2(2)]) (use s2(3) in blast)
      then have "closes {} s1 s3" using s3(3) by (rule closes_trans)
      then show ?thesis using True s2(1) s3 by (simp add: m_def st_seq_def st_bind_def)
    qed (use inv1 in \<open>simp add: m_def\<close>)
    then obtain s2 where s2: "m s1 = (Inr (), s2)" "srv_inv X Y s2" "closes {} s1 s2" by blast
    have adm1: "admin s1 cid = Some (conn_admin (c\<lparr>cn_phase := Closed\<rparr>))" by (rule admin_Some [OF c1])
    have "admin s2 cid = admin s1 cid" using closes_admin [OF s2(3), of cid] adm1 by auto
    then obtain c2 where c2: "jget (net_conns s2) cid = Some c2" "cn_phase c2 = Closed"
      using adm1 by (cases "jget (net_conns s2) cid") (auto simp: admin_def conn_admin_def)
    note d = dispose_closed [OF c2 s2(2), of E]
    have "removeConnection (Suc depth) E cid s = st_seq m (st_modify (disposeConnection E cid)) s1"
      unfolding removeConnection_open [OF c] s1_def m_def by (rule refl)
    then have "removeConnection (Suc depth) E cid s = (Inr (), disposeConnection E cid s2)"
      by (simp add: st_seq_def st_bind_def s2(1))
    moreover have "closes {cid} s (disposeConnection E cid s2)"
      using closes_trans [OF cl1] closes_trans [OF closes_mono [OF s2(3)]] d by (metis empty_subsetI)
    ultimately show "\<exists>s'. removeConnection (Suc depth) E cid s = (Inr (), s') \<and> srv_inv X Y s' \<and> closes {cid} s s' \<and> \<not> open_conn s' cid"
      using d by blast
  qed
qed

interpretation removal: remover "removeConnection depth E" depth X Y for depth E X Y
  by (rule removeConnection_remover)

section \<open>The top-level calls\<close>

lemma close_total:
  assumes inv: "srv_inv X Y s" and ex: "admin s cid \<noteq> None" and code: "valid_code code"
  shows "\<exists>s'. close E cid code reason s = (Inr (), s') \<and> srv_inv X Y s' \<and> closes {cid} s s' \<and> \<not> open_conn s' cid"
proof (cases "open_conn s cid")
  case True
  then show ?thesis
    using removal.close_open [OF inv True _ code, of "call_depth s"] by (simp add: close_def call_depth_def)
next
  case False
  obtain c where c: "jget (net_conns s) cid = Some c" using ex by (auto simp: admin_def)
  with False have "cn_phase c = Closed" by (simp add: open_conn_Some)
  then have "close E cid code reason s = (Inr (), s)" by (simp add: close_def close_with_def with_conn_Some [OF c])
  with inv False show ?thesis by simp
qed

lemma broadcast_route_total:
  "srv_inv X Y s \<Longrightarrow> \<exists>s'. broadcastRouteUpdate E network ex ff s = (Inr (), s') \<and> srv_inv X Y s' \<and> closes {} s s'"
  using removal.broadcast_total [of X Y s "call_depth s"] by (simp add: broadcastRouteUpdate_def call_depth_def)

lemma remove_conn_total:
  assumes inv: "srv_inv X Y s" and ex: "admin s cid \<noteq> None"
  shows "\<exists>s'. remove_conn E cid s = (Inr (), s') \<and> srv_inv X Y s' \<and> closes {cid} s s' \<and> \<not> open_conn s' cid"
proof (cases "open_conn s cid")
  case True
  then show ?thesis
    using removal.removes [OF inv True, of "call_depth s"] by (simp add: remove_conn_def call_depth_def)
next
  case False
  obtain c where c: "jget (net_conns s) cid = Some c" using ex by (auto simp: admin_def)
  with False have "cn_phase c = Closed" by (simp add: open_conn_Some)
  then have "remove_conn E cid s = (Inr (), s)" by (simp add: remove_conn_def call_depth_def with_conn_Some [OF c])
  with inv False show ?thesis by simp
qed

section \<open>Progress of an event\<close>

text \<open>
  What every step inside an event guarantees: connections only leave, towards admitted or closed, and the
  fields an event does not own stay as they are.
\<close>

definition moves :: "server \<Rightarrow> server \<Rightarrow> bool" where
  "moves s s' \<longleftrightarrow>
     (\<forall>cid. open_conn s' cid \<longrightarrow> open_conn s cid) \<and> (\<forall>cid. unready s' cid \<longrightarrow> unready s cid) \<and>
     (\<forall>ip cid. unready s' cid \<longrightarrow> from_ip s' ip cid \<longrightarrow> from_ip s ip cid) \<and>
     (\<forall>cid. admin s cid \<noteq> None \<longrightarrow> admin s' cid \<noteq> None) \<and>
     srv_config s' = srv_config s \<and> srv_identityReady s' = srv_identityReady s \<and> (rpc_core s' = None) = (rpc_core s = None) \<and>
     length (srv_connections s') \<le> length (srv_connections s) \<and>
     (srv_connections s' \<noteq> [] \<longrightarrow> srv_maintenanceTimer s' = srv_maintenanceTimer s) \<and>
     (srv_maintenanceTimer s' \<longrightarrow> srv_maintenanceTimer s) \<and>
     (srv_connections s \<noteq> [] \<longrightarrow> srv_connections s' = [] \<longrightarrow> \<not> srv_maintenanceTimer s') \<and>
     (peers_exist s \<longrightarrow> peers_exist s')"

lemma moves_refl [simp]: "moves s s"
  by (simp add: moves_def)

lemma moves_trans: "moves s s' \<Longrightarrow> moves s' s'' \<Longrightarrow> moves s s''"
proof -
  assume a: "moves s s'" and b: "moves s' s''"
  have "srv_connections s'' \<noteq> [] \<Longrightarrow> srv_connections s' \<noteq> []" using b by (auto simp: moves_def)
  with a b show ?thesis unfolding moves_def by auto
qed

lemma closes_moves: "closes Z s s' \<Longrightarrow> moves s s'"
proof -
  assume cl: "closes Z s s'"
  have "open_conn s' c \<Longrightarrow> open_conn s c" "unready s' c \<Longrightarrow> unready s c \<and> admin s' c = admin s c"
    "admin s c \<noteq> None \<Longrightarrow> admin s' c \<noteq> None" for c
    using closes_admin [OF cl, of c] by (auto simp: open_conn_def unready_def)
  then show ?thesis using cl unfolding moves_def closes_def from_ip_def by simp
qed

lemma srv_inv_mono: "srv_inv X Y s \<Longrightarrow> X \<subseteq> X' \<Longrightarrow> Y \<subseteq> Y' \<Longrightarrow> srv_inv X' Y' s"
  unfolding srv_inv_def rooms_ok_def ready_ok_def facts_ok_def by (fast dest: subsetD)

lemma srv_inv_closed: "srv_inv X Y s \<Longrightarrow> \<not> open_conn s cid \<Longrightarrow> srv_inv (X - {cid}) (Y - {cid}) s"
  unfolding srv_inv_def rooms_ok_def ready_ok_def facts_ok_def open_conn_def
  by (fastforce split: option.splits)

section \<open>A connection on its way in\<close>

definition pre_ready :: "conn_facts \<Rightarrow> bool" where
  "pre_ready f \<longleftrightarrow> cf_phase f \<noteq> Closed \<and> cf_phase f \<noteq> Ready"

definition unregistered :: "conn_id \<Rightarrow> server \<Rightarrow> bool" where
  "unregistered cid s \<longleftrightarrow> (\<forall>n p. rooms_get (srv_rooms s) n p \<noteq> Some cid)"

text \<open>The stages of an admission: not registered, and registered but not admitted.\<close>

definition entering :: "conn_id \<Rightarrow> conn_facts \<Rightarrow> server \<Rightarrow> bool" where
  "entering cid f s \<longleftrightarrow> srv_inv {cid} {} s \<and> admin s cid = Some f \<and> pre_ready f \<and> unregistered cid s"

definition registered :: "conn_id \<Rightarrow> conn_facts \<Rightarrow> server \<Rightarrow> bool" where
  "registered cid f s \<longleftrightarrow> srv_inv {cid} {} s \<and> admin s cid = Some f \<and> pre_ready f \<and>
     rooms_get (srv_rooms s) (cf_networkName f) (cf_peerId f) = Some cid"

lemma unready_pre: "admin s cid = Some f \<Longrightarrow> unready s cid \<longleftrightarrow> pre_ready f"
  by (simp add: unready_def pre_ready_def)

lemma entering_start:
  assumes "srv_inv {} {} s" "admin s cid = Some f" "pre_ready f"
  shows "entering cid f s"
proof -
  have "unregistered cid s"
    using assms unfolding unregistered_def srv_inv_def rooms_ok_def pre_ready_def by fastforce
  with assms show ?thesis using srv_inv_mono [OF assms(1), of "{cid}" "{}"] by (simp add: entering_def)
qed

text \<open>Changing the facts of one connection and nothing of the server.\<close>

definition alters :: "conn_id \<Rightarrow> conn_facts \<Rightarrow> server \<Rightarrow> server \<Rightarrow> bool" where
  "alters cid f s s' \<longleftrightarrow> admin s' = (admin s)(cid := Some f) \<and>
     srv_connections s' = srv_connections s \<and> srv_rooms s' = srv_rooms s \<and> srv_config s' = srv_config s \<and>
     srv_pendingHandshakes s' = srv_pendingHandshakes s \<and> srv_pendingByIp s' = srv_pendingByIp s \<and>
     srv_identityReady s' = srv_identityReady s \<and> srv_maintenanceTimer s' = srv_maintenanceTimer s \<and>
     (rpc_core s' = None) = (rpc_core s = None) \<and> rpc_states s' = rpc_states s"

lemma alters_upd_conn:
  "jget (net_conns s) cid = Some c \<Longrightarrow> alters cid (conn_admin (g c)) s (upd_conn cid g s)"
  by (simp add: alters_def admin_upd_conn) (simp add: upd_conn_def)

lemma alters_on_secure:
  assumes "jget (net_conns s) cid = Some c" "\<not> cn_freed c" "f (cn_secure c) (net_sessions s) = (r, p, store)"
  shows "on_secure cid f s = (r, snd (on_secure cid f s)) \<and>
     alters cid ((conn_admin c)\<lparr>cf_peer := peer_facts p\<rparr>) s (snd (on_secure cid f s))"
  using assms by (auto simp: on_secure_def alters_def admin_def fun_eq_iff conn_admin_def)

lemma peers_exist_alters: "alters cid f s s' \<Longrightarrow> admin s cid \<noteq> None \<Longrightarrow> peers_exist s \<Longrightarrow> peers_exist s'"
proof -
  assume a: "alters cid f s s'" and ex: "admin s cid \<noteq> None" and p: "peers_exist s"
  have "jhas (net_conns s') d" if "jhas (net_conns s) d" for d
  proof -
    have "admin s' d \<noteq> None" using a that by (auto simp: alters_def admin_def jhas_def split: option.splits)
    then show ?thesis by (auto simp: admin_def jhas_def)
  qed
  then show ?thesis using a p by (auto simp: peers_exist_def alters_def)
qed

lemma alters_inv:
  assumes a: "alters cid f' s s'" and f: "admin s cid = Some f" "pre_ready f" and inv: "srv_inv X Y s"
    and f': "pre_ready f'" "cf_clientIp f' = cf_clientIp f" "\<not> cf_freed f'" "cf_timer f'"
    and out: "unregistered cid s" and ok: "cid \<in> X \<or> conn_ok (srv_config s) f'"
  shows "srv_inv X Y s'" "moves s s'" "unregistered cid s'"
proof -
  have adm: "admin s' = (admin s)(cid := Some f')" using a by (simp add: alters_def)
  have o: "open_conn s' = open_conn s" and u: "unready s' = unready s" and i: "from_ip s' = from_ip s"
    using f f' by (auto simp: open_conn_def unready_def from_ip_def fun_eq_iff adm pre_ready_def)
  have fld: "srv_connections s' = srv_connections s" "srv_rooms s' = srv_rooms s" "srv_config s' = srv_config s"
    "srv_pendingHandshakes s' = srv_pendingHandshakes s" "srv_pendingByIp s' = srv_pendingByIp s"
    using a by (simp_all add: alters_def)
  have "table_ok s' = table_ok s" unfolding table_ok_def o fld by (rule refl)
  moreover have "slots_ok s' = slots_ok s" unfolding slots_ok_def pending_of_def u i fld by (rule refl)
  moreover have "rooms_ok X s'"
    using inv out by (auto simp: srv_inv_def rooms_ok_def adm fld unregistered_def)
  moreover have "ready_ok Y s'"
    using inv f' by (auto simp: srv_inv_def ready_ok_def adm fld pre_ready_def)
  moreover have "facts_ok X s'"
    using inv f' ok by (auto simp: srv_inv_def facts_ok_def adm fld pre_ready_def)
  ultimately show "srv_inv X Y s'" using inv a by (simp add: srv_inv_def alters_def)
  show "moves s s'"
    using a peers_exist_alters [OF a] f(1) unfolding moves_def o u i by (auto simp: alters_def)
  show "unregistered cid s'" using out fld by (simp add: unregistered_def)
qed

lemma entering_facts: "entering cid f s \<Longrightarrow> \<not> cf_freed f \<and> cf_timer f"
  unfolding entering_def srv_inv_def facts_ok_def pre_ready_def by blast

lemma entering_alters:
  assumes "entering cid f s" "alters cid f' s s'" "pre_ready f'" "cf_clientIp f' = cf_clientIp f"
    "\<not> cf_freed f'" "cf_timer f'"
  shows "entering cid f' s'" "moves s s'"
proof -
  have "admin s cid = Some f" "pre_ready f" "srv_inv {cid} {} s" "unregistered cid s" using assms(1) by (auto simp: entering_def)
  note r = alters_inv [OF assms(2) this(1,2,3) assms(3-6) this(4)]
  show "entering cid f' s'" using r assms(2,3) by (simp add: entering_def alters_def)
  show "moves s s'" using r by simp
qed

lemma entering_done:
  assumes "entering cid f s" "conn_ok (srv_config s) f"
  shows "srv_inv {} {} s"
proof -
  have inv: "srv_inv {cid} {} s" and f: "admin s cid = Some f" and out: "unregistered cid s"
    using assms(1) by (auto simp: entering_def)
  have "rooms_ok {} s"
    using inv out unfolding srv_inv_def rooms_ok_def unregistered_def by (metis empty_iff singletonD)
  moreover have "facts_ok {} s"
    using inv f assms(2) unfolding srv_inv_def facts_ok_def by (metis option.inject singletonD)
  ultimately show ?thesis using inv by (simp add: srv_inv_def)
qed

section \<open>Registration\<close>

lemma entering_view:
  assumes "server_view s' = server_view s"
  shows "entering cid f s' = entering cid f s" "registered cid f s' = registered cid f s"
  unfolding entering_def registered_def unregistered_def srv_inv_view [OF assms] server_view_fields(1,5) [OF assms]
  by (rule refl)+

lemma rooms_set_inv:
  assumes ent: "entering cid f s"
  defines "s1 \<equiv> s\<lparr>srv_rooms := snd (rooms_set (cf_networkName f) (cf_peerId f) cid (srv_rooms s))\<rparr>"
    and "old \<equiv> rooms_get (srv_rooms s) (cf_networkName f) (cf_peerId f)"
  shows "srv_inv {cid} (set_option old) s1" "moves s s1" "admin s1 = admin s"
    "rooms_get (srv_rooms s1) (cf_networkName f) (cf_peerId f) = Some cid" "old \<noteq> Some cid"
proof -
  have inv: "srv_inv {cid} {} s" and f: "admin s cid = Some f" "pre_ready f" and out: "unregistered cid s"
    using ent by (auto simp: entering_def)
  show adm: "admin s1 = admin s" by (simp add: s1_def)
  have get: "rooms_get (srv_rooms s1) n p = (if n = cf_networkName f \<and> p = cf_peerId f then Some cid else rooms_get (srv_rooms s) n p)" for n p
    by (simp add: s1_def rooms.get_set)
  then show "rooms_get (srv_rooms s1) (cf_networkName f) (cf_peerId f) = Some cid" by simp
  show "old \<noteq> Some cid" using out by (simp add: old_def unregistered_def)
  have fld: "srv_connections s1 = srv_connections s" "srv_pendingHandshakes s1 = srv_pendingHandshakes s"
    "srv_pendingByIp s1 = srv_pendingByIp s" "srv_config s1 = srv_config s" "rpc_core s1 = rpc_core s"
    by (simp_all add: s1_def)
  note preds = preds_admin [OF adm]
  have "table_ok s1 = table_ok s" unfolding table_ok_def preds fld by (rule refl)
  moreover have "slots_ok s1 = slots_ok s" unfolding slots_ok_def pending_of_def preds fld by (rule refl)
  moreover have "facts_ok {cid} s1 = facts_ok {cid} s" unfolding facts_ok_def adm fld by (rule refl)
  moreover have "rooms_ok {cid} s1"
  proof -
    have "rooms_wf (srv_rooms s1)" using inv by (simp add: s1_def srv_inv_def rooms_ok_def rooms_wf_set)
    moreover have "\<exists>f'. admin s1 d = Some f' \<and> cf_networkName f' = n \<and> cf_peerId f' = p \<and>
             (cf_phase f' = Ready \<or> d \<in> {cid} \<and> cf_phase f' \<noteq> Closed)" if "rooms_get (srv_rooms s1) n p = Some d" for n p d
    proof (cases "n = cf_networkName f \<and> p = cf_peerId f")
      case True
      with that f show ?thesis by (auto simp: get adm pre_ready_def)
    next
      case False
      with that inv show ?thesis unfolding get adm srv_inv_def rooms_ok_def by auto
    qed
    ultimately show ?thesis unfolding rooms_ok_def by blast
  qed
  moreover have "ready_ok (set_option old) s1"
  proof -
    have r: "rooms_get (srv_rooms s) (cf_networkName g) (cf_peerId g) = Some d"
      if "admin s d = Some g" "cf_phase g = Ready" for d g
      using inv that by (auto simp: srv_inv_def ready_ok_def)
    have "cf_networkName g \<noteq> cf_networkName f \<or> cf_peerId g \<noteq> cf_peerId f"
      if "admin s d = Some g" "cf_phase g = Ready" "d \<notin> set_option old" for d g
      using r [OF that(1,2)] that(3) by (auto simp: old_def)
    with r show ?thesis unfolding ready_ok_def adm get by auto
  qed
  ultimately show "srv_inv {cid} (set_option old) s1" using inv by (simp add: srv_inv_def fld)
  show "moves s s1" unfolding moves_def preds by (simp add: s1_def peers_exist_def)
qed

section \<open>Steady computations\<close>

text \<open>Computations that leave everything the invariant looks at as it is.\<close>

definition inv_view :: "server \<Rightarrow> (conn_id \<Rightarrow> conn_facts option) \<times> bool \<times> server_config \<times> conn_id list \<times> conn_id room_registry
    \<times> nat \<times> (ustring, nat) jmap \<times> bool \<times> bool" where
  "inv_view s = (admin s, rpc_core s = None, srv_config s, srv_connections s, srv_rooms s, srv_pendingHandshakes s,
     srv_pendingByIp s, srv_maintenanceTimer s, srv_identityReady s)"

definition steady :: "('a, server) st \<Rightarrow> bool" where
  "steady m \<longleftrightarrow> unchanged inv_view m \<and> keeps peers_exist m"

lemma inv_view_server_view:
  assumes "server_view s' = server_view s"
  shows "inv_view s' = inv_view s"
  unfolding inv_view_def using server_view_fields [OF assms] by simp

lemma inv_view_inv:
  assumes "inv_view s' = inv_view s"
  shows "srv_inv X Y s' = srv_inv X Y s" "entering cid f s' = entering cid f s" "registered cid f s' = registered cid f s"
    "open_conn s' = open_conn s" "admin s' = admin s" "srv_config s' = srv_config s"
proof -
  have eq: "admin s' = admin s" "(rpc_core s' = None) = (rpc_core s = None)" "srv_config s' = srv_config s"
    "srv_connections s' = srv_connections s" "srv_rooms s' = srv_rooms s"
    "srv_pendingHandshakes s' = srv_pendingHandshakes s" "srv_pendingByIp s' = srv_pendingByIp s"
    using assms by (simp_all add: inv_view_def)
  show inv: "srv_inv X Y s' = srv_inv X Y s" for X Y by (rule srv_inv_cong [OF eq])
  show "entering cid f s' = entering cid f s" "registered cid f s' = registered cid f s"
    unfolding entering_def registered_def unregistered_def inv eq by (rule refl)+
  show "open_conn s' = open_conn s" "admin s' = admin s" "srv_config s' = srv_config s"
    using preds_admin [OF eq(1)] eq by simp_all
qed

lemma inv_view_moves:
  assumes "inv_view s' = inv_view s" "peers_exist s \<Longrightarrow> peers_exist s'"
  shows "moves s s'"
proof -
  have "admin s' = admin s" using assms(1) by (simp add: inv_view_def)
  note p = preds_admin [OF this]
  show ?thesis unfolding moves_def p using assms by (simp add: inv_view_def)
qed

lemma unchanged_weaken: "unchanged v m \<Longrightarrow> (\<And>s s'. v s' = v s \<Longrightarrow> w s' = w s) \<Longrightarrow> unchanged w m"
  unfolding unchanged_def by blast

lemma steady_calm: "calm m \<Longrightarrow> keeps peers_exist m \<Longrightarrow> steady m"
  unfolding steady_def by (intro conjI unchanged_weaken [of server_view m inv_view] inv_view_server_view)

lemma steady_basic [intro]: "steady (st_return x)" "steady (st_throw e)" "steady (st_gets g)" "steady (st_lift r)"
  by (auto simp: steady_def)

lemma steady_bind [intro]: "steady m \<Longrightarrow> (\<And>x. steady (f x)) \<Longrightarrow> steady (st_bind m f)"
  unfolding steady_def by (auto intro: unchanged_bind keeps_bind)

lemma steady_seq [intro]: "steady m \<Longrightarrow> steady k \<Longrightarrow> steady (st_seq m k)"
  unfolding st_seq_def by (rule steady_bind)

lemma steady_if [intro]: "(b \<Longrightarrow> steady m) \<Longrightarrow> (\<not> b \<Longrightarrow> steady k) \<Longrightarrow> steady (if b then m else k)"
  by simp

lemma steady_with_conn [intro]: "(\<And>c. steady (f c)) \<Longrightarrow> steady (with_conn cid f)"
  by (auto simp: steady_def keeps_def with_conn_def split: option.splits)

lemma keeps_with_conn [intro]: "(\<And>c. keeps P (f c)) \<Longrightarrow> keeps P (with_conn cid f)"
  by (auto simp: keeps_def with_conn_def split: option.splits)

lemma keeps_peers_calm: "calm m \<Longrightarrow> unchanged rpc_view m \<Longrightarrow> keeps peers_exist m"
  unfolding keeps_def
proof (intro allI impI)
  fix s :: "'a rpc_world_scheme"
  assume "calm m" "unchanged rpc_view m" "peers_exist s"
  then show "peers_exist (snd (m s))"
    using peers_exist_mono [of s "snd (m s)"] by (fastforce simp: unchanged_def server_view_def rpc_view_def)
qed

lemma steady_net [intro]:
  "steady (conn_send E cid pkt)" "steady (conn_encrypt E cid pkt)" "steady fresh_ctr"
  "steady (on_core_seeded E f)" "steady (sendControl E cid ptype pl)" "steady (sendRouteUpdate E cid ff)"
proof -
  show "steady (conn_send E cid pkt)" "steady (conn_encrypt E cid pkt)" "steady fresh_ctr"
    by (intro steady_calm keeps_peers_calm calm_conn local_net_rpc_view local_net_conn_send local_net_conn_encrypt
        local_net_fresh_ctr)+
  show "steady (on_core_seeded E f)" by (intro steady_calm keeps_peers_calm on_core_seeded_calm on_core_seeded_view)
  show "steady (sendControl E cid ptype pl)" by (intro steady_calm keeps_peers_calm sendControl_calm sendControl_view)
  show "steady (sendRouteUpdate E cid ff)" by (intro steady_calm sendRouteUpdate_calm sendRouteUpdate_keeps_peers)
qed

lemma steady_on_core [intro]: "steady (on_core f)"
  by (intro steady_calm keeps_peers_calm on_core_calm unchanged_on_core) simp

lemma keeps_peers_drop: "keeps peers_exist (st_modify (\<lambda>s. s\<lparr>rpc_states := jdel key (rpc_states s)\<rparr>))"
  by (auto simp: keeps_def peers_exist_def split: if_splits)

lemma steady_drop_state: "steady (st_modify (\<lambda>s. s\<lparr>rpc_states := jdel key (rpc_states s)\<rparr>))"
  by (intro steady_calm unchanged_modify keeps_peers_drop) simp

lemma steady_addPeer [intro]: "steady (addPeer E cid)"
  unfolding addPeer_def by (intro steady_with_conn steady_seq steady_drop_state steady_net)

lemma steady_handleRequest [intro]: "steady (handleRequest E cid pl)"
  unfolding handleRequest_def
proof (intro steady_with_conn steady_bind steady_net)
  fix c and x :: bytes
  show "steady (case x of
       [] \<Rightarrow> st_seq (sendControl E cid RpcResp []) (st_throw (JsError ''WASM RPC core returned unknown result'' []))
     | tag # body \<Rightarrow>
         if tag = 0 then st_return OutPending
         else if body = [] then st_throw (JsError ''WASM RPC core returned an empty response'' [])
         else st_seq (sendControl E cid RpcResp body)
           (if tag = 2 then st_seq (sendRouteUpdate E cid False) (st_return OutRoute)
            else if tag = 3 then st_seq (sendRouteUpdate E cid False) (st_return OutRouteSession)
            else if tag \<noteq> 1 then st_throw (JsError ''WASM RPC core returned unknown result'' [unat tag])
            else st_return OutHandled))"
    by (cases x) auto
qed

lemma flushRouteUpdate_keeps_peers [intro]: "keeps peers_exist (flushRouteUpdate E key now)"
  by (simp add: keeps_def flush_peers)

lemma steady_handleResponse [intro]: "steady (handleResponse E cid pl)"
proof (rule steady_calm [OF handleResponse_calm])
  show "keeps peers_exist (handleResponse E cid pl)"
    unfolding handleResponse_def
  proof (intro keeps_with_conn keeps_bind)
    fix c :: connection
    show "keeps peers_exist (on_core_seeded E (\<lambda>n. handle_response (we_codec E) (we_group_seed E n) (cn_networkName c)
                (cn_peerId c) pl (we_now E)))"
      by (auto intro: keeps_peers_calm)
    fix complete
    let ?k = "routeSyncKey c"
    have "peers_exist (snd ((case found of
         None \<Rightarrow> st_return ()
       | Some st \<Rightarrow>
           st_seq (st_modify (set_state ?k (st\<lparr>ry_inFlight := False, ry_sentAt := 0, ry_lastCompletedAt := we_now E\<rparr>)))
             (if ry_dirty st \<or> ry_forceFull st then flushRouteUpdate E ?k (we_now E) else st_return ())) s))"
      if ex: "peers_exist s" and found: "found = jget (rpc_states s) ?k" for found and s :: "'a rpc_world_scheme"
    proof (cases found)
      case (Some st)
      let ?s1 = "set_state ?k (st\<lparr>ry_inFlight := False, ry_sentAt := 0, ry_lastCompletedAt := we_now E\<rparr>) s"
      have "peers_exist ?s1"
        using ex found Some by (intro peers_exist_set_state) (auto simp: peers_exist_def)
      then show ?thesis using Some flush_peers [of ?s1] by (simp add: st_seq_def st_bind_def)
    qed (use ex in simp)
    then show "keeps peers_exist (if \<not> complete then st_return ()
       else st_bind (st_gets (\<lambda>s. jget (rpc_states s) ?k)) (\<lambda>found. case found of
         None \<Rightarrow> st_return ()
       | Some st \<Rightarrow>
           st_seq (st_modify (set_state ?k (st\<lparr>ry_inFlight := False, ry_sentAt := 0, ry_lastCompletedAt := we_now E\<rparr>)))
             (if ry_dirty st \<or> ry_forceFull st then flushRouteUpdate E ?k (we_now E) else st_return ())) :: (unit, 'a rpc_world_scheme) st)"
      by (auto simp: keeps_def st_bind_def)
  qed
qed

lemma steady_maintainPeer [intro]: "steady (maintainPeer E cid now)"
  unfolding maintainPeer_def
proof (intro steady_with_conn steady_bind steady_basic)
  fix c and x :: "route_sync_state option"
  show "steady (case x of None \<Rightarrow> st_return ()
       | Some st \<Rightarrow> if ry_inFlight st \<or> now - ry_lastCompletedAt st < ROUTE_MAINTENANCE_INTERVAL_MS then st_return ()
           else sendRouteUpdate E cid False)"
    by (cases x) auto
qed

lemma steady_fields [intro]:
  "steady (st_modify (\<lambda>s. s\<lparr>srv_resyncPending := f s\<rparr>))" "steady (st_modify (\<lambda>s. s\<lparr>srv_persistedRouteIds := g s\<rparr>))"
  "steady (st_modify (\<lambda>s. s\<lparr>srv_pendingPuts := h s\<rparr>))"
  by (simp_all add: steady_def unchanged_def keeps_def inv_view_def peers_exist_def)

lemma steady_persist [intro]: "steady (persistPeerRouteId E network)"
  unfolding persistPeerRouteId_def getPeerRouteId_def by (intro steady_bind steady_if steady_seq steady_basic steady_fields steady_net)

text \<open>Steady steps in a proof about an event that began in \<open>s0\<close>.\<close>

lemma triple_steady:
  assumes "steady m" "\<And>s s'. inv_view s' = inv_view s \<Longrightarrow> P s \<Longrightarrow> P s'"
  shows "triple (\<lambda>s. P s \<and> moves s0 s) m (\<lambda>_ s. P s \<and> moves s0 s) (\<lambda>s. P s \<and> moves s0 s)"
proof (rule tripleI)
  fix s r s'
  assume P: "P s \<and> moves s0 s" and run: "m s = (r, s')"
  have view: "inv_view s' = inv_view s" using assms(1) run unfolding steady_def by (blast dest: unchangedD)
  have "moves s s'"
    by (rule inv_view_moves [OF view]) (use assms(1) run in \<open>metis steady_def keeps_def snd_conv\<close>)
  then have "moves s0 s'" using P moves_trans by blast
  then show "case r of Inl _ \<Rightarrow> P s' \<and> moves s0 s' | Inr x \<Rightarrow> P s' \<and> moves s0 s'"
    using assms(2) [OF view] P by (cases r) auto
qed

section \<open>Admission\<close>

lemma entering_conn:
  assumes "admin s cid = Some f"
  obtains c where "jget (net_conns s) cid = Some c" "f = conn_admin c"
  using assms by (auto simp: admin_def)

lemma replace_old:
  assumes ent: "entering cid f s"
  defines "s1 \<equiv> s\<lparr>srv_rooms := snd (rooms_set (cf_networkName f) (cf_peerId f) cid (srv_rooms s))\<rparr>"
  shows "\<exists>s2. (case rooms_get (srv_rooms s) (cf_networkName f) (cf_peerId f) of
               None \<Rightarrow> st_return ()
             | Some old \<Rightarrow> if old \<noteq> cid then close E old 4000 ''replaced by an authenticated reconnect'' else st_return ()) s1
           = (Inr (), s2) \<and> registered cid f s2 \<and> moves s s2 \<and>
           (\<forall>old. rooms_get (srv_rooms s) (cf_networkName f) (cf_peerId f) = Some old \<longrightarrow> \<not> open_conn s2 old)"
proof -
  note r = rooms_set_inv [OF ent, folded s1_def]
  have f: "admin s1 cid = Some f" "pre_ready f" using ent r(3) by (auto simp: entering_def)
  show ?thesis
  proof (cases "rooms_get (srv_rooms s) (cf_networkName f) (cf_peerId f)")
    case None
    then show ?thesis using r f by (simp add: registered_def)
  next
    case (Some old)
    have ne: "old \<noteq> cid" using r(5) Some by simp
    have "admin s1 old \<noteq> None"
      using ent Some unfolding r(3) entering_def srv_inv_def rooms_ok_def by fastforce
    moreover have "valid_code 4000" by (simp add: valid_code_def)
    moreover have "srv_inv {cid} {old} s1" using r(1) Some by simp
    ultimately obtain s2 where s2: "close E old 4000 ''replaced by an authenticated reconnect'' s1 = (Inr (), s2)"
      "srv_inv {cid} {old} s2" "closes {old} s1 s2" "\<not> open_conn s2 old"
      using close_total by blast
    have inv: "srv_inv {cid} {} s2" using srv_inv_closed [OF s2(2,4)] ne by (simp add: insert_Diff_if)
    have adm: "admin s2 cid = Some f" using closes_admin [OF s2(3), of cid] f ne by (auto simp: pre_ready_def)
    have "open_conn s2 cid" using adm f by (simp add: open_conn_def pre_ready_def)
    then have "rooms_get (srv_rooms s2) (cf_networkName f) (cf_peerId f) = Some cid"
      using s2(3) r(4) unfolding closes_def by blast
    then have "registered cid f s2" using inv adm f by (simp add: registered_def)
    moreover have "moves s s2" using r(2) closes_moves [OF s2(3)] by (rule moves_trans)
    ultimately show ?thesis using Some s2 ne by simp
  qed
qed

lemma triple_pre: "(\<And>s. P s \<Longrightarrow> P' s) \<Longrightarrow> triple P' m Q R \<Longrightarrow> triple P m Q R"
  by (erule triple_weaken)

lemma registered_inv: "registered cid f s \<Longrightarrow> srv_inv {cid} {} s"
  by (simp add: registered_def)

lemma entering_inv: "entering cid f s \<Longrightarrow> srv_inv {cid} {} s"
  by (simp add: entering_def)

lemma register_triple:
  "triple (\<lambda>s. entering cid f s \<and> moves s0 s) (registerConnection E cid)
     (\<lambda>_ s. registered cid f s \<and> moves s0 s) (\<lambda>s. srv_inv {cid} {} s \<and> moves s0 s)"
proof (rule tripleI)
  fix s r s'
  assume pre: "entering cid f s \<and> moves s0 s" and run: "registerConnection E cid s = (r, s')"
  from pre have "admin s cid = Some f" by (simp add: entering_def)
  then obtain c where c: "jget (net_conns s) cid = Some c" "f = conn_admin c" by (rule entering_conn)
  obtain s2 where s2: "(case rooms_get (srv_rooms s) (cf_networkName f) (cf_peerId f) of
               None \<Rightarrow> st_return ()
             | Some old \<Rightarrow> if old \<noteq> cid then close E old 4000 ''replaced by an authenticated reconnect'' else st_return ())
      (s\<lparr>srv_rooms := snd (rooms_set (cf_networkName f) (cf_peerId f) cid (srv_rooms s))\<rparr>) = (Inr (), s2)"
    "registered cid f s2" "moves s s2"
    using replace_old [of cid f s E] pre by blast
  have rest: "st_seq (addPeer E cid) (persistPeerRouteId E (cn_networkName c)) s2 = (r, s')"
    using run s2(1) by (simp add: registerConnection_def with_conn_Some [OF c(1)] c(2) st_seq_def st_bind_def
        rooms.set_previous)
  have "triple (\<lambda>s. registered cid f s \<and> moves s0 s) (st_seq (addPeer E cid) (persistPeerRouteId E (cn_networkName c)))
      (\<lambda>_ s. registered cid f s \<and> moves s0 s) (\<lambda>s. registered cid f s \<and> moves s0 s)"
  proof (rule triple_steady)
    show "steady (st_seq (addPeer E cid) (persistPeerRouteId E (cn_networkName c)))" by auto
  qed (blast dest: inv_view_inv(3))
  from tripleD [OF this _ rest] pre s2 show "case r of Inl _ \<Rightarrow> srv_inv {cid} {} s' \<and> moves s0 s' | Inr _ \<Rightarrow> registered cid f s' \<and> moves s0 s'"
    by (cases r) (auto intro: moves_trans registered_inv)
qed

lemma filter_other: "distinct xs \<Longrightarrow> x \<in> set xs \<Longrightarrow> P x \<Longrightarrow>
    length (filter P xs) = Suc (length (filter (\<lambda>d. d \<noteq> x \<and> P d) xs))"
proof -
  have "filter (\<lambda>d. d \<noteq> x \<and> P d) xs = filter P (removeAll x xs)" by (induction xs) auto
  then show "distinct xs \<Longrightarrow> x \<in> set xs \<Longrightarrow> P x \<Longrightarrow>
    length (filter P xs) = Suc (length (filter (\<lambda>d. d \<noteq> x \<and> P d) xs))"
    using count_removeAll [of xs x P] by simp
qed

lemma complete_inv:
  assumes reg: "registered cid f s" and c: "jget (net_conns s) cid = Some c" and adm: "admitted (srv_config s) f"
  defines "s1 \<equiv> upd_conn cid completeHandshake s"
  defines "s' \<equiv> releaseHandshakeSlot (cn_clientIp c) s1"
  shows "srv_inv {} {} s'" "moves s s'"
proof -
  have inv: "srv_inv {cid} {} s" and af: "admin s cid = Some f" and pre: "pre_ready f"
    and room: "rooms_get (srv_rooms s) (cf_networkName f) (cf_peerId f) = Some cid"
    using reg by (auto simp: registered_def)
  have f: "f = conn_admin c" using af admin_Some [OF c] by simp
  define f' where "f' = f\<lparr>cf_phase := Ready, cf_timer := False\<rparr>"
  have a': "admin s' = (admin s)(cid := Some f')"
  proof -
    have "admin s' = admin s1" by (simp add: s'_def releaseHandshakeSlot_def Let_def)
    also have "\<dots> = (admin s)(cid := Some (conn_admin (completeHandshake c)))" unfolding s1_def by (rule admin_upd_conn [OF c])
    finally show ?thesis by (simp add: f'_def f completeHandshake_def conn_admin_def)
  qed
  have fld: "srv_connections s' = srv_connections s" "srv_rooms s' = srv_rooms s" "srv_config s' = srv_config s"
    "rpc_core s' = rpc_core s" "rpc_states s' = rpc_states s" "srv_maintenanceTimer s' = srv_maintenanceTimer s"
    "srv_identityReady s' = srv_identityReady s"
    by (simp_all add: s'_def s1_def releaseHandshakeSlot_def Let_def) (simp add: upd_conn_def split: option.splits)
  let ?cs = "srv_connections s"
  have mem: "cid \<in> set ?cs" "distinct ?cs"
    using inv af pre by (auto simp: srv_inv_def table_ok_def open_conn_def pre_ready_def)
  have o: "open_conn s' = open_conn s" using af pre by (auto simp: open_conn_def a' fun_eq_iff f'_def pre_ready_def)
  have u: "unready s' d \<longleftrightarrow> d \<noteq> cid \<and> unready s d" for d by (simp add: unready_def a' f'_def)
  have i: "from_ip s' = from_ip s" using af by (auto simp: from_ip_def a' fun_eq_iff f'_def)
  have ucid: "unready s cid" "from_ip s ip cid \<longleftrightarrow> cn_clientIp c = ip" for ip
    using af pre f by (simp_all add: unready_pre from_ip_def)
  have "table_ok s'" using inv unfolding srv_inv_def table_ok_def o fld by blast
  moreover have "slots_ok s'"
  proof -
    have sl: "slots_ok s" using inv by (simp add: srv_inv_def)
    have n: "length (filter (unready s) ?cs) = Suc (length (filter (unready s') ?cs))"
      using filter_other [OF mem(2,1), of "unready s"] ucid(1) unfolding u by simp
    have per: "length (filter (\<lambda>d. unready s d \<and> from_ip s ip d) ?cs) =
        length (filter (\<lambda>d. unready s' d \<and> from_ip s' ip d) ?cs) + (if cn_clientIp c = ip then 1 else 0)" for ip
    proof (cases "cn_clientIp c = ip")
      case True
      have "(\<lambda>d. unready s' d \<and> from_ip s' ip d) = (\<lambda>d. d \<noteq> cid \<and> unready s d \<and> from_ip s ip d)" unfolding u i by auto
      then show ?thesis using filter_other [OF mem(2,1), of "\<lambda>d. unready s d \<and> from_ip s ip d"] ucid True by simp
    next
      case False
      have "filter (\<lambda>d. unready s' d \<and> from_ip s' ip d) ?cs = filter (\<lambda>d. unready s d \<and> from_ip s ip d) ?cs"
        unfolding u i using ucid(2) [of ip] False by (intro filter_cong) auto
      then show ?thesis using False by simp
    qed
    have p1: "pending_of s1 = pending_of s" by (rule pending_of_byIp) (simp add: s1_def)
    have "pending_of s1 (cn_clientIp c) > 0"
      using per [of "cn_clientIp c"] sl unfolding slots_ok_def p1 by simp
    from pending_of_release [OF this, folded s'_def]
    have pend: "pending_of s' ip = (if ip = cn_clientIp c then pending_of s ip - 1 else pending_of s ip)" for ip
      unfolding p1 by simp
    have "srv_pendingHandshakes s' = srv_pendingHandshakes s - 1"
      by (simp add: s'_def s1_def releaseHandshakeSlot_def Let_def)
    moreover have "jget (srv_pendingByIp s') ip \<noteq> Some 0" for ip
      unfolding s'_def using sl by (intro release_no_zero) (simp add: s1_def slots_ok_def)
    ultimately show ?thesis
      using sl n per unfolding slots_ok_def fld by (auto simp: pend)
  qed
  moreover have "rooms_ok {} s'"
  proof -
    have "\<exists>g. admin s' d = Some g \<and> cf_networkName g = m \<and> cf_peerId g = p \<and> cf_phase g = Ready"
      if "rooms_get (srv_rooms s) m p = Some d" for m p d
    proof -
      obtain g where g: "admin s d = Some g" "cf_networkName g = m" "cf_peerId g = p" "cf_phase g = Ready \<or> d \<in> {cid} \<and> cf_phase g \<noteq> Closed"
        using inv \<open>rooms_get (srv_rooms s) m p = Some d\<close> unfolding srv_inv_def rooms_ok_def by blast
      then show ?thesis using af by (cases "d = cid") (auto simp: a' f'_def)
    qed
    then show ?thesis using inv unfolding srv_inv_def rooms_ok_def fld by blast
  qed
  moreover have "ready_ok {} s'"
    using inv room unfolding srv_inv_def ready_ok_def fld by (auto simp: a' f'_def)
  moreover have "facts_ok {} s'"
  proof -
    have "admitted (srv_config s) f'" using adm
      by (auto simp: admitted_def f'_def split: option.splits connection_mode.splits)
    moreover have "\<not> cf_freed f" using inv af pre unfolding srv_inv_def facts_ok_def pre_ready_def by blast
    ultimately show ?thesis
      using inv unfolding srv_inv_def facts_ok_def fld by (auto simp: a' f'_def conn_ok_def)
  qed
  ultimately show "srv_inv {} {} s'" using inv by (simp add: srv_inv_def fld)
  have "peers_exist s \<Longrightarrow> peers_exist s'"
    using c by (auto simp: peers_exist_def fld(5)) (auto simp: s'_def s1_def releaseHandshakeSlot_def Let_def upd_conn_def)
  moreover have "admin s d \<noteq> None \<Longrightarrow> admin s' d \<noteq> None" for d by (simp add: a')
  ultimately show "moves s s'" unfolding moves_def o i using u by (auto simp: fld)
qed

lemma announce_triple:
  "triple (\<lambda>s. srv_inv {} {} s \<and> moves s0 s) (announcePeer E network) (\<lambda>_ s. srv_inv {} {} s \<and> moves s0 s) (\<lambda>_. False)"
proof (rule tripleI)
  fix s r s'
  assume pre: "srv_inv {} {} s \<and> moves s0 s" and run: "announcePeer E network s = (r, s')"
  define s1 where "s1 = s\<lparr>srv_resyncPending := removeAll network (srv_resyncPending s)\<rparr>"
  have "inv_view s1 = inv_view s" by (simp add: s1_def inv_view_def)
  note view = this
  have 1: "srv_inv {} {} s1" "moves s s1"
    using pre inv_view_inv(1) [OF view] inv_view_moves [OF view] by (simp_all add: s1_def peers_exist_def)
  obtain s2 where "broadcastRouteUpdate E network None (network \<in> set (srv_resyncPending s)) s1 = (Inr (), s2)"
      "srv_inv {} {} s2" "closes {} s1 s2"
    using broadcast_route_total [OF 1(1)] by blast
  moreover from this have "s' = s2" "r = Inr ()" using run by (simp_all add: announcePeer_def st_bind_def st_seq_def s1_def)
  ultimately show "case r of Inl _ \<Rightarrow> False | Inr _ \<Rightarrow> srv_inv {} {} s' \<and> moves s0 s'"
    using pre 1(2) closes_moves moves_trans by auto
qed

lemma admit_triple:
  "triple (\<lambda>s. (entering cid f s \<and> admitted (srv_config s0) f) \<and> moves s0 s) (admit E cid)
     (\<lambda>_ s. srv_inv {} {} s \<and> moves s0 s) (\<lambda>s. srv_inv {cid} {} s \<and> moves s0 s)"
  unfolding admit_def
proof (rule triple_seq)
  show "triple (\<lambda>s. (entering cid f s \<and> admitted (srv_config s0) f) \<and> moves s0 s) (registerConnection E cid)
      (\<lambda>_ s. registered cid f s \<and> admitted (srv_config s0) f \<and> moves s0 s) (\<lambda>s. srv_inv {cid} {} s \<and> moves s0 s)"
    using register_triple [of cid f s0 E] unfolding triple_def by (auto split: prod.splits sum.splits)
  show "triple (\<lambda>s. registered cid f s \<and> admitted (srv_config s0) f \<and> moves s0 s)
     (st_seq (st_modify (upd_conn cid completeHandshake))
       (with_conn cid (\<lambda>c. st_seq (st_modify (releaseHandshakeSlot (cn_clientIp c))) (announcePeer E (cn_networkName c)))))
     (\<lambda>_ s. srv_inv {} {} s \<and> moves s0 s) (\<lambda>s. srv_inv {cid} {} s \<and> moves s0 s)"
  proof (rule tripleI)
    fix s r s'
    assume pre: "registered cid f s \<and> admitted (srv_config s0) f \<and> moves s0 s"
      and run: "st_seq (st_modify (upd_conn cid completeHandshake))
       (with_conn cid (\<lambda>c. st_seq (st_modify (releaseHandshakeSlot (cn_clientIp c))) (announcePeer E (cn_networkName c)))) s = (r, s')"
    from pre have "admin s cid = Some f" by (simp add: registered_def)
    then obtain c where c: "jget (net_conns s) cid = Some c" by (rule entering_conn)
    have "srv_config s = srv_config s0" using pre by (simp add: moves_def)
    with pre have 1: "srv_inv {} {} (releaseHandshakeSlot (cn_clientIp c) (upd_conn cid completeHandshake s))"
      "moves s (releaseHandshakeSlot (cn_clientIp c) (upd_conn cid completeHandshake s))"
      using complete_inv [OF _ c] by auto
    have c1: "jget (net_conns (upd_conn cid completeHandshake s)) cid = Some (completeHandshake c)"
      using c by (simp add: upd_conn_def)
    have "announcePeer E (cn_networkName c) (releaseHandshakeSlot (cn_clientIp c) (upd_conn cid completeHandshake s)) = (r, s')"
      using run by (simp add: st_seq_def st_bind_def with_conn_Some [OF c1] completeHandshake_def)
    from tripleD [OF announce_triple _ this] 1 pre moves_trans
    show "case r of Inl _ \<Rightarrow> srv_inv {cid} {} s' \<and> moves s0 s' | Inr _ \<Rightarrow> srv_inv {} {} s' \<and> moves s0 s'"
      by (cases r) auto
  qed
qed

end
