(* ===== verification/ServerEvents.thy ===== *)
theory ServerEvents
  imports ServerInv
begin

unbundle bit_operations_syntax

text \<open>
  The message listener keeps the invariant of the server: the handshakes as stages of one connection, the
  packets of admitted connections, and the listener itself, which always returns.
\<close>

section \<open>The handshake handlers\<close>

text \<open>A stage of a handshake that began in \<open>s0\<close>, described by the facts of its connection.\<close>

definition stage :: "conn_id \<Rightarrow> (conn_facts \<Rightarrow> bool) \<Rightarrow> server \<Rightarrow> server \<Rightarrow> bool" where
  "stage cid P s0 s \<longleftrightarrow> (\<exists>f. entering cid f s \<and> P f) \<and> moves s0 s"

abbreviation kept :: "conn_id set \<Rightarrow> server \<Rightarrow> server \<Rightarrow> bool" where
  "kept X s0 s \<equiv> srv_inv X {} s \<and> moves s0 s"

lemma stage_kept: "stage cid P s0 s \<Longrightarrow> kept {cid} s0 s"
  by (auto simp: stage_def entering_def)

lemma stage_weaken: "stage cid P s0 s \<Longrightarrow> (\<And>f. P f \<Longrightarrow> Q f) \<Longrightarrow> stage cid Q s0 s"
  by (auto simp: stage_def)

lemma stage_done: "stage cid P s0 s \<Longrightarrow> (\<And>f. P f \<Longrightarrow> conn_ok (srv_config s0) f) \<Longrightarrow> kept {} s0 s"
  by (auto simp: stage_def moves_def intro!: entering_done)

lemma stage_config: "stage cid P s0 s \<Longrightarrow> srv_config s = srv_config s0"
  by (simp add: stage_def moves_def)

lemma stage_steady: "steady m \<Longrightarrow> triple (stage cid P s0) m (\<lambda>_. stage cid P s0) (stage cid P s0)"
  unfolding stage_def
  by (rule triple_steady) (blast dest: inv_view_inv(2) [THEN iffD2])+

lemma stage_secure_result:
  assumes "\<And>f pf. P f \<Longrightarrow> P (f\<lparr>cf_peer := pf\<rparr>)"
  shows "triple (stage cid P s0) (on_secure cid g)
     (\<lambda>x. stage cid (\<lambda>f. P f \<and> (\<exists>p store p' store'. g p store = (Inr x, p', store') \<and> cf_peer f = peer_facts p')) s0)
     (stage cid P s0)"
proof (rule tripleI)
  fix s r s'
  assume pre: "stage cid P s0 s" and run: "on_secure cid g s = (r, s')"
  then obtain f where f: "entering cid f s" "P f" "moves s0 s" by (auto simp: stage_def)
  from f(1) have "admin s cid = Some f" by (simp add: entering_def)
  then obtain c where c: "jget (net_conns s) cid = Some c" "f = conn_admin c" by (rule entering_conn)
  have freed: "\<not> cn_freed c" "cn_handshakeTimer c" using entering_facts [OF f(1)] c(2) by simp_all
  obtain r' p store where g: "g (cn_secure c) (net_sessions s) = (r', p, store)" by (metis prod_cases3)
  let ?f = "f\<lparr>cf_peer := peer_facts p\<rparr>"
  have alt: "r' = r" "alters cid ?f s s'"
    using alters_on_secure [where f = g, OF c(1) freed(1) g] run c(2) by simp_all
  have "pre_ready ?f" using f(1) by (simp add: entering_def pre_ready_def)
  from entering_alters [OF f(1) alt(2) this] freed c(2)
  have now: "entering cid ?f s'" "P ?f" "moves s0 s'" using assms [OF f(2)] moves_trans [OF f(3)] by simp_all
  show "case r of Inl _ \<Rightarrow> stage cid P s0 s'
     | Inr x \<Rightarrow> stage cid (\<lambda>f. P f \<and> (\<exists>p store p' store'. g p store = (Inr x, p', store') \<and> cf_peer f = peer_facts p')) s0 s'"
  proof (cases r)
    case (Inl e)
    then show ?thesis using now unfolding stage_def by auto
  next
    case (Inr x)
    have "\<exists>q st p' st'. g q st = (Inr x, p', st') \<and> cf_peer ?f = peer_facts p'"
      using g alt(1) Inr by (intro exI [of _ "cn_secure c"] exI [of _ "net_sessions s"] exI [of _ p] exI [of _ store]) simp
    then have "stage cid (\<lambda>f. P f \<and> (\<exists>q st p' st'. g q st = (Inr x, p', st') \<and> cf_peer f = peer_facts p')) s0 s'"
      unfolding stage_def using now by blast
    then show ?thesis using Inr by simp
  qed
qed

lemma stage_secure:
  assumes "\<And>f pf. P f \<Longrightarrow> P (f\<lparr>cf_peer := pf\<rparr>)"
  shows "triple (stage cid P s0) (on_secure cid g) (\<lambda>_. stage cid P s0) (stage cid P s0)"
  by (rule triple_weaken [OF stage_secure_result [where P = P]]) (auto intro: assms elim: stage_weaken)

text \<open>An assignment to fields of the entering connection.\<close>

definition field_update :: "(connection \<Rightarrow> connection) \<Rightarrow> (conn_facts \<Rightarrow> bool) \<Rightarrow> (conn_facts \<Rightarrow> bool) \<Rightarrow> bool" where
  "field_update g P Q \<longleftrightarrow> (\<forall>c. P (conn_admin c) \<longrightarrow> pre_ready (conn_admin c) \<longrightarrow>
     Q (conn_admin (g c)) \<and> pre_ready (conn_admin (g c)) \<and> cn_clientIp (g c) = cn_clientIp c \<and>
     cn_freed (g c) = cn_freed c \<and> cn_handshakeTimer (g c) = cn_handshakeTimer c)"

lemma stage_update:
  assumes "field_update g P Q"
  shows "triple (stage cid P s0) (st_modify (upd_conn cid g)) (\<lambda>_. stage cid Q s0) R"
proof (rule tripleI)
  fix s r s'
  assume pre: "stage cid P s0 s" and run: "st_modify (upd_conn cid g) s = (r, s')"
  then obtain f where f: "entering cid f s" "P f" "moves s0 s" by (auto simp: stage_def)
  from f(1) have a: "admin s cid = Some f" "pre_ready f" by (simp_all add: entering_def)
  then obtain c where c: "jget (net_conns s) cid = Some c" "f = conn_admin c" by (elim entering_conn)
  have freed: "\<not> cn_freed c" "cn_handshakeTimer c" using entering_facts [OF f(1)] c(2) by simp_all
  note alt = alters_upd_conn [OF c(1), of g]
  have g: "Q (conn_admin (g c))" "pre_ready (conn_admin (g c))" "cn_clientIp (g c) = cn_clientIp c"
     "cn_freed (g c) = cn_freed c" "cn_handshakeTimer (g c) = cn_handshakeTimer c"
    using assms f(2) a(2) c(2) by (auto simp: field_update_def)
  have "entering cid (conn_admin (g c)) (upd_conn cid g s)" "moves s (upd_conn cid g s)"
    using entering_alters [OF f(1) alt g(2)] freed c(2) g(3-5) by simp_all
  then have "stage cid Q s0 (upd_conn cid g s)" using g(1) moves_trans [OF f(3)] by (auto simp: stage_def)
  then show "case r of Inl _ \<Rightarrow> R s' | Inr _ \<Rightarrow> stage cid Q s0 s'" using run by auto
qed

lemma close_self_triple:
  assumes "valid_code code"
  shows "triple (\<lambda>s. kept {cid} s0 s \<and> admin s cid \<noteq> None) (close E cid code reason) (\<lambda>_. kept {} s0) (\<lambda>_. False)"
proof (rule tripleI)
  fix s r s'
  assume pre: "kept {cid} s0 s \<and> admin s cid \<noteq> None" and run: "close E cid code reason s = (r, s')"
  then obtain s2 where "close E cid code reason s = (Inr (), s2)" "srv_inv {cid} {} s2" "closes {cid} s s2" "\<not> open_conn s2 cid"
    using close_total assms by blast
  then show "case r of Inl _ \<Rightarrow> False | Inr _ \<Rightarrow> kept {} s0 s'"
    using run pre srv_inv_closed [of "{cid}" "{}" s2 cid] closes_moves moves_trans by auto
qed

lemma stage_close:
  "valid_code code \<Longrightarrow> triple (stage cid P s0) (close E cid code reason) (\<lambda>_. kept {} s0) R"
  by (rule triple_weaken [OF close_self_triple]) (auto simp: stage_def entering_def)

lemma stage_bind_steady:
  assumes "steady m" "\<And>x. triple (stage cid P s0) (f x) Q (kept {cid} s0)"
  shows "triple (stage cid P s0) (st_bind m f) Q (kept {cid} s0)"
  by (rule triple_bind [OF triple_weaken [OF stage_steady [OF assms(1)]] assms(2)]) (auto dest: stage_kept)

lemma stage_bind_secure:
  assumes "\<And>f pf. P f \<Longrightarrow> P (f\<lparr>cf_peer := pf\<rparr>)" "\<And>x. triple (stage cid P s0) (f x) Q (kept {cid} s0)"
  shows "triple (stage cid P s0) (st_bind (on_secure cid g) f) Q (kept {cid} s0)"
  by (rule triple_bind [OF triple_weaken [OF stage_secure [where P = P]] assms(2)]) (auto dest: stage_kept intro: assms(1))

lemma stage_bind_lift:
  assumes "\<And>x. r = Inr x \<Longrightarrow> triple (stage cid P s0) (f x) Q (kept {cid} s0)"
  shows "triple (stage cid P s0) (st_bind (st_lift r) f) Q (kept {cid} s0)"
proof (cases r)
  case (Inl e)
  then show ?thesis by (auto simp: triple_def st_bind_def dest: stage_kept)
next
  case (Inr x)
  with assms show ?thesis by (auto simp: triple_def st_bind_def)
qed

lemma stage_seq_steady:
  "steady m \<Longrightarrow> triple (stage cid P s0) k Q (kept {cid} s0) \<Longrightarrow> triple (stage cid P s0) (st_seq m k) Q (kept {cid} s0)"
  unfolding st_seq_def by (rule stage_bind_steady)

lemma stage_seq_update:
  "field_update g P P' \<Longrightarrow> triple (stage cid P' s0) k Q (kept {cid} s0) \<Longrightarrow>
     triple (stage cid P s0) (st_seq (st_modify (upd_conn cid g)) k) Q (kept {cid} s0)"
  by (rule triple_seq [OF stage_update])

lemma stage_throw: "triple (stage cid P s0) (st_throw e) Q (kept {cid} s0)"
  by (auto simp: triple_def dest: stage_kept)

lemma stage_bind_config:
  "triple (stage cid P s0) (f (srv_config s0)) Q R \<Longrightarrow> triple (stage cid P s0) (st_bind (st_gets srv_config) f) Q R"
  by (auto simp: triple_def st_bind_def stage_config)

lemma stage_admit:
  assumes "\<And>f. P f \<Longrightarrow> admitted (srv_config s0) f"
  shows "triple (stage cid P s0) (admit E cid) (\<lambda>_. kept {} s0) (kept {cid} s0)"
proof (rule tripleI)
  fix s r s'
  assume pre: "stage cid P s0 s" and run: "admit E cid s = (r, s')"
  then obtain f where "entering cid f s" "P f" "moves s0 s" by (auto simp: stage_def)
  with tripleD [OF admit_triple _ run, of f s0] assms
  show "case r of Inl _ \<Rightarrow> kept {cid} s0 s' | Inr _ \<Rightarrow> kept {} s0 s'" by (cases r) auto
qed

definition at_msg1 :: "conn_facts \<Rightarrow> bool" where
  "at_msg1 f \<longleftrightarrow> cf_phase f = Msg1 \<and> cf_mode f = SecureMode"

lemma handshake1_triple:
  "triple (stage cid at_msg1 s0) (handleHandshakeMessage1 E cid frame ptype) (\<lambda>_. kept {} s0) (kept {cid} s0)"
  unfolding handleHandshakeMessage1_def
proof (intro stage_bind_config triple_if stage_throw stage_bind_secure stage_bind_steady stage_bind_lift triple_option)
  fix info n j secret
  assume mode: "cfg_connectionMode (srv_config s0) \<noteq> LegacyMode" and room: "jget (cfg_rooms (srv_config s0)) (hi_networkName info) = Some secret"
  let ?named = "\<lambda>f. at_msg1 f \<and> cf_networkName f = hi_networkName info"
  let ?msg3 = "\<lambda>f. cf_phase f = Msg3 \<and> cf_mode f = SecureMode \<and> cf_networkName f = hi_networkName info"
  have ok: "conn_ok (srv_config s0) f" if "?msg3 f" for f
    using that mode room by (cases "cfg_connectionMode (srv_config s0)") (auto simp: conn_ok_def jhas_Some)
  show "triple (stage cid at_msg1 s0)
     (st_seq (st_modify (upd_conn cid (\<lambda>c. c\<lparr>cn_peerId := hi_peerId info, cn_networkName := hi_networkName info\<rparr>)))
       (st_bind fresh_ctr (\<lambda>m. st_bind (on_secure cid (build_msg2 (we_crypto E) (we_codec E) (we_now E) (we_bytes E m 32) (we_uuid E m) secret))
         (\<lambda>msg2. st_seq (conn_send E cid msg2) (st_modify (upd_conn cid (\<lambda>c. c\<lparr>cn_phase := Msg3\<rparr>))))))) (\<lambda>_. kept {} s0) (kept {cid} s0)"
  proof (rule stage_seq_update [of _ _ ?named], goal_cases)
    case 1
    show ?case by (auto simp: field_update_def at_msg1_def pre_ready_def)
  next
    case 2
    have "triple (stage cid ?named s0) (st_modify (upd_conn cid (\<lambda>c. c\<lparr>cn_phase := Msg3\<rparr>))) (\<lambda>_. stage cid ?msg3 s0) (kept {cid} s0)"
      by (rule stage_update) (auto simp: field_update_def at_msg1_def pre_ready_def)
    then have "triple (stage cid ?named s0) (st_modify (upd_conn cid (\<lambda>c. c\<lparr>cn_phase := Msg3\<rparr>))) (\<lambda>_. kept {} s0) (kept {cid} s0)"
      by (rule triple_weaken) (assumption | erule stage_done, erule ok)+
    then show ?case
      by (intro stage_bind_secure stage_bind_steady stage_seq_steady steady_net) (auto simp: at_msg1_def)
  qed
qed (auto simp: at_msg1_def valid_code_def intro: stage_close)

lemma legacy_triple:
  "triple (stage cid at_msg1 s0) (handleLegacyHandshake E cid frame h) (\<lambda>_. kept {} s0) (kept {cid} s0)"
  unfolding handleLegacyHandshake_def
proof (intro stage_bind_config triple_if stage_throw stage_bind_lift triple_option)
  fix info secret ok
  assume mode: "cfg_connectionMode (srv_config s0) \<noteq> SecureMode"
    and room: "jget (cfg_rooms (srv_config s0)) (li_networkName info) = Some secret"
  let ?named = "\<lambda>f. cf_phase f = Msg1 \<and> cf_mode f = LegacyMode \<and> cf_networkName f = li_networkName info"
  show "triple (stage cid at_msg1 s0)
     (st_seq (st_modify (upd_conn cid (\<lambda>c. c\<lparr>cn_peerId := li_peerId info, cn_networkName := li_networkName info, cn_mode := LegacyMode\<rparr>)))
       (st_bind (st_lift (new_legacy_cipher secret)) (\<lambda>lc.
         st_seq (st_modify (upd_conn cid (\<lambda>c. c\<lparr>cn_legacyCipher := Some lc\<rparr>)))
          (st_bind (st_lift (build_legacy_handshake_response (we_codec E) SERVER_PEER_ID (li_networkName info) secret))
            (\<lambda>msg. st_seq (conn_send E cid msg) (admit E cid)))))) (\<lambda>_. kept {} s0) (kept {cid} s0)"
  proof (rule stage_seq_update [of _ _ ?named], goal_cases)
    case 1
    show ?case by (auto simp: field_update_def at_msg1_def pre_ready_def)
  next
    case 2
    show ?case
    proof (rule stage_bind_lift)
      fix lc assume lc: "new_legacy_cipher secret = Inr lc"
      let ?ready = "\<lambda>f. cf_phase f = Msg1 \<and> cf_mode f = LegacyMode \<and> cf_networkName f = li_networkName info \<and> cf_cipher f = Some lc"
      have adm: "admitted (srv_config s0) f" if "?ready f" for f
        using that mode room lc by (cases "cfg_connectionMode (srv_config s0)") (auto simp: admitted_def)
      show "triple (stage cid ?named s0)
         (st_seq (st_modify (upd_conn cid (\<lambda>c. c\<lparr>cn_legacyCipher := Some lc\<rparr>)))
          (st_bind (st_lift (build_legacy_handshake_response (we_codec E) SERVER_PEER_ID (li_networkName info) secret))
            (\<lambda>msg. st_seq (conn_send E cid msg) (admit E cid)))) (\<lambda>_. kept {} s0) (kept {cid} s0)"
      proof (rule stage_seq_update [of _ _ ?ready], goal_cases)
        case 1
        show ?case by (auto simp: field_update_def pre_ready_def)
      next
        case 2
        show ?case by (intro stage_bind_lift stage_seq_steady steady_net stage_admit adm)
      qed
    qed
  qed
qed (auto simp: valid_code_def intro: stage_close)

text \<open>What the core reports after message 3 is what its peer object now records.\<close>

lemma readString_Inr: "readString v name = Inr s \<Longrightarrow> v = Some (JStr s) \<and> s \<noteq> []"
  by (auto simp: readString_def split: option.splits json.splits if_splits)

lemma readPeerId_Inr: "readPeerId (Some (JNum (of_nat (unat pid)))) name = Inr pid' \<Longrightarrow> pid' = pid"
  by (cases "pid = 0") (use readPeerId_u32 [of pid name] in \<open>auto simp: readPeerId_def\<close>)

lemma check_msg3_facts: "peer_facts (p\<lparr>handshake := None\<rparr>) = peer_facts p"
  by (simp add: peer_facts_def)

lemma finish_msg3_auth:
  assumes "finish_msg3 C K now pkt p store = (Inr j, p', store')" "parseAuthenticationInfo (Some j) = Inr auth"
  shows "peer_facts p' = (True, Some (ai_peerId auth), Some (ai_networkName auth))"
proof -
  obtain peer remote where j: "j = JObj [(ustr ''peer_id'', JNum (of_nat (unat peer))),
        (ustr ''network_name'', JStr (case sp_network_name p of None \<Rightarrow> [] | Some n \<Rightarrow> n)),
        (ustr ''remote_public_key_base64'', JStr (b64_encode C remote)),
        (ustr ''auth_level'', JStr (ustr ''NetworkSecretConfirmed''))]"
    and peer: "sp_peer_id p = Some peer" and p': "p' = p\<lparr>handshake := None, authenticated := True\<rparr>"
    using assms(1) by (auto simp: finish_msg3_def Let_def split: sum.splits option.splits prod.splits if_splits)
  have fields: "field [(ustr ''peer_id'', a), (ustr ''network_name'', b), (ustr ''remote_public_key_base64'', c), (ustr ''auth_level'', d)] ''peer_id'' = Some a"
     "field [(ustr ''peer_id'', a), (ustr ''network_name'', b), (ustr ''remote_public_key_base64'', c), (ustr ''auth_level'', d)] ''network_name'' = Some b"
    for a b c d by (simp_all add: field_def ustr_def)
  obtain name where "readPeerId (Some (JNum (of_nat (unat peer)))) ''peer_id'' = Inr (ai_peerId auth)"
     "readString (Some (JStr (case sp_network_name p of None \<Rightarrow> [] | Some n \<Rightarrow> n))) name = Inr (ai_networkName auth)"
    using assms(2) unfolding j parseAuthenticationInfo_def parseObject_def
    by (auto simp: fields bind_res_def split: sum.splits if_splits)
  then have "ai_peerId auth = peer" "sp_network_name p = Some (ai_networkName auth)"
    using readPeerId_Inr [of peer] by (blast, auto dest!: readString_Inr split: option.splits)
  then show ?thesis by (simp add: p' peer peer_facts_def)
qed

definition at_msg3 :: "server_config \<Rightarrow> conn_facts \<Rightarrow> bool" where
  "at_msg3 cfg f \<longleftrightarrow> cf_phase f = Msg3 \<and> cf_mode f = SecureMode \<and> cfg_connectionMode cfg = SecureMode \<and>
     jhas (cfg_rooms cfg) (cf_networkName f)"

lemma stage_with_conn:
  assumes "\<And>c. P (conn_admin c) \<Longrightarrow> triple (stage cid (\<lambda>f. P f \<and> f = conn_admin c) s0) (k c) Q R"
  shows "triple (stage cid P s0) (with_conn cid k) Q R"
proof (rule tripleI)
  fix s r s'
  assume pre: "stage cid P s0 s" and run: "with_conn cid k s = (r, s')"
  then obtain f where f: "entering cid f s" "P f" "moves s0 s" by (auto simp: stage_def)
  from f(1) have "admin s cid = Some f" by (simp add: entering_def)
  then obtain c where c: "jget (net_conns s) cid = Some c" "f = conn_admin c" by (rule entering_conn)
  have "stage cid (\<lambda>f. P f \<and> f = conn_admin c) s0 s" using f c(2) by (auto simp: stage_def)
  moreover have "k c s = (r, s')" using run by (simp add: with_conn_Some [OF c(1)])
  ultimately show "case r of Inl _ \<Rightarrow> R s' | Inr x \<Rightarrow> Q x s'"
    using tripleD [OF assms] f(2) c(2) by blast
qed

lemma field_update_same:
  assumes "\<And>c. conn_admin (g c) = conn_admin c"
  shows "field_update g P P"
proof -
  have "cn_clientIp (g c) = cn_clientIp c \<and> cn_freed (g c) = cn_freed c \<and> cn_handshakeTimer (g c) = cn_handshakeTimer c" for c
    using arg_cong [OF assms [of c], of cf_clientIp] arg_cong [OF assms [of c], of cf_freed]
      arg_cong [OF assms [of c], of cf_timer] by simp
  then show ?thesis by (simp add: field_update_def assms)
qed

lemma handshake3_triple:
  "triple (stage cid (at_msg3 (srv_config s0)) s0) (handleHandshakeMessage3 E cid frame ptype)
     (\<lambda>_. kept {} s0) (kept {cid} s0)"
  unfolding handleHandshakeMessage3_def
proof (intro triple_if stage_throw)
  let ?P = "at_msg3 (srv_config s0)" and ?g = "finish_msg3 (we_crypto E) (we_codec E) (we_now E) frame"
  let ?Q = "\<lambda>x f. ?P f \<and> (\<exists>p store p' store'. ?g p store = (Inr x, p', store') \<and> cf_peer f = peer_facts p')"
  show "triple (stage cid ?P s0) (st_bind (on_secure cid ?g) (\<lambda>j.
        st_bind (st_lift (parseAuthenticationInfo (Some j))) (\<lambda>auth.
        with_conn cid (\<lambda>c.
        if ai_peerId auth \<noteq> cn_peerId c \<or> ai_networkName auth \<noteq> cn_networkName c
        then st_throw (JsError ''secure handshake identity mismatch'' [])
        else st_seq (st_modify (upd_conn cid (\<lambda>c. c\<lparr>cn_remotePublicKey := ai_remotePublicKey auth\<rparr>)))
                    (admit E cid))))) (\<lambda>_. kept {} s0) (kept {cid} s0)"
  proof (rule triple_bind)
    show "triple (stage cid ?P s0) (on_secure cid ?g) (\<lambda>x. stage cid (?Q x) s0) (kept {cid} s0)"
      by (rule triple_weaken [OF stage_secure_result]) (auto simp: at_msg3_def dest: stage_kept)
    fix j
    show "triple (stage cid (?Q j) s0) (st_bind (st_lift (parseAuthenticationInfo (Some j))) (\<lambda>auth.
        with_conn cid (\<lambda>c.
        if ai_peerId auth \<noteq> cn_peerId c \<or> ai_networkName auth \<noteq> cn_networkName c
        then st_throw (JsError ''secure handshake identity mismatch'' [])
        else st_seq (st_modify (upd_conn cid (\<lambda>c. c\<lparr>cn_remotePublicKey := ai_remotePublicKey auth\<rparr>)))
                    (admit E cid)))) (\<lambda>_. kept {} s0) (kept {cid} s0)"
    proof (intro stage_bind_lift stage_with_conn triple_if stage_throw, goal_cases)
      case (1 auth c)
      have adm: "admitted (srv_config s0) f" if "f = conn_admin c" for f
        using that 1 by (auto simp: admitted_def at_msg3_def jhas_def finish_msg3_auth split: option.splits)
      show ?case
        by (rule stage_seq_update [OF field_update_same], simp add: conn_admin_def) (blast intro: stage_admit adm)
    qed
  qed
qed

section \<open>Packets of an admitted connection\<close>

lemma kept_steady: "steady m \<Longrightarrow> triple (kept X s0) m (\<lambda>_. kept X s0) (kept X s0)"
  by (rule triple_steady) (blast dest: inv_view_inv(1) [THEN iffD2])+

lemma kept_bind_steady:
  assumes "steady m" "\<And>x. triple (kept {} s0) (f x) Q (kept {} s0)"
  shows "triple (kept {} s0) (st_bind m f) Q (kept {} s0)"
  by (rule triple_bind [OF kept_steady [OF assms(1)] assms(2)])

lemma kept_close:
  assumes "valid_code code" "admin s0 cid \<noteq> None"
  shows "triple (kept {} s0) (close E cid code reason) (\<lambda>_. kept {} s0) R"
proof (rule triple_weaken [OF close_self_triple [OF assms(1), of cid s0]])
  fix s assume "kept {} s0 s"
  then show "kept {cid} s0 s \<and> admin s cid \<noteq> None"
    using assms(2) srv_inv_mono [of "{}" "{}" s "{cid}" "{}"] by (auto simp: moves_def)
qed simp_all

lemma kept_broadcast: "triple (kept {} s0) (broadcastRouteUpdate E network ex ff) (\<lambda>_. kept {} s0) R"
proof (rule tripleI)
  fix s r s'
  assume pre: "kept {} s0 s" and run: "broadcastRouteUpdate E network ex ff s = (r, s')"
  then obtain s2 where "broadcastRouteUpdate E network ex ff s = (Inr (), s2)" "srv_inv {} {} s2" "closes {} s s2"
    using broadcast_route_total by blast
  then show "case r of Inl _ \<Rightarrow> R s' | Inr _ \<Rightarrow> kept {} s0 s'"
    using run pre closes_moves moves_trans by auto
qed

lemma steady_resolve [intro]: "steady (resolveRecipient network to)"
proof -
  have "steady (case d of
       Some cid \<Rightarrow> st_gets (\<lambda>s. if is_ready s cid then Some cid else None)
     | None \<Rightarrow> st_bind (getNextHop network to) (\<lambda>gatewayId.
         if gatewayId = 0 \<or> gatewayId = to then st_return None
         else st_gets (\<lambda>s. case findPeer s network gatewayId of
                              None \<Rightarrow> None | Some g \<Rightarrow> if is_ready s g then Some g else None)))" for d
    by (cases d) (auto simp: getNextHop_def)
  then show ?thesis unfolding resolveRecipient_def by (intro steady_bind steady_basic)
qed

lemma is_ready_admin: "is_ready s cid \<longleftrightarrow> (\<exists>f. admin s cid = Some f \<and> cf_phase f = Ready)"
  by (auto simp: is_ready_def admin_def split: option.splits)

lemma resolve_ready:
  assumes "resolveRecipient network to s = (Inr (Some t), s')"
  shows "is_ready s' t"
  using assms
  by (auto simp: resolveRecipient_def st_bind_def split: option.splits if_splits prod.splits sum.splits)

lemma triple_with_conn:
  "(\<And>s. P s \<Longrightarrow> R s) \<Longrightarrow> (\<And>c. triple P (k c) Q R) \<Longrightarrow> triple P (with_conn cid k) Q R"
  by (auto simp: triple_def with_conn_def split: option.splits)

lemma relay_triple: "triple (kept {} s0) (relay E cid frame h) (\<lambda>_. kept {} s0) (kept {} s0)"
proof -
  let ?fwd = "\<lambda>t. st_bind (st_lift (incrementForwardCounter frame)) (\<lambda>forwarded.
           st_catch (conn_send E t forwarded) (\<lambda>_. close E t 1013 ''outbound relay capacity exceeded''))"
  have fwd: "triple (\<lambda>s. kept {} s0 s \<and> is_ready s t) (?fwd t) (\<lambda>_. kept {} s0) (kept {} s0)" for t
  proof (rule tripleI)
    fix s r s'
    assume pre: "kept {} s0 s \<and> is_ready s t" and run: "?fwd t s = (r, s')"
    then have ex: "admin s t \<noteq> None" by (auto simp: is_ready_admin)
    have "triple (kept {} s) (?fwd t) (\<lambda>_. kept {} s) (kept {} s)"
      by (intro kept_bind_steady steady_basic triple_catch [OF kept_steady] steady_net kept_close ex) (simp add: valid_code_def)
    from tripleD [OF this _ run] pre moves_trans [of s0 s]
    show "case r of Inl _ \<Rightarrow> kept {} s0 s' | Inr _ \<Rightarrow> kept {} s0 s'" by (cases r) auto
  qed
  have target: "triple (kept {} s0) (st_bind (resolveRecipient network to)
      (\<lambda>target. case target of None \<Rightarrow> st_return () | Some t \<Rightarrow> ?fwd t)) (\<lambda>_. kept {} s0) (kept {} s0)" for network to
  proof (rule triple_bind)
    show "triple (kept {} s0) (resolveRecipient network to)
       (\<lambda>r s. kept {} s0 s \<and> (\<forall>t. r = Some t \<longrightarrow> is_ready s t)) (kept {} s0)"
    proof (rule tripleI)
      fix s r s'
      assume pre: "kept {} s0 s" and run: "resolveRecipient network to s = (r, s')"
      from tripleD [OF kept_steady [OF steady_resolve] pre run] resolve_ready [of network to s] run
      show "case r of Inl _ \<Rightarrow> kept {} s0 s' | Inr x \<Rightarrow> kept {} s0 s' \<and> (\<forall>t. x = Some t \<longrightarrow> is_ready s' t)"
        by (cases r) auto
    qed
    fix r
    show "triple (\<lambda>s. kept {} s0 s \<and> (\<forall>t. r = Some t \<longrightarrow> is_ready s t))
      (case r of None \<Rightarrow> st_return () | Some t \<Rightarrow> ?fwd t) (\<lambda>_. kept {} s0) (kept {} s0)"
      by (cases r) (use fwd in \<open>auto simp: triple_def\<close>)
  qed
  show ?thesis
    unfolding relay_def
    by (intro kept_bind_steady steady_basic steady_if triple_if triple_with_conn target kept_steady)
qed

lemma steady_on_secure:
  assumes "\<And>p store. peer_facts (fst (snd (f p store))) = peer_facts p"
  shows "steady (on_secure cid f)"
  by (intro steady_calm keeps_peers_calm calm_net quiet_on_secure local_net_on_secure local_net_rpc_view assms)

lemma steady_clear_rpc [intro]: "steady (clear_rpc E cid frame pkt)"
proof -
  let ?reparse = "\<lambda>clear. if clear = [] then st_return None else st_bind (st_lift (parsePacket clear)) (\<lambda>p. st_return (Some p))"
  have "steady (on_secure cid (decrypt_packet (we_crypto E) (we_now E) frame))"
    by (rule steady_on_secure) (rule peer_facts_decrypt)
  moreover have "steady (case lc of
                None \<Rightarrow> st_throw (JsError ''legacy connection is missing its network-secret cipher'' [])
              | Some lc \<Rightarrow>
                  if flags (header pkt) AND ENCRYPTED_FLAG \<noteq> 0
                  then st_bind (st_lift (legacy_decrypt_packet (we_crypto E) lc frame)) ?reparse
                  else st_return (Some pkt))" for lc
    by (cases lc) auto
  ultimately show ?thesis
    unfolding clear_rpc_def Let_def by (intro steady_with_conn steady_if steady_bind steady_basic)
qed

lemma ready_triple: "triple (kept {} s0) (handleReadyPacket E cid frame pkt) (\<lambda>_. kept {} s0) (kept {} s0)"
proof -
  have rpc: "triple (kept {} s0) (case p of
               None \<Rightarrow> st_return ()
             | Some p \<Rightarrow>
                 if req then st_bind (handleRequest E cid (payload p)) (\<lambda>result.
                        if result = OutRoute then broadcastRouteUpdate E n ex False else st_return ())
                 else handleResponse E cid (payload p)) (\<lambda>_. kept {} s0) (kept {} s0)" for p req n ex
    by (intro triple_option triple_if kept_bind_steady [OF steady_handleRequest] kept_broadcast
        kept_steady [OF steady_basic(1)] kept_steady [OF steady_handleResponse])
  have step: "triple (kept {} s0) (st_bind (clear_rpc E cid frame pkt) k) (\<lambda>_. kept {} s0) (kept {} s0)"
    if "\<And>p. triple (kept {} s0) (k p) (\<lambda>_. kept {} s0) (kept {} s0)" for k :: "packet option \<Rightarrow> (unit, server) st"
    by (rule kept_bind_steady [OF steady_clear_rpc that])
  have pong: "steady (st_bind (st_lift (createPong frame)) (conn_send E cid) :: (unit, server) st)" by auto
  show ?thesis
    unfolding handleReadyPacket_def Let_def
    by (rule triple_if, rule relay_triple, rule triple_with_conn, assumption)
       (intro triple_if step rpc kept_steady pong steady_basic)
qed

section \<open>Messages\<close>

lemma triple_total:
  assumes "triple P m (\<lambda>_. Q) (\<lambda>_. False)" "P s"
  shows "\<exists>s'. m s = (Inr (), s') \<and> Q s'"
  using tripleD [OF assms, of "fst (m s)" "snd (m s)"] by (cases "m s") (auto split: sum.splits)

lemma kept_stage:
  assumes "kept {} s0 s" "admin s cid = Some f" "pre_ready f" "P f"
  shows "stage cid P s0 s"
  using assms entering_start [of s cid f] by (auto simp: stage_def)

lemma kept_conn_ok:
  assumes "kept {} s0 s" "admin s cid = Some f" "cf_phase f \<noteq> Closed"
  shows "conn_ok (srv_config s0) f"
proof -
  have "conn_ok (srv_config s) f" using assms unfolding srv_inv_def facts_ok_def by blast
  then show ?thesis using assms(1) by (simp add: moves_def)
qed

definition route_message :: "world_env \<Rightarrow> conn_id \<Rightarrow> bytes \<Rightarrow> packet \<Rightarrow> connection \<Rightarrow> (unit, server) st" where
  "route_message E cid frame pkt c =
     (case cn_phase c of
         Msg1 \<Rightarrow> if packetType (header pkt) = pt_code Handshake then handleLegacyHandshake E cid frame (header pkt)
                 else handleHandshakeMessage1 E cid frame (packetType (header pkt))
       | Msg3 \<Rightarrow> handleHandshakeMessage3 E cid frame (packetType (header pkt))
       | Ready \<Rightarrow> handleReadyPacket E cid frame pkt
       | Closed \<Rightarrow> st_return ())"

lemma kept_mono: "kept {} s0 s \<Longrightarrow> kept {cid} s0 s"
  using srv_inv_mono [of "{}" "{}" s "{cid}" "{}"] by simp

lemma route_message_kept:
  assumes pre: "kept {} s0 s" and c: "jget (net_conns s) cid = Some c" and run: "route_message E cid frame pkt c s = (r, s')"
  shows "case r of Inl _ \<Rightarrow> kept {cid} s0 s' | Inr _ \<Rightarrow> kept {} s0 s'"
proof -
  note a = admin_Some [OF c]
  have ok: "cn_phase c \<noteq> Closed \<Longrightarrow> conn_ok (srv_config s0) (conn_admin c)" using kept_conn_ok [OF pre a] by simp
  show ?thesis
  proof (cases "cn_phase c")
    case Msg1
    then have "stage cid at_msg1 s0 s"
      using ok by (intro kept_stage [OF pre a]) (simp_all add: pre_ready_def at_msg1_def conn_ok_def)
    then show ?thesis
      using run Msg1 tripleD [OF legacy_triple] tripleD [OF handshake1_triple]
      by (simp add: route_message_def split: if_splits) 
  next
    case Msg3
    then have "stage cid (at_msg3 (srv_config s0)) s0 s"
      using ok by (intro kept_stage [OF pre a]) (simp_all add: pre_ready_def at_msg3_def conn_ok_def)
    then show ?thesis using run Msg3 tripleD [OF handshake3_triple] by (simp add: route_message_def)
  next
    case Ready
    then have "handleReadyPacket E cid frame pkt s = (r, s')" using run by (simp add: route_message_def)
    from tripleD [OF ready_triple pre this] kept_mono show ?thesis by (cases r) auto
  next
    case Closed
    then show ?thesis using run pre by (auto simp: route_message_def)
  qed
qed

lemma message_triple:
  assumes "admin s0 cid \<noteq> None"
  shows "triple (kept {} s0) (handleMessage E cid d) (\<lambda>_. kept {} s0) (kept {cid} s0)"
proof (rule tripleI)
  fix s r s'
  assume pre: "kept {} s0 s" and run: "handleMessage E cid d s = (r, s')"
  from pre assms have "admin s cid \<noteq> None" by (simp add: moves_def)
  then obtain c where c: "jget (net_conns s) cid = Some c" by (auto simp: admin_def)
  consider (fails) e where "r = Inl e" "s' = s" | (goes) frame pkt where "route_message E cid frame pkt c s = (r, s')"
    using run by (auto simp: handleMessage_def st_bind_def route_message_def with_conn_Some [OF c] split: sum.splits if_splits)
  then show "case r of Inl _ \<Rightarrow> kept {cid} s0 s' | Inr _ \<Rightarrow> kept {} s0 s'"
    by cases (use pre kept_mono route_message_kept [OF pre c] in auto)
qed

lemma on_message_total:
  assumes "srv_inv {} {} s" "admin s cid \<noteq> None"
  shows "\<exists>s'. on_message E cid d s = (Inr (), s') \<and> srv_inv {} {} s' \<and> moves s s'"
proof -
  have "triple (kept {} s) (on_message E cid d) (\<lambda>_. kept {} s) (\<lambda>_. False)"
    unfolding on_message_def failConnection_def
  proof (rule triple_catch [OF message_triple [OF assms(2)]], rule triple_weaken [OF close_self_triple [of _ cid s]])
    fix s' assume "kept {cid} s s'"
    then show "kept {cid} s s' \<and> admin s' cid \<noteq> None" using assms(2) by (simp add: moves_def)
  qed (simp_all add: valid_code_def)
  from triple_total [OF this] assms(1) show ?thesis by simp
qed

end
