(* ===== verification/ServerRun.thy ===== *)
theory ServerRun
  imports ServerEvents
begin

unbundle bit_operations_syntax

text \<open>
  The server as a transition system: maintenance, initialisation and admission of sockets keep the
  invariant, the events of the runtime are the steps, and every event of a reachable server returns.
\<close>

section \<open>Maintenance\<close>

lemma for_each_triple:
  "(\<And>x. x \<in> set xs \<Longrightarrow> triple P (f x) (\<lambda>_. P) R) \<Longrightarrow> triple P (for_each f xs) (\<lambda>_. P) R"
proof (induction xs)
  case Nil
  show ?case by (simp add: triple_def)
next
  case (Cons x xs)
  then show ?case unfolding for_each.simps by (intro triple_seq) auto
qed

lemma kept_close_now:
  assumes "valid_code code"
  shows "triple (\<lambda>s. kept {} s0 s \<and> admin s cid \<noteq> None) (close E cid code reason) (\<lambda>_. kept {} s0) R"
  by (rule triple_weaken [OF close_self_triple [OF assms, of cid s0]]) (auto simp: kept_mono)

lemma findPeer_exists: "srv_inv X Y s \<Longrightarrow> findPeer s network pid = Some cid \<Longrightarrow> admin s cid \<noteq> None"
  unfolding srv_inv_def rooms_ok_def findPeer_def by fastforce

lemma close_failed_triple: "triple (kept {} s0) (close_failed E f) (\<lambda>_. kept {} s0) R"
proof (rule tripleI)
  fix s r s'
  assume pre: "kept {} s0 s" and run: "close_failed E f s = (r, s')"
  let ?found = "case number_peer_id (rf_peerId f) of None \<Rightarrow> None | Some pid \<Rightarrow> findPeer s (rf_networkName f) pid"
  show "case r of Inl _ \<Rightarrow> R s' | Inr _ \<Rightarrow> kept {} s0 s'"
  proof (cases ?found)
    case None
    then show ?thesis using pre run by (auto simp: close_failed_def st_bind_def)
  next
    case (Some cid)
    have ex: "admin s cid \<noteq> None" using Some findPeer_exists pre by (auto split: option.splits)
    have "close E cid 1011 ''route synchronization retry failed'' s = (r, s')"
      using run Some by (simp add: close_failed_def st_bind_def)
    moreover have "valid_code 1011" by (simp add: valid_code_def)
    ultimately show ?thesis using tripleD [OF kept_close_now [of _ s0 cid _ _ R]] pre ex by blast
  qed
qed

lemma maintain_triple:
  assumes "admin s0 cid \<noteq> None"
  shows "triple (kept {} s0) (maintain E now cid) (\<lambda>_. kept {} s0) (\<lambda>_. False)"
proof (rule tripleI)
  fix s r s'
  assume pre: "kept {} s0 s" and run: "maintain E now cid s = (r, s')"
  from pre assms have "admin s cid \<noteq> None" by (simp add: moves_def)
  then obtain c where c: "jget (net_conns s) cid = Some c" by (auto simp: admin_def)
  let ?k = "st_catch (maintainPeer E cid now) (\<lambda>_. close E cid 1011 ''route synchronization maintenance failed'')"
  have k: "triple (kept {} s0) ?k (\<lambda>_. kept {} s0) (\<lambda>_. False)"
    by (rule triple_catch [OF kept_steady]) (auto intro!: kept_close assms simp: valid_code_def)
  show "case r of Inl _ \<Rightarrow> False | Inr _ \<Rightarrow> kept {} s0 s'"
  proof (cases "cn_phase c = Ready")
    case True
    then have "?k s = (r, s')" using run by (simp add: maintain_def with_conn_Some [OF c])
    with tripleD [OF k pre] show ?thesis by blast
  next
    case False
    then show ?thesis using run pre by (auto simp: maintain_def with_conn_Some [OF c])
  qed
qed

lemma cleanExpired_kept:
  assumes "rpc_core s \<noteq> None" "peers_exist s"
  shows "\<exists>out s'. cleanExpired E now s = (Inr out, s') \<and> inv_view s' = inv_view s \<and> peers_exist s'"
proof -
  obtain out s' where run: "cleanExpired E now s = (Inr out, s')" "peers_exist s'"
    using assms cleanExpired_settles by blast
  then show ?thesis using inv_view_server_view unchangedD [OF cleanExpired_calm run(1)] by blast
qed

lemma maintenance_total:
  assumes "srv_inv {} {} s" "rpc_core s \<noteq> None" "peers_exist s"
  shows "\<exists>s1. maintenance E s = (Inr (), scheduleMaintenance s1) \<and> srv_inv {} {} s1 \<and> moves (s\<lparr>srv_maintenanceTimer := False\<rparr>) s1"
proof -
  define s0 where "s0 = s\<lparr>srv_maintenanceTimer := False\<rparr>"
  have inv0: "srv_inv {} {} s0" using srv_inv_cong [of s0 s] assms(1) by (simp add: s0_def)
  obtain nets fails s1 where 1: "cleanExpired E (we_now E) s0 = (Inr (nets, fails), s1)" "inv_view s1 = inv_view s0" "peers_exist s1"
  proof -
    have "rpc_core s0 \<noteq> None" "peers_exist s0" using assms by (simp_all add: s0_def peers_exist_def)
    from cleanExpired_kept [OF this, of E "we_now E"] that show ?thesis by auto
  qed
  have k1: "kept {} s0 s1" using inv_view_inv(1) [OF 1(2)] inv0 inv_view_moves [OF 1(2)] 1(3) by simp
  have "triple (kept {} s0) (st_seq (for_each (close_failed E) fails)
      (for_each (\<lambda>networkName. broadcastRouteUpdate E networkName None False) nets)) (\<lambda>_. kept {} s0) (\<lambda>_. False)"
    by (intro triple_seq [where M = "kept {} s0"] for_each_triple close_failed_triple kept_broadcast)
  from triple_total [OF this k1] obtain s2 where 2: "st_seq (for_each (close_failed E) fails)
      (for_each (\<lambda>networkName. broadcastRouteUpdate E networkName None False) nets) s1 = (Inr (), s2)" "kept {} s0 s2"
    by blast
  have ex: "\<forall>cid \<in> set (srv_connections s2). admin s2 cid \<noteq> None"
    using 2(2) by (auto simp: srv_inv_def table_ok_def open_conn_def split: option.splits)
  have "triple (kept {} s2) (for_each (maintain E (we_now E)) (srv_connections s2)) (\<lambda>_. kept {} s2) (\<lambda>_. False)"
    by (intro for_each_triple maintain_triple) (use ex in blast)
  from triple_total [OF this, of s2] 2(2) obtain s3 where 3:
    "for_each (maintain E (we_now E)) (srv_connections s2) s2 = (Inr (), s3)" "kept {} s2 s3" using moves_refl by blast
  obtain s2' where "for_each (close_failed E) fails s1 = (Inr (), s2')"
     "for_each (\<lambda>networkName. broadcastRouteUpdate E networkName None False) nets s2' = (Inr (), s2)"
    using 2(1) by (auto simp: st_seq_def st_bind_def split: prod.splits sum.splits)
  then have "maintenance E s = (Inr (), scheduleMaintenance s3)"
    using 1(1) 3(1) by (simp add: maintenance_def st_seq_def st_bind_def s0_def)
  then show ?thesis using 2(2) 3(2) moves_trans s0_def by blast
qed

section \<open>Initialisation and admission of sockets\<close>

text \<open>What the initialisation leaves alone.\<close>

definition idle_view :: "server \<Rightarrow> (conn_id \<Rightarrow> conn_facts option) \<times> server_config \<times> conn_id list \<times> conn_id room_registry
    \<times> nat \<times> (ustring, nat) jmap \<times> bool \<times> bool" where
  "idle_view s = (admin s, srv_config s, srv_connections s, srv_rooms s, srv_pendingHandshakes s,
     srv_pendingByIp s, srv_maintenanceTimer s, srv_identityReady s)"

lemma idle_view_simps [simp]:
  "idle_view (s\<lparr>rpc_core := a\<rparr>) = idle_view s" "idle_view (s\<lparr>rpc_states := b\<rparr>) = idle_view s"
  "idle_view (s\<lparr>rpc_serverPeerId := c\<rparr>) = idle_view s" "idle_view (s\<lparr>net_ctr := d\<rparr>) = idle_view s"
  "idle_view (s\<lparr>srv_storage := e\<rparr>) = idle_view s" "idle_view (s\<lparr>srv_persistedRouteIds := f\<rparr>) = idle_view s"
  "idle_view (s\<lparr>srv_resyncPending := g\<rparr>) = idle_view s" "idle_view (s\<lparr>srv_localPrivateKey := h\<rparr>) = idle_view s"
  "idle_view (s\<lparr>srv_localPublicKey := i\<rparr>) = idle_view s"
  by (simp_all add: idle_view_def admin_def fun_eq_iff)

definition idle where
  "idle v s \<longleftrightarrow> idle_view s = v \<and> peers_exist s"

lemma keeps_case_json [intro]: "keeps I m \<Longrightarrow> (\<And>x. keeps I (f x)) \<Longrightarrow> keeps I (case j of JStr x \<Rightarrow> f x | _ \<Rightarrow> m)"
  by (cases j) simp_all

lemma idle_basic [intro]:
  "keeps (idle v) fresh_ctr" "keeps (idle v) (on_core f)"
  "keeps (idle v) (st_modify (\<lambda>s. s\<lparr>srv_storage := a s\<rparr>))"
  "keeps (idle v) (st_modify (\<lambda>s. s\<lparr>srv_localPrivateKey := b s, srv_localPublicKey := c s\<rparr>))"
  "keeps (idle v) (st_modify (\<lambda>s. s\<lparr>rpc_core := d s, rpc_states := [], rpc_serverPeerId := e s\<rparr>))"
  "keeps (idle v) (st_modify (\<lambda>s. s\<lparr>srv_persistedRouteIds := g s, srv_resyncPending := h s\<rparr>))"
  by (simp_all add: keeps_def idle_def fresh_ctr_def peers_exist_def on_core_def split_beta split: option.split)

lemma resolve_keypair_idle [intro]: "keeps (idle v) (resolve_keypair E S)"
  unfolding resolve_keypair_def
  by (intro keeps_bind keeps_basic keeps_if keeps_seq keeps_case_option keeps_case_prod idle_basic)

lemma restore_entry_idle: "keeps (idle v) (restore_entry e)"
  unfolding restore_entry_def prod.case setPeerRouteId_def
  by (intro keeps_case_option keeps_case_json keeps_basic keeps_if keeps_catch keeps_seq idle_basic)

lemma restore_entries_idle: "keeps (idle v) (restore_entries es)"
proof (induction es)
  case (Cons e es)
  then show ?case unfolding restore_entries.simps by (intro keeps_seq restore_entry_idle)
qed (simp add: keeps_def)

lemma initIdentity_idle: "keeps (idle v) (initIdentity E S)"
  unfolding initIdentity_def newEasyTierRpc_def restoreRouteIds_def
  by (intro keeps_bind keeps_basic keeps_if keeps_seq keeps_case_prod idle_basic resolve_keypair_idle restore_entries_idle)

text \<open>A successful initialisation has set up the core.\<close>

lemma restore_entries_core: "unchanged (\<lambda>s. rpc_core s = None) (restore_entries es)"
proof (induction es)
  case (Cons e es)
  have "unchanged (\<lambda>s. rpc_core s = None) (restore_entry e)"
    unfolding restore_entry_def prod.case setPeerRouteId_def
    by (auto simp: unchanged_on_core split: option.split json.split intro!: unchanged_catch unchanged_seq unchanged_modify)
  with Cons show ?case unfolding restore_entries.simps by (intro unchanged_seq)
qed (simp add: unchanged_def)

lemma triple_True: "triple P m (\<lambda>_ _. True) (\<lambda>_. True)"
  by (auto simp: triple_def split: prod.splits sum.splits)

lemma initIdentity_core:
  assumes "initIdentity E S s = (Inr (), s')"
  shows "rpc_core s' \<noteq> None"
proof -
  have new: "triple (\<lambda>_. True) (newEasyTierRpc E pk h sid b) (\<lambda>_ s. rpc_core s \<noteq> None) (\<lambda>_. True)" for pk h sid b
    unfolding newEasyTierRpc_def by (rule triple_bind [OF triple_True])+ (simp add: triple_def)
  have restore: "triple (\<lambda>s. rpc_core s \<noteq> None) (restoreRouteIds S) (\<lambda>_ s. rpc_core s \<noteq> None) (\<lambda>_. True)"
    unfolding restoreRouteIds_def
  proof (rule triple_if)
    show "triple (\<lambda>s. rpc_core s \<noteq> None) (st_throw (JsError ''storage.list failed'' [])) (\<lambda>_ s. rpc_core s \<noteq> None) (\<lambda>_. True)"
      by (simp add: triple_def)
    show "triple (\<lambda>s. rpc_core s \<noteq> None) (st_bind (st_gets srv_storage) restore_entries) (\<lambda>_ s. rpc_core s \<noteq> None) (\<lambda>_. True)"
    proof (rule triple_bind [of _ _ "\<lambda>_ s. rpc_core s \<noteq> None"])
      show "triple (\<lambda>s. rpc_core s \<noteq> None) (st_gets srv_storage) (\<lambda>_ s. rpc_core s \<noteq> None) (\<lambda>_. True)" by (simp add: triple_def)
      fix es
      show "triple (\<lambda>s. rpc_core s \<noteq> None) (restore_entries es) (\<lambda>_ s. rpc_core s \<noteq> None) (\<lambda>_. True)"
        by (rule triple_weaken [OF triple_unchanged [OF restore_entries_core, where P = Not]]) simp_all
    qed
  qed
  have "triple (\<lambda>_. True) (case kp of (a, b) \<Rightarrow>
      if \<not> truthy a \<or> \<not> truthy b then st_throw (JsError ''failed to resolve the secure-mode X25519 keypair'' [])
      else st_seq (st_modify (\<lambda>s. s\<lparr>srv_localPrivateKey := the a, srv_localPublicKey := the b\<rparr>))
       (st_bind (st_gets srv_config) (\<lambda>cfg.
        st_bind (st_lift (case cfg_localPublicKeyBytes cfg of
                            Some bs \<Rightarrow> Inr bs | None \<Rightarrow> server_decodeBase64Key (the b))) (\<lambda>pk.
        st_seq (newEasyTierRpc E pk (cfg_hostname cfg) SERVER_PEER_ID (cfg_disableRelayData cfg))
               (restoreRouteIds S))))) (\<lambda>_ s. rpc_core s \<noteq> None) (\<lambda>_. True)" for kp
  proof (cases kp, simp only: prod.case, rule triple_if)
    show "triple (\<lambda>_. True) (st_throw e) (\<lambda>_ s. rpc_core s \<noteq> None) (\<lambda>_. True)" for e by (simp add: triple_def)
  qed (rule triple_seq [OF triple_True], rule triple_bind [OF triple_True], rule triple_bind [OF triple_True],
      rule triple_seq [OF new], rule restore)
  then have "triple (\<lambda>_. True) (initIdentity E S) (\<lambda>_ s. rpc_core s \<noteq> None) (\<lambda>_. True)"
    unfolding initIdentity_def by (rule triple_bind [OF triple_True])
  from tripleD [OF this _ assms] show ?thesis by simp
qed

section \<open>The server between events\<close>

definition within_quotas :: "server \<Rightarrow> bool" where
  "within_quotas s \<longleftrightarrow> length (srv_connections s) \<le> MAX_CONNECTIONS \<and> srv_pendingHandshakes s \<le> MAX_PENDING_HANDSHAKES \<and>
     (\<forall>ip. pending_of s ip \<le> cfg_maxPendingPerIp (srv_config s))"

definition server_ok :: "server \<Rightarrow> bool" where
  "server_ok s \<longleftrightarrow> srv_inv {} {} s \<and> peers_exist s \<and> within_quotas s \<and>
     (srv_maintenanceTimer s \<longleftrightarrow> srv_connections s \<noteq> []) \<and>
     (srv_connections s \<noteq> [] \<longrightarrow> srv_identityReady s) \<and> (srv_identityReady s \<longrightarrow> rpc_core s \<noteq> None)"

lemma filter_shrinks:
  assumes "distinct xs" "distinct ys" "\<And>x. x \<in> set ys \<Longrightarrow> Q x \<Longrightarrow> x \<in> set xs \<and> P x"
  shows "length (filter Q ys) \<le> length (filter P xs)"
proof -
  have "card (set (filter Q ys)) \<le> card (set (filter P xs))" using assms(3) by (intro card_mono) auto
  then show ?thesis using assms(1,2) by (simp add: distinct_card [symmetric])
qed

lemma within_moves:
  assumes "srv_inv X Y s" "srv_inv X' Y' s'" "moves s s'" "within_quotas s"
  shows "within_quotas s'"
proof -
  have d: "distinct (srv_connections s)" "distinct (srv_connections s')"
    and sl: "slots_ok s" "slots_ok s'"
    using assms(1,2) by (auto simp: srv_inv_def table_ok_def)
  have sub: "c \<in> set (srv_connections s)" if "c \<in> set (srv_connections s')" for c
    using that assms(1-3) unfolding srv_inv_def table_ok_def moves_def by blast
  have un: "unready s c" "from_ip s' ip c \<Longrightarrow> from_ip s ip c" if "unready s' c" for c ip
    using that assms(3) unfolding moves_def by blast+
  have "srv_pendingHandshakes s' \<le> srv_pendingHandshakes s"
    using sl filter_shrinks [OF d, of "unready s'" "unready s"] sub un by (simp add: slots_ok_def)
  moreover have "pending_of s' ip \<le> pending_of s ip" for ip
    using sl filter_shrinks [OF d, of "\<lambda>c. unready s' c \<and> from_ip s' ip c" "\<lambda>c. unready s c \<and> from_ip s ip c"] sub un
    by (simp add: slots_ok_def)
  ultimately show ?thesis
    using assms(3,4) unfolding within_quotas_def moves_def by (metis order_trans)
qed

lemma server_ok_moves:
  assumes "server_ok s" "srv_inv {} {} s'" "moves s s'"
  shows "server_ok s'"
proof -
  have "within_quotas s'" using within_moves [OF _ assms(2,3)] assms(1) by (auto simp: server_ok_def)
  moreover have "srv_connections s' \<noteq> [] \<Longrightarrow> srv_connections s \<noteq> []" using assms(3) by (auto simp: moves_def)
  ultimately show ?thesis using assms unfolding server_ok_def moves_def by auto
qed


section \<open>Requests\<close>

lemma srv_inv_idle:
  assumes "idle_view s' = idle_view s" "srv_inv X Y s" "srv_connections s = [] \<or> rpc_core s' \<noteq> None"
  shows "srv_inv X Y s'"
proof -
  have eq: "admin s' = admin s" "srv_config s' = srv_config s" "srv_connections s' = srv_connections s"
    "srv_rooms s' = srv_rooms s" "srv_pendingHandshakes s' = srv_pendingHandshakes s" "srv_pendingByIp s' = srv_pendingByIp s"
    using assms(1) by (simp_all add: idle_view_def)
  have "srv_inv X Y (s'\<lparr>rpc_core := rpc_core s\<rparr>)"
    using srv_inv_cong [of "s'\<lparr>rpc_core := rpc_core s\<rparr>" s] assms(2) eq by simp
  moreover note preds = preds_admin [of "s'\<lparr>rpc_core := rpc_core s\<rparr>" s']
  ultimately show ?thesis
    using assms(3) eq unfolding srv_inv_def table_ok_def slots_ok_def rooms_ok_def ready_ok_def facts_ok_def pending_of_def
    by (simp add: preds) blast
qed

lemma within_idle: "idle_view s' = idle_view s \<Longrightarrow> within_quotas s \<Longrightarrow> within_quotas s'"
  by (simp add: within_quotas_def idle_view_def pending_of_def)

lemma ensureIdentity_ok:
  assumes ok: "server_ok s" and run: "ensureIdentity E S s = (r, s')"
  shows "server_ok s'" "r = Inr u \<Longrightarrow> srv_identityReady s'" "srv_config s' = srv_config s"
proof -
  have "server_ok s' \<and> (\<forall>u. r = Inr u \<longrightarrow> srv_identityReady s') \<and> srv_config s' = srv_config s"
  proof (cases "srv_identityReady s")
    case True
    then show ?thesis using ok run by (auto simp: ensureIdentity_def st_bind_def)
  next
    case False
    with ok have none: "srv_connections s = []" by (auto simp: server_ok_def)
    obtain r1 s1 where init: "initIdentity E S s = (r1, s1)" by fastforce
    have "idle (idle_view s) s1"
      using initIdentity_idle [of "idle_view s" E S] init ok unfolding keeps_def idle_def server_ok_def by (metis snd_conv)
    then have v: "idle_view s1 = idle_view s" "peers_exist s1" by (simp_all add: idle_def)
    have inv1: "srv_inv {} {} s1" using srv_inv_idle [OF v(1)] ok none by (auto simp: server_ok_def)
    have q1: "within_quotas s1" using within_idle [OF v(1)] ok by (simp add: server_ok_def)
    have f: "srv_connections s1 = []" "srv_config s1 = srv_config s" "\<not> srv_identityReady s1" "srv_maintenanceTimer s1 = srv_maintenanceTimer s"
      using v(1) none False by (simp_all add: idle_view_def)
    show ?thesis
    proof (cases r1)
      case (Inl e)
      then have "s' = s1" "r = Inl e" using run init False by (simp_all add: ensureIdentity_def st_bind_def st_seq_def)
      then show ?thesis using inv1 q1 v f ok none by (simp add: server_ok_def)
    next
      case (Inr u)
      then have s': "s' = s1\<lparr>srv_identityReady := True\<rparr>" using run init False by (simp add: ensureIdentity_def st_bind_def st_seq_def)
      have "rpc_core s1 \<noteq> None" using initIdentity_core init Inr by simp
      moreover have "srv_inv {} {} s'" using srv_inv_cong [of s' s1] inv1 by (simp add: s')
      moreover have "peers_exist s'" "within_quotas s'" using v(2) q1 by (simp_all add: s' peers_exist_def within_quotas_def pending_of_def)
      ultimately show ?thesis using f ok none by (simp add: server_ok_def s')
    qed
  qed
  then show "server_ok s'" "r = Inr u \<Longrightarrow> srv_identityReady s'" "srv_config s' = srv_config s" by blast+
qed

lemma fold_max_ge: "(x :: nat) \<in> set xs \<or> x \<le> y \<Longrightarrow> x \<le> fold max xs y"
  by (induction xs arbitrary: y) (auto simp: max_def)

lemma fresh_id_new: "jget (net_conns s) (fresh_id s) = None"
proof (rule ccontr)
  assume "jget (net_conns s) (fresh_id s) \<noteq> None"
  then have "fresh_id s \<in> set (jkeys (net_conns s))" by (auto simp: jkeys_iff jhas_def)
  from fold_max_ge [OF disjI1 [OF this], of 0] show False by (simp add: fresh_id_def)
qed

lemma scheduleMaintenance_inv:
  "srv_inv X Y (scheduleMaintenance s) = srv_inv X Y s" "within_quotas (scheduleMaintenance s) = within_quotas s"
  "peers_exist (scheduleMaintenance s) = peers_exist s" "srv_connections (scheduleMaintenance s) = srv_connections s"
  "srv_identityReady (scheduleMaintenance s) = srv_identityReady s" "rpc_core (scheduleMaintenance s) = rpc_core s"
  "srv_maintenanceTimer (scheduleMaintenance s) = (srv_maintenanceTimer s \<or> srv_connections s \<noteq> [])"
proof -
  show "srv_inv X Y (scheduleMaintenance s) = srv_inv X Y s" by (rule srv_inv_cong) (simp_all add: scheduleMaintenance_def)
qed (simp_all add: scheduleMaintenance_def within_quotas_def pending_of_def peers_exist_def)

lemma accept_inv:
  assumes inv: "srv_inv {} {} s" and core: "rpc_core s \<noteq> None"
  shows "srv_inv {} {} (accept_connection sec ip hi lo now s)"
proof -
  define cid where "cid = fresh_id s"
  define c where "c = createConnection sec ip hi lo now"
  define s1 where "s1 = s\<lparr>net_conns := jset cid c (net_conns s), srv_connections := srv_connections s @ [cid],
             srv_pendingHandshakes := srv_pendingHandshakes s + 1,
             srv_pendingByIp := jset ip (pending_of s ip + 1) (srv_pendingByIp s)\<rparr>"
  have none: "admin s cid = None" using fresh_id_new [of s] by (simp add: admin_def cid_def)
  have adm: "admin s1 = (admin s)(cid := Some (conn_admin c))" by (simp add: s1_def admin_def fun_eq_iff)
  have ca: "cf_phase (conn_admin c) = Msg1" "cf_mode (conn_admin c) = SecureMode" "\<not> cf_freed (conn_admin c)"
    "cf_timer (conn_admin c)" "cf_clientIp (conn_admin c) = ip"
    by (simp_all add: c_def createConnection_def)
  have o: "open_conn s1 d \<longleftrightarrow> d = cid \<or> open_conn s d" for d using ca none by (simp add: open_conn_def adm)
  have u: "unready s1 d \<longleftrightarrow> d = cid \<or> unready s d" for d using ca none by (simp add: unready_def adm)
  have i: "from_ip s1 a d \<longleftrightarrow> (if d = cid then a = ip else from_ip s a d)" for a d using ca none by (auto simp: from_ip_def adm)
  have notin: "cid \<notin> set (srv_connections s)" using inv none by (auto simp: srv_inv_def table_ok_def open_conn_def)
  have fld: "srv_connections s1 = srv_connections s @ [cid]" "srv_rooms s1 = srv_rooms s" "srv_config s1 = srv_config s"
    "rpc_core s1 = rpc_core s" "srv_pendingHandshakes s1 = srv_pendingHandshakes s + 1"
    "jget (srv_pendingByIp s1) a = (if a = ip then Some (pending_of s ip + 1) else jget (srv_pendingByIp s) a)" for a
    by (simp_all add: s1_def)
  have "table_ok s1" using inv notin by (auto simp: srv_inv_def table_ok_def fld o)
  moreover have "slots_ok s1"
  proof -
    have sl: "slots_ok s" using inv by (simp add: srv_inv_def)
    have f1: "filter (unready s1) (srv_connections s) = filter (unready s) (srv_connections s)"
      using notin by (intro filter_cong) (auto simp: u)
    have f2: "filter (\<lambda>d. unready s1 d \<and> from_ip s1 a d) (srv_connections s) = filter (\<lambda>d. unready s d \<and> from_ip s a d) (srv_connections s)" for a
      using notin by (intro filter_cong) (auto simp: u i)
    have p: "pending_of s1 a = pending_of s a + (if a = ip then 1 else 0)" for a by (simp add: pending_of_def fld)
    have "unready s1 cid" "from_ip s1 a cid \<longleftrightarrow> a = ip" for a by (simp_all add: u i)
    then show ?thesis using sl by (auto simp: slots_ok_def fld p f1 f2)
  qed
  moreover have "rooms_ok {} s1"
    using inv none unfolding srv_inv_def rooms_ok_def fld by (fastforce simp: adm)
  moreover have "ready_ok {} s1" using inv ca unfolding srv_inv_def ready_ok_def fld by (auto simp: adm)
  moreover have "facts_ok {} s1" using inv ca unfolding srv_inv_def facts_ok_def fld by (auto simp: adm conn_ok_def)
  ultimately have "srv_inv {} {} s1" using core by (simp add: srv_inv_def fld)
  then show ?thesis
    by (simp add: accept_connection_def Let_def scheduleMaintenance_inv s1_def c_def cid_def)
qed

lemma accept_ok:
  assumes ok: "server_ok s" and ready: "srv_identityReady s" and cap: "has_capacity ip s"
  shows "server_ok (accept_connection sec ip hi lo now s)"
proof -
  let ?s' = "accept_connection sec ip hi lo now s"
  have inv: "srv_inv {} {} ?s'" using ok ready by (intro accept_inv) (auto simp: server_ok_def)
  have "within_quotas ?s'"
    unfolding accept_connection_def Let_def scheduleMaintenance_inv(2)
    using ok cap by (auto simp: server_ok_def within_quotas_def has_capacity_def pending_of_def)
  moreover have "peers_exist ?s'"
    unfolding accept_connection_def Let_def scheduleMaintenance_inv(3)
    using ok by (auto simp: server_ok_def peers_exist_def)
  ultimately show ?thesis
    using inv ok ready by (simp add: server_ok_def accept_connection_def Let_def scheduleMaintenance_inv)
qed

lemma server_fetch_ok: "server_ok s \<Longrightarrow> server_ok (snd (server_fetch E S req hi lo s))"
  using ensureIdentity_ok [of s E S] accept_ok
  by (auto simp: server_fetch_def Let_def split: prod.splits sum.splits)

section \<open>Events\<close>

text \<open>
  The remaining callbacks: the handshake timer of a connection, the end of a storage write and its failure,
  and the runtime changing the state of a socket.
\<close>

definition handshake_timeout :: "world_env \<Rightarrow> conn_id \<Rightarrow> (unit, server) st" where
  "handshake_timeout E cid = close E cid 4408 ''secure handshake timeout''"

definition put_done :: "ustring \<times> ustring \<Rightarrow> server \<Rightarrow> server" where
  "put_done p s = s\<lparr>srv_pendingPuts := remove1 p (srv_pendingPuts s),
                    srv_storage := jset (ROUTE_ID_STORAGE_PREFIX @ fst p) (JStr (snd p)) (srv_storage s)\<rparr>"

definition put_failed :: "ustring \<times> ustring \<Rightarrow> server \<Rightarrow> server" where
  "put_failed p s = s\<lparr>srv_pendingPuts := remove1 p (srv_pendingPuts s),
                      srv_persistedRouteIds := removeAll (fst p) (srv_persistedRouteIds s)\<rparr>"

datatype server_event =
    FetchEvent world_env storage_env http_request u32 u32
  | MessageEvent world_env conn_id ws_data
  | CloseEvent world_env conn_id
  | TimeoutEvent world_env conn_id
  | MaintenanceEvent world_env
  | PutDoneEvent ustring ustring
  | PutFailedEvent ustring ustring
  | SocketEvent conn_id nat

fun enabled :: "server_event \<Rightarrow> server \<Rightarrow> bool" where
  "enabled (FetchEvent E S req hi lo) s = True"
| "enabled (MessageEvent E cid d) s = jhas (net_conns s) cid"
| "enabled (CloseEvent E cid) s = jhas (net_conns s) cid"
| "enabled (TimeoutEvent E cid) s = (case jget (net_conns s) cid of None \<Rightarrow> False | Some c \<Rightarrow> cn_handshakeTimer c)"
| "enabled (MaintenanceEvent E) s = srv_maintenanceTimer s"
| "enabled (PutDoneEvent n i) s = ((n, i) \<in> set (srv_pendingPuts s))"
| "enabled (PutFailedEvent n i) s = ((n, i) \<in> set (srv_pendingPuts s))"
| "enabled (SocketEvent cid st) s = jhas (net_conns s) cid"

fun handle_event :: "server_event \<Rightarrow> (unit, server) st" where
  "handle_event (FetchEvent E S req hi lo) = st_modify (\<lambda>s. snd (server_fetch E S req hi lo s))"
| "handle_event (MessageEvent E cid d) = on_message E cid d"
| "handle_event (CloseEvent E cid) = remove_conn E cid"
| "handle_event (TimeoutEvent E cid) = handshake_timeout E cid"
| "handle_event (MaintenanceEvent E) = maintenance E"
| "handle_event (PutDoneEvent n i) = st_modify (put_done (n, i))"
| "handle_event (PutFailedEvent n i) = st_modify (put_failed (n, i))"
| "handle_event (SocketEvent cid st) = st_modify (upd_conn cid (\<lambda>c. c\<lparr>cn_readyState := st\<rparr>))"

inductive server_step :: "server \<Rightarrow> server \<Rightarrow> bool" where
  event: "enabled e s \<Longrightarrow> handle_event e s = (r, s') \<Longrightarrow> server_step s s'"

inductive_cases server_stepE: "server_step s s'"

definition fresh_server :: "server \<Rightarrow> bool" where
  "fresh_server s \<longleftrightarrow> (\<exists>cfg storage sessions ctr. s = new_server cfg storage sessions ctr)"

lemma server_ok_new: "server_ok (new_server cfg storage sessions ctr)"
  by (simp add: server_ok_def srv_inv_def table_ok_def slots_ok_def rooms_ok_def ready_ok_def facts_ok_def within_quotas_def
      peers_exist_def new_server_def open_conn_def unready_def admin_def pending_of_def rooms_wf_def rooms_get_def)

lemma server_ok_cong:
  assumes "inv_view s' = inv_view s" "peers_exist s \<Longrightarrow> peers_exist s'" "server_ok s"
  shows "server_ok s'"
  using server_ok_moves [OF assms(3)] inv_view_inv(1) [OF assms(1)] inv_view_moves [OF assms(1,2)] assms(3)
  by (simp add: server_ok_def)

lemma admin_exists: "jhas (net_conns s) cid \<Longrightarrow> admin s cid \<noteq> None"
  by (auto simp: jhas_def admin_def split: option.splits)

lemma event_returns:
  assumes ok: "server_ok s" and en: "enabled e s"
  shows "\<exists>s'. handle_event e s = (Inr (), s') \<and> server_ok s'"
proof -
  have inv: "srv_inv {} {} s" using ok by (simp add: server_ok_def)
  note step = server_ok_moves [OF ok]
  show ?thesis
  proof (cases e)
    case (FetchEvent E S req hi lo)
    then show ?thesis using server_fetch_ok [OF ok] by simp
  next
    case (MessageEvent E cid d)
    then show ?thesis using on_message_total [OF inv admin_exists, of cid E d] step en by auto
  next
    case (CloseEvent E cid)
    then have "admin s cid \<noteq> None" using en by (intro admin_exists) simp
    from remove_conn_total [OF inv this, of E] show ?thesis using CloseEvent step closes_moves by fastforce
  next
    case (TimeoutEvent E cid)
    then have "admin s cid \<noteq> None" using en by (intro admin_exists) (auto simp: jhas_def split: option.splits)
    moreover have "valid_code 4408" by (simp add: valid_code_def)
    ultimately show ?thesis using close_total [OF inv, of cid 4408 E "''secure handshake timeout''"] TimeoutEvent step closes_moves
      by (fastforce simp: handshake_timeout_def)
  next
    case (MaintenanceEvent E)
    then have core: "rpc_core s \<noteq> None" and peers: "peers_exist s" using ok en by (auto simp: server_ok_def)
    obtain s1 where 1: "maintenance E s = (Inr (), scheduleMaintenance s1)" "srv_inv {} {} s1"
      "moves (s\<lparr>srv_maintenanceTimer := False\<rparr>) s1"
      using maintenance_total [OF inv core peers] by blast
    have "within_quotas s1"
      by (rule within_moves [OF _ 1(2,3)]) (use ok srv_inv_cong [of "s\<lparr>srv_maintenanceTimer := False\<rparr>" s] in
          \<open>auto simp: server_ok_def within_quotas_def pending_of_def\<close>)
    moreover have "\<not> srv_maintenanceTimer s1" "peers_exist s1" "srv_identityReady s1 = srv_identityReady s"
        "(rpc_core s1 = None) = (rpc_core s = None)" "srv_connections s1 \<noteq> [] \<Longrightarrow> srv_connections s \<noteq> []"
      using 1(3) peers by (auto simp: moves_def peers_exist_def)
    ultimately have "server_ok (scheduleMaintenance s1)"
      using 1(2) ok by (auto simp: server_ok_def scheduleMaintenance_inv)
    then show ?thesis using 1(1) MaintenanceEvent by simp
  next
    case (PutDoneEvent n i)
    have "server_ok (put_done (n, i) s)"
      by (rule server_ok_cong [OF _ _ ok]) (simp_all add: put_done_def inv_view_def peers_exist_def)
    then show ?thesis using PutDoneEvent by simp
  next
    case (PutFailedEvent n i)
    have "server_ok (put_failed (n, i) s)"
      by (rule server_ok_cong [OF _ _ ok]) (simp_all add: put_failed_def inv_view_def peers_exist_def)
    then show ?thesis using PutFailedEvent by simp
  next
    case (SocketEvent cid st)
    then obtain c where c: "jget (net_conns s) cid = Some c" using en by (auto simp: jhas_def split: option.splits)
    let ?s' = "upd_conn cid (\<lambda>c. c\<lparr>cn_readyState := st\<rparr>) s"
    have "admin ?s' = admin s"
      using admin_upd_conn [OF c] admin_Some [OF c] by (simp add: fun_eq_iff conn_admin_def)
    then have "server_ok ?s'"
      by (intro server_ok_cong [OF _ _ ok]) (use c in \<open>auto simp: inv_view_def peers_exist_def upd_conn_def\<close>)
    then show ?thesis using SocketEvent by simp
  qed
qed

interpretation server_run: transition_system fresh_server server_step server_ok
proof
  show "server_ok s" if "fresh_server s" for s using that server_ok_new by (auto simp: fresh_server_def)
  show "server_ok s'" if "server_ok s" "server_step s s'" for s s'
    using that(2) event_returns [OF that(1)] by (elim server_stepE) fastforce
qed

abbreviation reachable :: "server \<Rightarrow> bool" where
  "reachable \<equiv> reach fresh_server server_step"

end
