(* ===== verification/ServerScenario.thy ===== *)
theory ServerScenario
  imports ServerRun
begin

unbundle bit_operations_syntax

text \<open>
  One run of the server, worked out in the kernel step by step: a legacy client upgrades, sends its
  handshake frame and is admitted, with the answer and the first route update on its socket. The concrete
  instances of the server's properties are taken from its states.
\<close>

section \<open>A concrete run\<close>

text \<open>A server for one legacy network, the upgrade request of a client and its handshake frame.\<close>

definition demo_config :: server_config where
  "demo_config = \<lparr>cfg_rooms = [([110], [115])], cfg_networkName = [110], cfg_networkSecret = [115], cfg_hostname = [104],
     cfg_localPrivateKey = Some [65], cfg_localPublicKey = Some [65], cfg_localPublicKeyBytes = Some (replicate 32 1),
     cfg_disableRelayData = False, cfg_maxFrameBytes = 1024, cfg_maxPendingPerIp = 4, cfg_connectionMode = LegacyMode\<rparr>"

definition demo_hello :: handshake_request where
  "demo_hello = \<lparr>hr_magic = MAGIC, hr_my_peer_id = 5, hr_version = VERSION, hr_features = [], hr_network_name = [110],
     hr_network_secret_digest = generate_digest_from_str [110] [115]\<rparr>"

definition demo_env :: world_env where
  "demo_env = \<lparr>we_crypto = toy_crypto\<lparr>b64_encode := rfc4648\<rparr>, we_codec = toy_codec\<lparr>dec_handshake_request := \<lambda>_. Some demo_hello\<rparr>,
     we_now = 5000, we_group_seed = (\<lambda>_. sample_seed), we_draws = (\<lambda>_. [Some 7]), we_bytes = (\<lambda>_ n. Some (replicate n 1)),
     we_uuid = (\<lambda>_. None)\<rparr>"

definition demo_storage :: storage_env where
  "demo_storage = \<lparr>sto_get_ok = True, sto_put_ok = True, sto_list_ok = True\<rparr>"

definition demo_request :: http_request where
  "demo_request = \<lparr>hq_pathname = ustr ''/'', hq_method = ustr ''GET'', hq_upgrade = Some (ustr ''websocket''), hq_connecting_ip = None\<rparr>"

definition demo_start :: server where
  "demo_start = new_server demo_config [] [] 0"

definition demo_frame :: bytes where
  "demo_frame = [5, 0, 0, 0, 0, 0, 0, 0, 2, 0, 1, 0, 0, 0, 0, 0]"

definition demo_core :: wasm_rpc_core where
  "demo_core = \<lparr>rc_routes = new_route_state SERVER_PEER_ID, rc_peer_center = [], rc_configured_groups = [],
             rc_peer_initiator = [], rc_pending = [], rc_pending_bytes = 0, rc_pending_pieces = 0,
             rc_outstanding_routes = [], rc_public_key = replicate 32 1, rc_hostname = [104],
             rc_server_peer_id = SERVER_PEER_ID, rc_avoid_relay_data = False\<rparr>"

definition demo_secure :: secure_peer where
  "demo_secure = (case new_secure_peer (we_crypto demo_env) 5000 [65] [65] SERVER_PEER_ID of Inr p \<Rightarrow> p)"

definition demo_open :: server where
  "demo_open = demo_start\<lparr>net_conns := [(1, createConnection demo_secure UNKNOWN_IP 1 2 5000)], net_ctr := 1,
     rpc_core := Some demo_core, rpc_serverPeerId := SERVER_PEER_ID, srv_localPrivateKey := [65], srv_localPublicKey := [65],
     srv_identityReady := True, srv_connections := [1], srv_pendingHandshakes := 1, srv_pendingByIp := [(UNKNOWN_IP, 1)],
     srv_maintenanceTimer := True\<rparr>"

lemma demo_secure: "new_secure_peer (we_crypto demo_env) 5000 [65] [65] SERVER_PEER_ID = Inr demo_secure"
  by (simp add: demo_secure_def new_secure_peer_def demo_env_def toy_crypto_def decode_key_def SERVER_PEER_ID_def)

lemmas st_run = st_bind_def st_seq_def st_catch_def

lemma demo_identity:
  "ensureIdentity demo_env demo_storage demo_start = (Inr (), demo_start\<lparr>net_ctr := 1,
     rpc_core := Some demo_core, rpc_serverPeerId := SERVER_PEER_ID, srv_localPrivateKey := [65], srv_localPublicKey := [65],
     srv_identityReady := True\<rparr>)"
  by (simp add: ensureIdentity_def initIdentity_def resolve_keypair_def newEasyTierRpc_def new_rpc_core_def restoreRouteIds_def
     st_run demo_start_def new_server_def demo_config_def demo_storage_def fresh_ctr_def demo_core_def SERVER_PEER_ID_def truthy_def)

lemma websocket_lower: "js_toLowerCase (ustr ''websocket'') = ustr ''websocket''"
  by (simp add: js_toLowerCase_def ustr_def js_lower_char_def)

lemma demo_fetch: "server_fetch demo_env demo_storage demo_request 1 2 demo_start = (response 101 [], demo_open)"
proof -
  let ?s = "demo_start\<lparr>net_ctr := 1,
     rpc_core := Some demo_core, rpc_serverPeerId := SERVER_PEER_ID, srv_localPrivateKey := [65], srv_localPublicKey := [65],
     srv_identityReady := True\<rparr>"
  have cap: "has_capacity UNKNOWN_IP ?s"
    by (simp add: has_capacity_def demo_start_def new_server_def pending_of_def MAX_CONNECTIONS_def MAX_PENDING_HANDSHAKES_def demo_config_def)
  have acc: "accept_connection demo_secure UNKNOWN_IP 1 2 5000 ?s = demo_open"
    by (simp add: accept_connection_def scheduleMaintenance_def fresh_id_def pending_of_def demo_open_def demo_start_def new_server_def
        Let_def jset_def jkeys_def)
  have now: "we_now demo_env = 5000" by (simp add: demo_env_def)
  show ?thesis
    using cap acc demo_secure now by (simp add: server_fetch_def demo_identity demo_request_def websocket_lower)
qed

lemma demo_parse: "parsePacket demo_frame = Inr \<lparr>header = \<lparr>fromPeerId = 5, toPeerId = 0, packetType = 2, flags = 0, forwardCounter = 1,
   reserved = 0, payloadLength = 0\<rparr>, payload = []\<rparr>"
  by (simp add: parsePacket_def demo_frame_def readU32_def byte_at_def edge_simps Let_def)

definition demo_routes :: "route_state \<Rightarrow> bool" where
  "demo_routes rs \<longleftrightarrow> rs_route_id_overrides rs = [] \<and>
     (\<exists>g. rs_groups rs = [([110], g)] \<and> rg_peers g = [5] \<and> rg_peer_infos g = [] \<and> length (rg_conn_rows g) \<le> 1 \<and> rg_cached_conn_bitmap g = None)"

definition demo_core1 :: "route_state \<Rightarrow> wasm_rpc_core" where
  "demo_core1 rs = demo_core\<lparr>rc_routes := rs, rc_configured_groups := [[110]], rc_peer_initiator := [(([110], 5), False)]\<rparr>"

lemma demo_added: "\<exists>rs. core_add_peer sample_seed [110] 5 [] 5000 demo_core = (Inr (), demo_core1 rs) \<and> demo_routes rs"
  by (simp add: core_add_peer_def on_routes_def add_peer_def with_group_def ensure_group_def put_group_def demo_core_def new_route_state_def
     Let_def add_peer_group_def set_my_info_field_def set_my_noise_public_key_def jset_def update_my_conn_row_def note_topology_change_def
     with_session_def bump_my_info_def ustr_def new_group_def bset_insert_def insort_insert_key_def demo_core1_def demo_routes_def jdel_def)

lemma demo_route_id:
  assumes "demo_routes rs"
  shows "\<exists>i. get_peer_route_id sample_seed [110] (demo_core1 rs) = (i, demo_core1 rs)"
  using assms
  by (cases rs) (auto simp: demo_routes_def jdel_def get_peer_route_id_def on_routes_def my_peer_route_id_def with_group_def ensure_group_def put_group_def
      demo_core1_def Let_def jset_def)


lemma length_relevant: "length (relevant_peers me target g) \<le> length (rg_peers g) + length (rg_peer_infos g) + length (rg_conn_rows g) + 2"
proof -
  have "length (relevant_peers me target g) \<le> length (rg_peers g @ jkeys (rg_peer_infos g) @ jkeys (rg_conn_rows g) @ [me, target])"
    unfolding relevant_peers_def bset_of_def length_sort by (rule length_remdups_leq)
  then show ?thesis by (simp add: jkeys_def)
qed

lemma demo_build:
  assumes "demo_routes rs"
  shows "\<exists>c. build_route_update (we_codec demo_env) sample_seed [Some 7] [110] 5 sid ff 5000 (demo_core1 rs) = (Inr [], c)"
proof -
  obtain g where g: "rs_groups rs = [([110], g)]" "rg_peers g = [5]" "rg_peer_infos g = []" "length (rg_conn_rows g) \<le> 1"
      "rg_cached_conn_bitmap g = None" "rs_route_id_overrides rs = []"
    using assms by (auto simp: demo_routes_def)
  define g1 where "g1 = with_session 5 (\<lambda>s. s\<lparr>ss_my_session_id := Some sid\<rparr>) g"
  have g1: "rg_cached_conn_bitmap g1 = None" "rg_peer_infos g1 = []" "length (relevant_peers me 5 g1) \<le> MAX_LEGACY_BITMAP_PEERS" for me
    using length_relevant [of me 5 g1] g by (simp_all add: g1_def with_session_def MAX_LEGACY_BITMAP_PEERS_def)
  have ci: "\<exists>ci g'. build_conn_info (relevant_peers me 5 g1) 5 False 5000 g1 = (Inr ci, g')" for me
    using g1(1) g1(3) [of me] by (auto simp: build_conn_info_def Let_def)
  have "\<exists>u g'. build_sync_group (we_codec demo_env) me 5 sid ini ff 5000 g = (Inr u, g')" for me ini
    using ci [of me] g1 by (auto simp: build_sync_group_def Let_def g1_def [symmetric])
  then have "\<exists>u rs'. build_sync_route_info_request (we_codec demo_env) sample_seed [110] 5 sid ini ff 5000 rs = (Inr u, rs')" for ini
    using g by (simp add: build_sync_route_info_request_def with_group_def ensure_group_def Let_def split_beta) (metis fst_conv)
  then obtain u rs' where "build_sync_route_info_request (we_codec demo_env) sample_seed [110] 5 sid False ff 5000 rs = (Inr u, rs')"
    by blast
  moreover have "enc_rpc_packet (we_codec demo_env) p = []" for p by (simp add: demo_env_def toy_codec_def)
  ultimately show ?thesis
    by (simp add: build_route_update_def on_routes_def demo_core1_def clean_rpc_state_def demo_core_def Let_def peer_initiator_of_def
       jretain_def jkeys_def)
qed


text \<open>The handshake, step by step.\<close>

definition demo_hs :: connection where
  "demo_hs = (createConnection demo_secure UNKNOWN_IP 1 2 5000)\<lparr>cn_peerId := 5, cn_networkName := [110], cn_mode := LegacyMode,
     cn_legacyCipher := Some \<lparr>key_128 = derive_key_128 [115]\<rparr>, cn_sentBytesInWindow := 16, cn_sentFramesInWindow := 1,
     cn_sent := [encode_header SERVER_PEER_ID 0 PACKET_TYPE_HANDSHAKE []]\<rparr>"

lemma rfc4648_nonempty: "bs \<noteq> [] \<Longrightarrow> rfc4648 bs \<noteq> []"
  using atob_rfc4648 [of bs] by (auto simp: atob_def strip_padding_def Let_def)

lemma demo_info:
  "bind_res (parse_legacy_handshake (we_crypto demo_env) (we_codec demo_env) demo_frame) (\<lambda>j. parseLegacyHandshakeInfo (Some j)) =
     Inr \<lparr>li_peerId = 5, li_networkName = [110], li_networkSecretDigest = generate_digest_from_str [110] [115]\<rparr>"
proof -
  let ?D = "generate_digest_from_str [110] [115]"
  have D: "length ?D = 32" by simp
  have b64: "atob (rfc4648 ?D) = Some ?D" by (rule atob_rfc4648)
  have "?D \<noteq> []" using D by (metis list.size(3) zero_neq_numeral)
  then have ne: "rfc4648 ?D \<noteq> []" by (rule rfc4648_nonempty)
  have parse: "parse_packet demo_frame = Inr \<lparr>from_peer_id = 5, to_peer_id = 0, packet_type = 2, rs_flags = 0, forward_counter = 1,
       rs_reserved = 0, rs_len = 0\<rparr>"
    by (simp add: parse_packet_def from_bytes_def demo_frame_def u32_from_le_bytes_def edge_simps Let_def)
  have "parse_legacy_handshake (we_crypto demo_env) (we_codec demo_env) demo_frame =
     Inr (JObj [(ustr ''peer_id'', JNum (of_nat (unat (5::peer_id)))), (ustr ''network_name'', JStr [110]),
                  (ustr ''network_secret_digest_base64'', JStr (rfc4648 ?D))])"
    by (simp add: parse_legacy_handshake_def parse_legacy_handshake_impl_def parse decode_handshake_request_def demo_env_def
       demo_hello_def edge_simps utf8_length_def utf8_width_def)
  moreover have "parseLegacyHandshakeInfo (Some (JObj [(ustr ''peer_id'', JNum (of_nat (unat (5::peer_id)))), (ustr ''network_name'', JStr [110]),
                  (ustr ''network_secret_digest_base64'', JStr (rfc4648 ?D))])) =
     Inr \<lparr>li_peerId = 5, li_networkName = [110], li_networkSecretDigest = ?D\<rparr>"
    using readPeerId_u32 [of 5 "''peer_id''"] b64 ne
    by (simp add: parseLegacyHandshakeInfo_def parseObject_def field_def ustr_def readString_text decodeDigest_def D del: of_nat_unat)
  ultimately show ?thesis by simp
qed


definition demo_greeted :: server where
  "demo_greeted = demo_open\<lparr>net_conns := [(1, demo_hs)]\<rparr>"

lemma demo_greeting:
  "handleMessage demo_env 1 (WsBinary demo_frame) demo_open = admit demo_env 1 demo_greeted"
proof -
  have conn: "jget (net_conns demo_open) 1 = Some (createConnection demo_secure UNKNOWN_IP 1 2 5000)"
    and cfg: "srv_config demo_open = demo_config" and net: "net_conns demo_open = [(1, createConnection demo_secure UNKNOWN_IP 1 2 5000)]"
    by (simp_all add: demo_open_def demo_start_def new_server_def)
  have digest: "verify_network_secret_digest (generate_digest_from_str [110] [115]) [110] [115] = Inr True"
    by (simp add: verify_network_secret_digest_def constant_time_eq_iff DIGEST_SIZE_def)
  have answer: "build_legacy_handshake_response (we_codec demo_env) SERVER_PEER_ID [110] [115]
      = Inr (encode_header SERVER_PEER_ID 0 PACKET_TYPE_HANDSHAKE [])"
    by (simp add: build_legacy_handshake_response_def demo_env_def toy_codec_def SERVER_PEER_ID_def utf8_length_def utf8_width_def)
  have cipher: "new_legacy_cipher [115] = Inr \<lparr>key_128 = derive_key_128 [115]\<rparr>" by (simp add: new_legacy_cipher_def)
  have len: "length (encode_header SERVER_PEER_ID 0 PACKET_TYPE_HANDSHAKE []) = 16" by (simp add: encode_header_def edge_simps)
  have phase: "cn_phase (createConnection demo_secure UNKNOWN_IP 1 2 5000) = Msg1" by (simp add: createConnection_def)
  have size: "length demo_frame \<le> 1024" by (simp add: demo_frame_def)
  have now: "we_now demo_env = 5000" by (simp add: demo_env_def)
  have other: "5 \<noteq> SERVER_PEER_ID" by (simp add: SERVER_PEER_ID_def)
  have "handleMessage demo_env 1 (WsBinary demo_frame) demo_open =
     handleLegacyHandshake demo_env 1 demo_frame \<lparr>fromPeerId = 5, toPeerId = 0, packetType = 2, flags = 0, forwardCounter = 1,
        reserved = 0, payloadLength = 0\<rparr> demo_open"
    using size by (simp add: handleMessage_def st_run toUint8Array_def cfg demo_config_def demo_parse with_conn_Some [OF conn] phase del: One_nat_def)
  also have "\<dots> = admit demo_env 1 demo_greeted"
    using len
    by (simp add: handleLegacyHandshake_def st_run cfg demo_config_def demo_info digest answer cipher other
        upd_conn_def conn conn_send_def on_conn_def sendConnection_def now demo_greeted_def demo_hs_def
        createConnection_def connection_consts Let_def net jset_def del: One_nat_def)
  finally show ?thesis .
qed

definition demo_registered :: "route_state \<Rightarrow> ustring \<Rightarrow> server" where
  "demo_registered rs i = demo_greeted\<lparr>net_ctr := 3, rpc_core := Some (demo_core1 rs), srv_rooms := [([110], [(5, 1)])],
     srv_persistedRouteIds := [[110]], srv_pendingPuts := [([110], i)]\<rparr>"

lemma demo_register:
  "\<exists>rs i. registerConnection demo_env 1 demo_greeted = (Inr (), demo_registered rs i) \<and> demo_routes rs"
proof -
  obtain rs where rs: "core_add_peer sample_seed [110] 5 [] 5000 demo_core = (Inr (), demo_core1 rs)" "demo_routes rs"
    using demo_added by blast
  obtain i where i: "get_peer_route_id sample_seed [110] (demo_core1 rs) = (i, demo_core1 rs)"
    using demo_route_id [OF rs(2)] by blast
  have conn: "jget (net_conns demo_greeted) 1 = Some demo_hs" by (simp add: demo_greeted_def)
  have hs: "cn_networkName demo_hs = [110]" "cn_peerId demo_hs = 5" "cn_remotePublicKey demo_hs = []"
    by (simp_all add: demo_hs_def createConnection_def)
  have g: "srv_rooms demo_greeted = []" "net_ctr demo_greeted = 1" "rpc_core demo_greeted = Some demo_core" "rpc_states demo_greeted = []"
     "srv_persistedRouteIds demo_greeted = []" "srv_pendingPuts demo_greeted = []" "net_conns demo_greeted = [(1, demo_hs)]"
    by (simp_all add: demo_greeted_def demo_open_def demo_start_def new_server_def)
  have env: "we_group_seed demo_env n = sample_seed" "we_now demo_env = 5000" for n by (simp_all add: demo_env_def)
  have "registerConnection demo_env 1 demo_greeted = (Inr (), demo_registered rs i)"
    by (simp add: registerConnection_def with_conn_Some [OF conn] st_run hs g rooms_set_def Let_def jset_def addPeer_def with_conn_def
      on_core_seeded_def fresh_ctr_def on_core_def env rs(1) jdel_def persistPeerRouteId_def getPeerRouteId_def total_op_def i set_add_def
      demo_registered_def del: One_nat_def)
  with rs(2) show ?thesis by blast
qed


definition demo_peer :: connection where
  "demo_peer = completeHandshake demo_hs"

definition demo_released :: "route_state \<Rightarrow> ustring \<Rightarrow> server" where
  "demo_released rs i = (demo_registered rs i)\<lparr>net_conns := [(1, demo_peer)], srv_pendingHandshakes := 0, srv_pendingByIp := []\<rparr>"

lemma demo_released:
  "releaseHandshakeSlot UNKNOWN_IP (upd_conn 1 completeHandshake (demo_registered rs i)) = demo_released rs i"
  by (simp add: releaseHandshakeSlot_def upd_conn_def demo_registered_def demo_released_def demo_greeted_def demo_open_def demo_peer_def
      demo_start_def new_server_def jset_def jdel_def Let_def del: One_nat_def)

lemma demo_update:
  assumes "demo_routes rs"
  shows "\<exists>s'. sendRouteUpdate demo_env 1 False (demo_released rs i) = (Inr (), s') \<and>
     jget (net_conns s') 1 \<noteq> None \<and> conn_admin (the (jget (net_conns s') 1)) = conn_admin demo_peer"
proof -
  let ?s = "demo_released rs i"
  have conn: "jget (net_conns ?s) 1 = Some demo_peer" by (simp add: demo_released_def)
  obtain c where c: "build_route_update (we_codec demo_env) sample_seed [Some 7] [110] 5 (cn_serverSessionId demo_peer) False 5000 (demo_core1 rs) = (Inr [], c)"
    using demo_build [OF assms] by blast
  have hs: "cn_networkName demo_peer = [110]" "cn_peerId demo_peer = 5" "cn_mode demo_peer = LegacyMode"
     "cn_legacyCipher demo_peer = Some \<lparr>key_128 = derive_key_128 [115]\<rparr>"
    by (simp_all add: demo_peer_def demo_hs_def createConnection_def completeHandshake_def)
  have g: "net_ctr ?s = 3" "rpc_core ?s = Some (demo_core1 rs)" "rpc_states ?s = []" "rpc_serverPeerId ?s = SERVER_PEER_ID"
     "net_conns ?s = [(1, demo_peer)]"
    by (simp_all add: demo_released_def demo_registered_def demo_greeted_def demo_open_def demo_start_def new_server_def)
  have env: "we_group_seed demo_env n = sample_seed" "we_now demo_env = 5000" "we_draws demo_env n = [Some 7]"
    "we_bytes demo_env n 12 = Some (replicate 12 1)" for n by (simp_all add: demo_env_def)
  obtain pkt where pkt: "createPacket SERVER_PEER_ID 5 8 [] = Inr pkt" "length pkt = 16"
    by (simp add: createPacket_def edge_simps Let_def u8_set_def writeU32_def)
  obtain enc where enc: "legacy_encrypt_packet (we_crypto demo_env) (Some (replicate 12 1)) \<lparr>key_128 = derive_key_128 [115]\<rparr> pkt = Inr enc"
      "length enc = 44"
    using pkt(2) by (simp add: legacy_encrypt_packet_def demo_env_def toy_crypto_def edge_simps Let_def)
  have send: "sendConnection 5000 enc demo_peer = (Inr (), demo_peer\<lparr>cn_sentBytesInWindow := 60, cn_sentFramesInWindow := 2,
      cn_sent := cn_sent demo_peer @ [enc]\<rparr>)"
    using enc(2) by (simp add: sendConnection_def demo_peer_def demo_hs_def completeHandshake_def createConnection_def connection_consts Let_def)
  show ?thesis
    by (simp add: sendRouteUpdate_def with_conn_Some [OF conn] st_run g set_state_def Let_def flushRouteUpdate_def new_sync_state_def jset_def
       with_conn_def on_core_seeded_def fresh_ctr_def on_core_def env hs c sendControl_def pkt conn_encrypt_def enc conn_send_def on_conn_def send
       conn_admin_def del: One_nat_def)
qed


lemma demo_admit: "\<exists>s'. admit demo_env 1 demo_greeted = (Inr (), s') \<and> admin s' 1 = Some (conn_admin demo_peer)"
proof -
  obtain rs i where reg: "registerConnection demo_env 1 demo_greeted = (Inr (), demo_registered rs i)" "demo_routes rs"
    using demo_register by blast
  obtain s' where up: "sendRouteUpdate demo_env 1 False (demo_released rs i) = (Inr (), s')"
     "jget (net_conns s') 1 \<noteq> None" "conn_admin (the (jget (net_conns s') 1)) = conn_admin demo_peer"
    using demo_update [OF reg(2)] by blast
  have conn: "jget (net_conns (upd_conn 1 completeHandshake (demo_registered rs i))) 1 = Some demo_peer"
    by (simp add: upd_conn_def demo_registered_def demo_greeted_def demo_peer_def)
  have peer: "cn_networkName demo_peer = [110]" "cn_clientIp demo_peer = UNKNOWN_IP" "cn_phase demo_peer = Ready"
    by (simp_all add: demo_peer_def demo_hs_def createConnection_def completeHandshake_def)
  have same: "demo_released rs i\<lparr>srv_resyncPending := []\<rparr> = demo_released rs i" "srv_resyncPending (demo_released rs i) = []"
    by (simp_all add: demo_released_def demo_registered_def demo_greeted_def demo_open_def demo_start_def new_server_def)
  have room: "rooms_peers (srv_rooms (demo_released rs i)) [110] = [1]" and here: "jget (net_conns (demo_released rs i)) 1 = Some demo_peer"
    by (simp_all add: demo_released_def demo_registered_def rooms_peers_def jvalues_def)
  have "broadcastRouteUpdate demo_env [110] None False (demo_released rs i) = (Inr (), s')"
    using up(1) peer by (simp add: broadcastRouteUpdate_def broadcast_with_def st_run room with_conn_Some [OF here] del: One_nat_def)
  then have "admit demo_env 1 demo_greeted = (Inr (), s')"
    using reg(1) by (simp add: admit_def st_run with_conn_Some [OF conn] peer demo_released announcePeer_def same del: One_nat_def)
  then show ?thesis using up(2,3) by (auto simp: admin_def)
qed

definition demo_ready :: server where
  "demo_ready = snd (handle_event (MessageEvent demo_env 1 (WsBinary demo_frame)) demo_open)"

lemma demo_reachable: "reachable demo_open" "reachable demo_ready" "admin demo_ready 1 = Some (conn_admin demo_peer)"
proof -
  have "reachable demo_start" by (rule reach_init) (auto simp: fresh_server_def demo_start_def)
  moreover have "server_step demo_start demo_open"
    using event [of "FetchEvent demo_env demo_storage demo_request 1 2" demo_start "Inr ()" demo_open] demo_fetch by simp
  ultimately show o: "reachable demo_open" by (rule reach_step)
  have msg: "handle_event (MessageEvent demo_env 1 (WsBinary demo_frame)) demo_open = admit demo_env 1 demo_greeted"
    using demo_greeting demo_admit by (auto simp: on_message_def st_catch_def)
  then show "admin demo_ready 1 = Some (conn_admin demo_peer)" using demo_admit by (auto simp: demo_ready_def)
  have "enabled (MessageEvent demo_env 1 (WsBinary demo_frame)) demo_open" by (simp add: demo_open_def jhas_def)
  then have "server_step demo_open demo_ready" by (rule event) (auto simp: demo_ready_def intro: prod_eqI)
  with o show "reachable demo_ready" by (rule reach_step)
qed

lemma demo_ready_config: "srv_config demo_ready = demo_config"
proof -
  have "server_ok demo_open" using demo_reachable(1) by (rule server_run.reach_inv)
  moreover have "admin demo_open 1 \<noteq> None" by (simp add: demo_open_def admin_def)
  ultimately obtain s' where "on_message demo_env 1 (WsBinary demo_frame) demo_open = (Inr (), s')" "moves demo_open s'"
    using on_message_total [of demo_open 1 demo_env] by (auto simp: server_ok_def)
  then show ?thesis by (simp add: demo_ready_def moves_def) (simp add: demo_open_def demo_start_def new_server_def)
qed

lemma demo_ready_conn:
  obtains c where "jget (net_conns demo_ready) 1 = Some c" "cn_phase c = Ready" "cn_networkName c = [110]" "cn_peerId c = 5"
proof -
  obtain c where c: "jget (net_conns demo_ready) 1 = Some c" "conn_admin c = conn_admin demo_peer"
    using demo_reachable(3) by (auto simp: admin_def)
  from c(2) have "cn_phase c = Ready" "cn_networkName c = [110]" "cn_peerId c = 5"
    by (auto simp: conn_admin_def demo_peer_def demo_hs_def createConnection_def completeHandshake_def)
  with c(1) that show ?thesis by blast
qed

end
