(* ===== verification/Admission.thy ===== *)
theory Admission
  imports ServerScenario
begin

unbundle bit_operations_syntax

text \<open>
  How a connection becomes ready: of all the events of the server only the last message of a handshake that
  has verified the secret of the network admits a connection, and it admits the one it came from.
\<close>

section \<open>Computations that admit nobody\<close>

text \<open>The connection is not ready: it is unknown, still in its handshake, or closed.\<close>

definition outside :: "conn_id \<Rightarrow> server \<Rightarrow> bool" where
  "outside cid s \<longleftrightarrow> \<not> is_ready s cid"

lemma outside_admin: "outside cid s \<longleftrightarrow> (\<forall>f. admin s cid = Some f \<longrightarrow> cf_phase f \<noteq> Ready)"
  by (auto simp: outside_def is_ready_admin)

lemma outside_view: "inv_view s' = inv_view s \<Longrightarrow> outside cid s' = outside cid s"
  by (simp add: outside_admin inv_view_def)

lemma outside_steady [intro]: "steady m \<Longrightarrow> keeps (outside cid) m"
  unfolding steady_def unchanged_def keeps_def using outside_view by blast

lemma outside_calm [intro]: "calm m \<Longrightarrow> keeps (outside cid) m"
  unfolding unchanged_def keeps_def using outside_view [OF inv_view_server_view] by blast

lemma keeps_for_each [intro]: "(\<And>x. keeps I (f x)) \<Longrightarrow> keeps I (for_each f xs)"
  by (induction xs) auto

lemma outside_secure [intro]: "keeps (outside d) (on_secure cid f)"
  by (auto simp: keeps_def on_secure_def outside_def is_ready_def split: option.splits prod.splits if_splits)

lemma outside_upd [intro]:
  "(\<And>c. cn_phase (g c) = Ready \<Longrightarrow> d = cid \<Longrightarrow> cn_phase c = Ready) \<Longrightarrow> keeps (outside d) (st_modify (upd_conn cid g))"
  by (auto simp: keeps_def upd_conn_def outside_def is_ready_def split: option.splits)

lemma outside_fields [simp]:
  "outside d (drop_connection cid s) = outside d s" "outside d (releaseHandshakeSlot ip s) = outside d s"
  "outside d (clear_idle_timer s) = outside d s" "outside d (leave_room c cid s) = outside d s"
  "outside d (s\<lparr>srv_rooms := r\<rparr>) = outside d s" "outside d (s\<lparr>srv_maintenanceTimer := b\<rparr>) = outside d s"
  "outside d (scheduleMaintenance s) = outside d s" "outside d (put_done p s) = outside d s" "outside d (put_failed p s) = outside d s"
  by (simp_all add: outside_def is_ready_def drop_connection_def releaseHandshakeSlot_def clear_idle_timer_def leave_room_def
      scheduleMaintenance_def put_done_def put_failed_def Let_def)

lemma outside_dispose [simp]: "outside d (disposeConnection E cid s) = outside d s"
  by (auto simp: outside_def is_ready_def disposeConnection_def split: option.splits)

lemma outside_close_with: "(\<And>c. keeps (outside d) (remove c)) \<Longrightarrow> keeps (outside d) (close_with remove cid code reason)"
  unfolding close_with_def
  by (intro keeps_with_conn keeps_if keeps_basic keeps_finally outside_calm [OF calm_socket_close]) blast

lemma outside_broadcast_peers:
  "(\<And>c. keeps (outside d) (remove c)) \<Longrightarrow> keeps (outside d) (broadcast_peers remove E ex ff cids)"
proof (induction cids)
  case Nil
  show ?case unfolding broadcast_peers.simps by (rule keeps_basic)
next
  case (Cons cid cids)
  then show ?case
    unfolding broadcast_peers.simps
    by (intro keeps_seq keeps_with_conn keeps_if keeps_basic keeps_catch outside_close_with outside_steady [OF steady_net(6)]) blast+
qed

lemma outside_broadcast_with: "(\<And>c. keeps (outside d) (remove c)) \<Longrightarrow> keeps (outside d) (broadcast_with remove E n ex ff)"
  unfolding broadcast_with_def by (intro keeps_bind keeps_basic outside_broadcast_peers)

lemma outside_removeConnection: "keeps (outside d) (removeConnection depth E cid)"
proof (induction depth arbitrary: cid)
  case 0
  show ?case unfolding removeConnection.simps by (rule keeps_basic)
next
  case (Suc depth)
  have "outside d s \<Longrightarrow> outside d (upd_conn cid (\<lambda>c. c\<lparr>cn_phase := Closed\<rparr>) s)" for s
    using outside_upd [of "\<lambda>c. c\<lparr>cn_phase := Closed\<rparr>" d cid] by (simp add: keeps_def)
  with Suc show ?case
    unfolding removeConnection.simps
    by (intro keeps_with_conn keeps_if keeps_basic keeps_seq keeps_modify outside_calm [OF removePeer_calm] outside_broadcast_with)
       simp_all
qed

lemma outside_removal [intro]:
  "keeps (outside d) (close E cid code reason)" "keeps (outside d) (remove_conn E cid)"
  "keeps (outside d) (broadcastRouteUpdate E network ex ff)" "keeps (outside d) (failConnection E cid)"
  using outside_close_with [OF outside_removeConnection] outside_removeConnection outside_broadcast_with [OF outside_removeConnection]
  by (auto simp: keeps_def close_def remove_conn_def broadcastRouteUpdate_def failConnection_def)

lemma outside_ready [intro]: "keeps (outside d) (handleReadyPacket E cid frame pkt)"
  unfolding handleReadyPacket_def relay_def Let_def
  by (intro keeps_if keeps_bind keeps_basic keeps_with_conn keeps_case_option keeps_catch outside_removal
      outside_steady [OF steady_resolve] outside_steady [OF steady_clear_rpc] outside_steady [OF steady_handleRequest]
      outside_steady [OF steady_handleResponse] outside_steady [OF steady_net(1)])

lemma outside_handshake1 [intro]: "keeps (outside d) (handleHandshakeMessage1 E cid frame ptype)"
  unfolding handleHandshakeMessage1_def
  by (intro keeps_bind keeps_basic keeps_if keeps_case_option keeps_seq outside_secure outside_removal outside_upd
      outside_steady [OF steady_net(1)] outside_steady [OF steady_net(3)]) simp_all

lemma outside_register [intro]: "keeps (outside d) (registerConnection E cid)"
  unfolding registerConnection_def
  by (intro keeps_with_conn keeps_bind keeps_seq keeps_basic keeps_modify keeps_case_option keeps_if outside_removal
      outside_steady [OF steady_addPeer] outside_steady [OF steady_persist]) simp

lemma outside_announce [intro]: "keeps (outside d) (announcePeer E network)"
  unfolding announcePeer_def
  by (intro keeps_bind keeps_seq keeps_basic outside_removal outside_steady [OF steady_fields(1)])

text \<open>The end of a handshake admits its own connection only.\<close>

lemma outside_admit: "d \<noteq> cid \<Longrightarrow> keeps (outside d) (admit E cid)"
  unfolding admit_def
  by (intro keeps_seq keeps_with_conn keeps_modify outside_register outside_announce outside_upd) simp_all

lemma outside_maintenance: "keeps (outside d) (maintenance E)"
  unfolding maintenance_def maintain_def close_failed_def
  by (intro keeps_seq keeps_bind keeps_modify keeps_case_prod keeps_basic keeps_for_each keeps_case_option keeps_with_conn keeps_if
      keeps_catch outside_removal outside_steady [OF steady_maintainPeer] outside_calm [OF cleanExpired_calm]) simp_all

lemma outside_basic:
  "keeps (outside d) (st_modify (\<lambda>s. s\<lparr>srv_storage := a s\<rparr>))"
  "keeps (outside d) (st_modify (\<lambda>s. s\<lparr>srv_localPrivateKey := b s, srv_localPublicKey := c s\<rparr>))"
  "keeps (outside d) (st_modify (\<lambda>s. s\<lparr>rpc_core := e s, rpc_states := [], rpc_serverPeerId := f s\<rparr>))"
  "keeps (outside d) (st_modify (\<lambda>s. s\<lparr>srv_persistedRouteIds := g s, srv_resyncPending := h s\<rparr>))"
  "keeps (outside d) (st_modify (\<lambda>s. s\<lparr>srv_identityReady := True\<rparr>))"
  by (simp_all add: keeps_def outside_def is_ready_def)

lemma outside_restore: "keeps (outside d) (restore_entries es)"
proof (induction es)
  case Nil
  show ?case unfolding restore_entries.simps by (rule keeps_basic)
next
  case (Cons e es)
  have "keeps (outside d) (restore_entry e)"
    unfolding restore_entry_def prod.case setPeerRouteId_def
    by (intro keeps_case_option keeps_case_json keeps_basic keeps_if keeps_catch keeps_seq outside_basic outside_steady [OF steady_on_core])
  with Cons show ?case unfolding restore_entries.simps by (intro keeps_seq)
qed

lemma outside_identity: "keeps (outside d) (ensureIdentity E S)"
  unfolding ensureIdentity_def initIdentity_def resolve_keypair_def newEasyTierRpc_def restoreRouteIds_def
  by (intro keeps_bind keeps_basic keeps_if keeps_seq keeps_case_prod keeps_case_option outside_basic outside_restore
      outside_steady [OF steady_on_core] outside_steady [OF steady_net(3)])

lemma outside_fetch:
  assumes "outside d s"
  shows "outside d (snd (server_fetch E S req hi lo s))"
proof -
  have "outside d (snd (ensureIdentity E S s))" using outside_identity assms unfolding keeps_def by blast
  moreover have "outside d (accept_connection sec ip hi lo now t)" if "outside d t" for sec ip hi lo now t
    using that by (auto simp: accept_connection_def Let_def) (auto simp: outside_def is_ready_def createConnection_def)
  ultimately show ?thesis using assms
    by (auto simp: server_fetch_def Let_def split: prod.splits sum.splits)
qed

section \<open>The two ways in\<close>

text \<open>What the last message of each handshake has to show.\<close>

definition noise_proof :: "world_env \<Rightarrow> bytes \<Rightarrow> packet \<Rightarrow> connection \<Rightarrow> server \<Rightarrow> bool" where
  "noise_proof E frame pkt c s \<longleftrightarrow> cn_phase c = Msg3 \<and> packetType (header pkt) = pt_code NoiseHandshakeMsg3 \<and>
     is_ok (fst (finish_msg3 (we_crypto E) (we_codec E) (we_now E) frame (cn_secure c) (net_sessions s)))"

definition legacy_proof :: "world_env \<Rightarrow> bytes \<Rightarrow> packet \<Rightarrow> connection \<Rightarrow> server \<Rightarrow> bool" where
  "legacy_proof E frame pkt c s \<longleftrightarrow> cn_phase c = Msg1 \<and> packetType (header pkt) = pt_code Handshake \<and>
     cfg_connectionMode (srv_config s) = LegacyMode \<and>
     (\<exists>j info secret. parse_legacy_handshake (we_crypto E) (we_codec E) frame = Inr j \<and>
        parseLegacyHandshakeInfo (Some j) = Inr info \<and> jget (cfg_rooms (srv_config s)) (li_networkName info) = Some secret \<and>
        verify_network_secret_digest (li_networkSecretDigest info) (li_networkName info) secret = Inr True)"

lemma handshake3_proof:
  assumes c: "jget (net_conns s) cid = Some c" and out: "outside d s" and inn: "\<not> outside d (snd (handleHandshakeMessage3 E cid frame ptype s))"
  shows "d = cid \<and> ptype = pt_code NoiseHandshakeMsg3 \<and>
     is_ok (fst (finish_msg3 (we_crypto E) (we_codec E) (we_now E) frame (cn_secure c) (net_sessions s)))"
proof (intro conjI)
  let ?g = "finish_msg3 (we_crypto E) (we_codec E) (we_now E) frame"
  show "d = cid"
  proof (rule ccontr)
    assume "d \<noteq> cid"
    then have "keeps (outside d) (handleHandshakeMessage3 E cid frame ptype)"
      unfolding handleHandshakeMessage3_def
      by (intro keeps_if keeps_bind keeps_basic keeps_with_conn keeps_seq outside_secure outside_upd outside_admit) simp_all
    with out inn show False by (simp add: keeps_def)
  qed
  show "ptype = pt_code NoiseHandshakeMsg3" using out inn by (auto simp: handleHandshakeMessage3_def split: if_splits)
  show "is_ok (fst (?g (cn_secure c) (net_sessions s)))"
  proof (rule ccontr)
    assume no: "\<not> ?thesis"
    obtain r s1 where g: "on_secure cid ?g s = (r, s1)" by fastforce
    with no c have "\<exists>e. r = Inl e"
      by (auto simp: on_secure_def is_ok_def split: if_splits prod.splits sum.splits)
    then have "snd (handleHandshakeMessage3 E cid frame ptype s) \<in> {s, s1}"
      using g by (auto simp: handleHandshakeMessage3_def st_bind_def)
    moreover have "outside d s1" using outside_secure [of d cid ?g] out g by (auto simp: keeps_def dest: spec [of _ s])
    ultimately show False using out inn by auto
  qed
qed

lemma legacy_handshake_proof:
  assumes out: "outside d s" and inn: "\<not> outside d (snd (handleLegacyHandshake E cid frame h s))"
  shows "d = cid \<and> cfg_connectionMode (srv_config s) = LegacyMode \<and>
     (\<exists>j info secret. parse_legacy_handshake (we_crypto E) (we_codec E) frame = Inr j \<and>
        parseLegacyHandshakeInfo (Some j) = Inr info \<and> jget (cfg_rooms (srv_config s)) (li_networkName info) = Some secret \<and>
        verify_network_secret_digest (li_networkSecretDigest info) (li_networkName info) secret = Inr True)"
proof (intro conjI)
  show "d = cid"
  proof (rule ccontr)
    assume "d \<noteq> cid"
    then have "keeps (outside d) (handleLegacyHandshake E cid frame h)"
      unfolding handleLegacyHandshake_def
      by (intro keeps_if keeps_bind keeps_basic keeps_case_option keeps_seq outside_removal outside_upd outside_admit
          outside_steady [OF steady_net(1)]) simp_all
    with out inn show False by (simp add: keeps_def)
  qed
  show "cfg_connectionMode (srv_config s) = LegacyMode"
    using out inn by (cases "cfg_connectionMode (srv_config s)") (auto simp: handleLegacyHandshake_def st_bind_def)
  have gone: "outside d (snd (close E cid code reason s))" for code reason using outside_removal(1) out unfolding keeps_def by blast
  show "\<exists>j info secret. parse_legacy_handshake (we_crypto E) (we_codec E) frame = Inr j \<and>
        parseLegacyHandshakeInfo (Some j) = Inr info \<and> jget (cfg_rooms (srv_config s)) (li_networkName info) = Some secret \<and>
        verify_network_secret_digest (li_networkSecretDigest info) (li_networkName info) secret = Inr True"
    using out inn gone
    by (auto simp: handleLegacyHandshake_def st_bind_def [of "st_gets f" for f] st_bind_def [of "st_lift r" for r] bind_res_def
        split: if_splits sum.splits option.splits)
qed

lemma message_proof:
  assumes out: "outside d s" and inn: "\<not> outside d (snd (on_message E cid m s))"
  shows "\<exists>frame pkt c. d = cid \<and> m = WsBinary frame \<and> parsePacket frame = Inr pkt \<and> jget (net_conns s) cid = Some c \<and>
     (noise_proof E frame pkt c s \<or> legacy_proof E frame pkt c s)"
proof -
  obtain r s1 where run: "handleMessage E cid m s = (r, s1)" by fastforce
  have in1: "\<not> outside d s1"
    using inn run outside_removal(4) [of d E cid] by (auto simp: on_message_def st_catch_def keeps_def split: sum.splits)
  then have "s1 \<noteq> s" using out by blast
  then obtain frame pkt c where m: "m = WsBinary frame" "parsePacket frame = Inr pkt" "jget (net_conns s) cid = Some c"
      "route_message E cid frame pkt c s = (r, s1)"
    using run by (auto simp: handleMessage_def st_bind_def toUint8Array_def with_conn_def route_message_def
        split: ws_data.splits sum.splits if_splits option.splits)
  have s1: "s1 = snd (route_message E cid frame pkt c s)" using m(4) by simp
  have no: "outside d (snd (handleReadyPacket E cid frame pkt s))" "outside d (snd (handleHandshakeMessage1 E cid frame pt s))" for pt
    using out outside_ready outside_handshake1 unfolding keeps_def by blast+
  show ?thesis
  proof (cases "cn_phase c")
    case Msg1
    then have "packetType (header pkt) = pt_code Handshake" "\<not> outside d (snd (handleLegacyHandshake E cid frame (header pkt) s))"
      using in1 no unfolding s1 by (simp_all add: route_message_def split: if_splits)
    with legacy_handshake_proof [OF out] m Msg1 show ?thesis by (auto simp: legacy_proof_def)
  next
    case Msg3
    then have "\<not> outside d (snd (handleHandshakeMessage3 E cid frame (packetType (header pkt)) s))"
      using in1 unfolding s1 by (simp add: route_message_def)
    with handshake3_proof [OF m(3) out] m Msg3 show ?thesis by (auto simp: noise_proof_def)
  next
    case Ready
    then show ?thesis using in1 no unfolding s1 by (simp add: route_message_def)
  next
    case Closed
    then show ?thesis using in1 out unfolding s1 by (simp add: route_message_def)
  qed
qed

section \<open>Property\<close>

text \<open>
  C1. A connection is only ever admitted by a proof of the network secret: when an event turns a connection that was not ready into
  a ready one, the event is a binary message of that very connection whose frame parses, and either the
  connection was waiting for the third Noise message and the core accepted this frame as one, or legacy
  mode is configured and the frame is a legacy handshake for a configured network whose secret digest verifies.
\<close>

theorem admission_needs_proof:
  assumes "handle_event e s = (r, s')" and "\<not> is_ready s cid" and "is_ready s' cid"
  shows "\<exists>E frame pkt c. e = MessageEvent E cid (WsBinary frame) \<and> parsePacket frame = Inr pkt \<and>
     jget (net_conns s) cid = Some c \<and> (noise_proof E frame pkt c s \<or> legacy_proof E frame pkt c s)"
proof -
  have out: "outside cid s" and inn: "\<not> outside cid (snd (handle_event e s))" using assms by (simp_all add: outside_def)
  have kept: "\<not> keeps (outside cid) (handle_event e)" using out inn by (auto simp: keeps_def)
  show ?thesis
  proof (cases e)
    case (MessageEvent E d m)
    then show ?thesis using message_proof [OF out, of E d m] inn by auto
  next
    case (FetchEvent E S req hi lo)
    then show ?thesis using outside_fetch [OF out] inn by simp
  next
    case (CloseEvent E d)
    then show ?thesis using kept outside_removal(2) by simp
  next
    case (TimeoutEvent E d)
    then show ?thesis using kept outside_removal(1) by (simp add: handshake_timeout_def [abs_def])
  next
    case (MaintenanceEvent E)
    then show ?thesis using kept outside_maintenance by simp
  next
    case (PutDoneEvent n i)
    then show ?thesis using out inn by simp
  next
    case (PutFailedEvent n i)
    then show ?thesis using out inn by simp
  next
    case (SocketEvent d st)
    have "keeps (outside cid) (handle_event e)" unfolding SocketEvent handle_event.simps by (rule outside_upd) simp
    with kept show ?thesis by blast
  qed
qed

theorem admission_needs_proof_witness:
  "\<exists>pkt c. parsePacket demo_frame = Inr pkt \<and> jget (net_conns demo_open) 1 = Some c \<and> cn_phase c = Msg1 \<and>
     legacy_proof demo_env demo_frame pkt c demo_open"
proof -
  let ?e = "MessageEvent demo_env 1 (WsBinary demo_frame)"
  have c: "jget (net_conns demo_open) 1 = Some (createConnection demo_secure UNKNOWN_IP 1 2 5000)" by (simp add: demo_open_def)
  have out: "\<not> is_ready demo_open 1" using c by (simp add: is_ready_def createConnection_def)
  have inn: "is_ready demo_ready 1" by (rule demo_ready_conn) (simp add: is_ready_def)
  have run: "handle_event ?e demo_open = (fst (handle_event ?e demo_open), demo_ready)" unfolding demo_ready_def by (rule prod.collapse [symmetric])
  obtain E frame pkt d where p: "?e = MessageEvent E 1 (WsBinary frame)" "parsePacket frame = Inr pkt"
      "jget (net_conns demo_open) 1 = Some d" "noise_proof E frame pkt d demo_open \<or> legacy_proof E frame pkt d demo_open"
    using admission_needs_proof [OF run out inn] by blast
  have d: "cn_phase d = Msg1" using p(3) c by (simp add: createConnection_def)
  with p show ?thesis by (auto simp: noise_proof_def)
qed

end
