(* ===== verification/ServerProps.thy ===== *)
theory ServerProps
  imports ServerScenario
begin

unbundle bit_operations_syntax

text \<open>
  The properties of the server, stated for every reachable state of the transition system of the theory
  ServerRun.
\<close>

section \<open>Lemmas for the properties\<close>

lemma reachable_ok: "reachable s \<Longrightarrow> server_ok s"
  by (rule server_run.reach_inv)

lemma ok_room:
  assumes "server_ok s"
  shows "rooms_get (srv_rooms s) n p = Some cid \<longleftrightarrow>
     (\<exists>c. jget (net_conns s) cid = Some c \<and> cn_phase c = Ready \<and> cn_networkName c = n \<and> cn_peerId c = p)"
proof -
  have inv: "rooms_ok {} s" "ready_ok {} s" using assms by (simp_all add: server_ok_def srv_inv_def)
  show ?thesis
  proof
    assume "rooms_get (srv_rooms s) n p = Some cid"
    then obtain f where "admin s cid = Some f" "cf_networkName f = n" "cf_peerId f = p" "cf_phase f = Ready"
      using inv(1) unfolding rooms_ok_def by blast
    then show "\<exists>c. jget (net_conns s) cid = Some c \<and> cn_phase c = Ready \<and> cn_networkName c = n \<and> cn_peerId c = p"
      by (auto simp: admin_def)
  next
    assume "\<exists>c. jget (net_conns s) cid = Some c \<and> cn_phase c = Ready \<and> cn_networkName c = n \<and> cn_peerId c = p"
    then obtain c where c: "jget (net_conns s) cid = Some c" "cn_phase c = Ready" "cn_networkName c = n" "cn_peerId c = p"
      by blast
    from inv(2) [unfolded ready_ok_def, rule_format, OF admin_Some [OF c(1)]] c(2-4)
    show "rooms_get (srv_rooms s) n p = Some cid" by simp
  qed
qed

lemma ok_conn:
  assumes "server_ok s" "jget (net_conns s) cid = Some c" "cn_phase c = Ready"
  shows "admitted (srv_config s) (conn_admin c)" "rpc_core s \<noteq> None"
proof -
  have a: "admin s cid = Some (conn_admin c)" using assms(2) by (rule admin_Some)
  have "facts_ok {} s" using assms(1) by (simp add: server_ok_def srv_inv_def)
  from this [unfolded facts_ok_def, rule_format, OF a] assms(3)
  show "admitted (srv_config s) (conn_admin c)" by (simp add: conn_ok_def)
  have "open_conn s cid" using a assms(3) by (simp add: open_conn_def)
  then show "rpc_core s \<noteq> None" using assms(1) srv_inv_exist by (auto simp: server_ok_def)
qed

lemma next_hop_is_target: "core_get_next_hop network target c = 0 \<or> core_get_next_hop network target c = target"
  by (simp add: core_get_next_hop_def get_next_hop_def split: option.splits)

lemma resolve_room:
  assumes "server_ok s" "rpc_core s \<noteq> None"
  shows "resolveRecipient n p s = (Inr (rooms_get (srv_rooms s) n p), s)"
proof (cases "rooms_get (srv_rooms s) n p")
  case None
  from assms(2) obtain core where core: "rpc_core s = Some core" by blast
  have "s\<lparr>rpc_core := Some core\<rparr> = s" using core by simp
  then show ?thesis
    using None core next_hop_is_target [of n p core]
    by (simp add: resolveRecipient_def findPeer_def st_bind_def getNextHop_def on_core_def total_op_def)
next
  case (Some cid)
  then have "is_ready s cid" using ok_room [OF assms(1)] by (auto simp: is_ready_def)
  with Some show ?thesis by (simp add: resolveRecipient_def findPeer_def st_bind_def)
qed

lemma resolve_stored:
  assumes run: "resolve_keypair E S s = (Inr kp, s1)"
    and b64: "b64_encode (we_crypto E) = rfc4648" and pub: "\<And>k. length (x25519_public (we_crypto E) k) = 32"
    and rnd: "\<And>n b. we_bytes E n 32 = Some b \<Longrightarrow> length b = 32"
    and none: "\<not> (truthy (cfg_localPrivateKey (srv_config s)) \<and> truthy (cfg_localPublicKey (srv_config s)))"
  shows "\<exists>p q. kp = (Some p, Some q) \<and> stored_identity (srv_storage s1) = Some (p, q)"
proof (cases "stored_identity (srv_storage s)")
  case (Some pq)
  then show ?thesis using run none by (cases pq) (auto simp: resolve_keypair_def st_bind_def split: if_splits)
next
  case None
  obtain b where b: "we_bytes E (net_ctr s) 32 = Some b"
    using run none None by (auto simp: resolve_keypair_def st_bind_def fresh_ctr_def generate_keypair_def split: if_splits option.splits)
  let ?p = "rfc4648 b" and ?q = "rfc4648 (x25519_public (we_crypto E) b)"
  have ok: "server_decodeBase64Key ?p = Inr b" "server_decodeBase64Key ?q = Inr (x25519_public (we_crypto E) b)"
    using rnd [OF b] pub by (simp_all add: server_decodeBase64Key_def atob_rfc4648)
  have "parseGeneratedKeypair (Some (JObj [(ustr ''private_key_base64'', JStr ?p), (ustr ''public_key_base64'', JStr ?q)])) = Inr kp'
      \<Longrightarrow> kp' = \<lparr>gk_privateKey = ?p, gk_publicKey = ?q\<rparr>" for kp'
    by (auto simp: parseGeneratedKeypair_def parseObject_def field_def ustr_def readString_def bind_res_def split: sum.splits if_splits)
  then have "kp = (Some ?p, Some ?q)" "srv_storage s1 = jset IDENTITY_STORAGE_KEY
       (JObj [(ustr ''privateKey'', JStr ?p), (ustr ''publicKey'', JStr ?q)]) (srv_storage s)"
    using run none None b b64
    by (auto simp: resolve_keypair_def st_bind_def st_seq_def fresh_ctr_def generate_keypair_def split: if_splits sum.splits)
  moreover have "field [(ustr ''privateKey'', JStr ?p), (ustr ''publicKey'', JStr ?q)] ''privateKey'' = Some (JStr ?p)"
    "field [(ustr ''privateKey'', JStr ?p), (ustr ''publicKey'', JStr ?q)] ''publicKey'' = Some (JStr ?q)"
    by (simp_all add: field_def ustr_def)
  ultimately show ?thesis using ok by (simp add: stored_identity_def isValidKeypair_def is_ok_def)
qed


definition identity_view :: "server \<Rightarrow> ustring \<times> ustring \<times> (ustring, json) jmap" where
  "identity_view s = (srv_localPrivateKey s, srv_localPublicKey s, srv_storage s)"

lemma identity_view_core: "unchanged identity_view (on_core f)" "unchanged identity_view fresh_ctr"
  by (simp_all add: identity_view_def unchanged_def on_core_def fresh_ctr_def split_beta split: option.split)

lemma restore_entries_identity: "unchanged identity_view (restore_entries es)"
proof (induction es)
  case (Cons e es)
  have "unchanged identity_view (restore_entry e)"
    unfolding restore_entry_def prod.case setPeerRouteId_def
    by (auto split: option.split json.split intro!: unchanged_catch unchanged_seq unchanged_modify identity_view_core
        simp: identity_view_def)
  with Cons show ?case unfolding restore_entries.simps by (intro unchanged_seq)
qed (simp add: unchanged_def)

lemma initIdentity_keys:
  assumes run: "initIdentity E S s = (Inr (), s')"
  shows "\<exists>p q s1. resolve_keypair E S s = (Inr (Some p, Some q), s1) \<and>
     srv_localPrivateKey s' = p \<and> srv_localPublicKey s' = q \<and> srv_storage s' = srv_storage s1"
proof -
  let ?rest = "\<lambda>pk. st_bind (st_gets srv_config) (\<lambda>cfg. st_bind (st_lift (pk cfg)) (\<lambda>pk.
        st_seq (newEasyTierRpc E pk (cfg_hostname cfg) SERVER_PEER_ID (cfg_disableRelayData cfg)) (restoreRouteIds S)))"
  have rest: "unchanged identity_view (?rest pk)" for pk
    unfolding newEasyTierRpc_def restoreRouteIds_def
    by (intro unchanged_bind unchanged_seq unchanged_basic unchanged_if unchanged_modify restore_entries_identity identity_view_core)
       (simp add: identity_view_def)
  obtain a b s1 where r: "resolve_keypair E S s = (Inr (a, b), s1)" "truthy a" "truthy b"
      "?rest (\<lambda>cfg. case cfg_localPublicKeyBytes cfg of Some bs \<Rightarrow> Inr bs | None \<Rightarrow> server_decodeBase64Key (the b))
         (s1\<lparr>srv_localPrivateKey := the a, srv_localPublicKey := the b\<rparr>) = (Inr (), s')"
    using run by (auto simp: initIdentity_def st_bind_def [of "resolve_keypair E S"] st_seq_def [of "st_modify f" for f]
        st_bind_def [of "st_modify f" for f] split: prod.splits sum.splits if_splits)
  from unchangedD [OF rest r(4)] have "srv_localPrivateKey s' = the a" "srv_localPublicKey s' = the b" "srv_storage s' = srv_storage s1"
    by (simp_all add: identity_view_def)
  moreover obtain p q where "a = Some p" "b = Some q" using r(2,3) by (auto simp: truthy_def split: option.splits)
  ultimately show ?thesis using r(1) by auto
qed

section \<open>Properties\<close>

text \<open>
  C3. No event of a reachable server throws and none runs forever: every request, message, socket close, handshake
  timeout, maintenance round, finished or failed storage write is handled to its end. In particular the
  mutual recursion of \<open>close\<close>, \<open>removeConnection\<close> and \<open>broadcastRouteUpdate\<close> never exhausts a call depth of
  one more than the number of open connections.
\<close>

theorem server_events_return:
  assumes "reachable s" and "enabled e s"
  shows "\<exists>s'. handle_event e s = (Inr (), s')"
  using event_returns [OF reachable_ok [OF assms(1)] assms(2)] by blast

theorem server_events_return_witness: "\<exists>s'. handle_event (CloseEvent demo_env 1) demo_ready = (Inr (), s')"
proof -
  have "enabled (CloseEvent demo_env 1) demo_ready"
    using demo_reachable(3) by (auto simp: admin_def jhas_def split: option.splits)
  from server_events_return [OF demo_reachable(2) this] show ?thesis .
qed

text \<open>
  C4. The handshake quotas are exact and bounded in every reachable state: the global counter is the number of open
  connections that are not admitted yet, the counter of each client address is the number of those that
  came from it, and neither exceeds its limit; the connection table never exceeds its own.
\<close>

theorem handshake_quotas_exact:
  assumes "reachable s"
  shows "srv_pendingHandshakes s = length (filter (unready s) (srv_connections s)) \<and>
     (\<forall>ip. pending_of s ip = length (filter (\<lambda>cid. unready s cid \<and> from_ip s ip cid) (srv_connections s))) \<and>
     srv_pendingHandshakes s \<le> 256 \<and> length (srv_connections s) \<le> 2048 \<and>
     (\<forall>ip. pending_of s ip \<le> cfg_maxPendingPerIp (srv_config s))"
  using reachable_ok [OF assms]
  by (auto simp: server_ok_def srv_inv_def slots_ok_def within_quotas_def MAX_CONNECTIONS_def MAX_PENDING_HANDSHAKES_def)

theorem handshake_quotas_exact_witness:
  "pending_of demo_open UNKNOWN_IP = length (filter (\<lambda>cid. unready demo_open cid \<and> from_ip demo_open UNKNOWN_IP cid) [1]) \<and>
     pending_of demo_open UNKNOWN_IP = 1"
proof -
  have "srv_connections demo_open = [1]" "pending_of demo_open UNKNOWN_IP = 1" by (simp_all add: demo_open_def pending_of_def)
  with handshake_quotas_exact [OF demo_reachable(1)] show ?thesis by metis
qed

text \<open>
  C5. In every reachable state the room registry holds exactly the admitted connections: looking up a network and a peer
  id yields a connection if and only if that connection is admitted with this network and this peer id.
\<close>

theorem rooms_hold_admitted:
  assumes "reachable s"
  shows "rooms_get (srv_rooms s) n p = Some cid \<longleftrightarrow>
     (\<exists>c. jget (net_conns s) cid = Some c \<and> cn_phase c = Ready \<and> cn_networkName c = n \<and> cn_peerId c = p)"
  by (rule ok_room [OF reachable_ok [OF assms]])

theorem rooms_hold_admitted_witness: "rooms_get (srv_rooms demo_ready) [110] 5 = Some 1"
  using rooms_hold_admitted [OF demo_reachable(2)] by (rule iffD2) (rule demo_ready_conn, blast)

text \<open>
  C2. Whoever is admitted has authenticated: a connection that is \<open>ready\<close> in a reachable state uses the configured
  connection mode and belongs to a configured network; in secure mode its Noise session is authenticated for exactly
  the peer id and network it is registered with, in legacy mode its cipher is the one derived from the
  secret of that network.
\<close>

theorem admitted_are_authenticated:
  assumes "reachable s" and "jget (net_conns s) cid = Some c" and "cn_phase c = Ready"
  shows "cn_mode c = cfg_connectionMode (srv_config s) \<and>
     (\<exists>secret. jget (cfg_rooms (srv_config s)) (cn_networkName c) = Some secret \<and>
        (case cn_mode c of
           SecureMode \<Rightarrow> authenticated (cn_secure c) \<and> sp_peer_id (cn_secure c) = Some (cn_peerId c) \<and>
                         sp_network_name (cn_secure c) = Some (cn_networkName c)
         | LegacyMode \<Rightarrow> (\<exists>cipher. cn_legacyCipher c = Some cipher \<and> new_legacy_cipher secret = Inr cipher)))"
  using ok_conn(1) [OF reachable_ok [OF assms(1)] assms(2,3)]
  by (auto simp: admitted_def peer_facts_def split: option.splits connection_mode.splits)

theorem admitted_are_authenticated_witness:
  "\<exists>c cipher. jget (net_conns demo_ready) 1 = Some c \<and> cn_mode c = LegacyMode \<and> cn_legacyCipher c = Some cipher \<and>
     new_legacy_cipher [115] = Inr cipher"
proof -
  obtain c where c: "jget (net_conns demo_ready) 1 = Some c" "cn_phase c = Ready" "cn_networkName c = [110]" by (rule demo_ready_conn)
  from admitted_are_authenticated [OF demo_reachable(2) c(1,2)] c(1,3) show ?thesis
    by (auto simp: demo_ready_config demo_config_def)
qed

text \<open>
  C7. An error while a message is handled costs the sender its connection and nothing else is thrown: the listener
  returns, and the connection is closed, out of the connection table and out of every room.
\<close>

theorem protocol_error_closes:
  assumes "reachable s" and "jhas (net_conns s) cid" and "handleMessage E cid d s = (Inl err, s1)"
  shows "\<exists>s' c. on_message E cid d s = (Inr (), s') \<and> jget (net_conns s') cid = Some c \<and> cn_phase c = Closed \<and>
     cid \<notin> set (srv_connections s') \<and> (\<forall>n p. rooms_get (srv_rooms s') n p \<noteq> Some cid)"
proof -
  have inv: "srv_inv {} {} s" using reachable_ok [OF assms(1)] by (simp add: server_ok_def)
  have ex: "admin s cid \<noteq> None" by (rule admin_exists [OF assms(2)])
  have k: "kept {cid} s s1" using tripleD [OF message_triple [OF ex] _ assms(3)] inv by simp
  then have ex1: "admin s1 cid \<noteq> None" using ex by (simp add: moves_def)
  have code: "valid_code 4401" by (simp add: valid_code_def)
  obtain s' where s': "failConnection E cid s1 = (Inr (), s')" "srv_inv {cid} {} s'" "closes {cid} s1 s'" "\<not> open_conn s' cid"
    using close_total [OF conjunct1 [OF k] ex1 code] by (auto simp: failConnection_def)
  have run: "on_message E cid d s = (Inr (), s')" using assms(3) s'(1) by (simp add: on_message_def st_catch_def)
  have "admin s' cid \<noteq> None" using closes_exists [OF s'(3)] ex1 by blast
  then obtain c where c: "jget (net_conns s') cid = Some c" by (auto simp: admin_def)
  have ok: "srv_inv {} {} s'" using srv_inv_closed [OF s'(2,4)] by simp
  have "cn_phase c = Closed" using s'(4) c by (simp add: open_conn_Some)
  moreover have "cid \<notin> set (srv_connections s')" using ok s'(4) by (simp add: srv_inv_def table_ok_def)
  moreover have "rooms_get (srv_rooms s') n p \<noteq> Some cid" for n p
    using ok s'(4) by (fastforce simp: srv_inv_def rooms_ok_def open_conn_def)
  ultimately show ?thesis using run c by blast
qed

theorem protocol_error_closes_witness:
  "\<exists>s' c. on_message demo_env 1 (WsText []) demo_open = (Inr (), s') \<and> jget (net_conns s') 1 = Some c \<and> cn_phase c = Closed"
proof -
  have "jhas (net_conns demo_open) 1" by (simp add: demo_open_def jhas_def)
  moreover obtain err where "handleMessage demo_env 1 (WsText []) demo_open = (Inl err, demo_open)"
    by (simp add: handleMessage_def st_bind_def toUint8Array_def)
  ultimately show ?thesis using protocol_error_closes [OF demo_reachable(1)] by blast
qed


lemma sendConnection_sent:
  "sendConnection now pkt c = (Inr (), d) \<Longrightarrow> cn_sent d = cn_sent c @ [pkt]"
  "sendConnection now pkt c = (Inl e, d) \<Longrightarrow> cn_sent d = cn_sent c"
  by (auto simp: sendConnection_def Let_def split: if_splits)

lemma conn_send_caught:
  assumes "jget (net_conns s) t = Some d"
  shows "st_catch (conn_send E t pkt) h s =
     (case sendConnection (we_now E) pkt d of
        (Inr u, d') \<Rightarrow> (Inr u, s\<lparr>net_conns := jset t d' (net_conns s)\<rparr>)
      | (Inl e, d') \<Rightarrow> h e (s\<lparr>net_conns := jset t d' (net_conns s)\<rparr>))"
  using assms by (simp add: st_catch_def conn_send_def on_conn_def split: prod.splits sum.splits)

text \<open>
  C6. A frame addressed to another peer goes to that peer of the sender's own network and to nobody else. Of
  a ready sender in a reachable state, \<open>relay\<close> drops the frame and changes nothing when it is a data frame
  and relaying is disabled, or when no peer of the sender's network with the addressed id is admitted
  (which includes a peer that is only reachable through another one); it throws and changes nothing when the frame
  cannot be classified or its hop counter is used up; otherwise the admitted addressee, and no other
  connection, is sent the frame with its hop counter incremented, and is closed when it cannot take it.
\<close>

theorem relay_reaches_addressee_only:
  assumes "reachable s" and "jget (net_conns s) cid = Some c" and "cn_phase c = Ready"
  shows "relay E cid frame h s =
      (case (if cfg_disableRelayData (srv_config s) then isRelayDataPacket frame else Inr False) of
         Inl e \<Rightarrow> (Inl e, s)
       | Inr True \<Rightarrow> (Inr (), s)
       | Inr False \<Rightarrow>
           (case rooms_get (srv_rooms s) (cn_networkName c) (toPeerId h) of
              None \<Rightarrow> (Inr (), s)
            | Some t \<Rightarrow>
                (case incrementForwardCounter frame of
                   Inl e \<Rightarrow> (Inl e, s)
                 | Inr forwarded \<Rightarrow>
                     (case sendConnection (we_now E) forwarded (conn_of s t) of
                        (Inr u, d) \<Rightarrow> (Inr u, s\<lparr>net_conns := jset t d (net_conns s)\<rparr>)
                      | (Inl e, d) \<Rightarrow> close E t 1013 ''outbound relay capacity exceeded''
                          (s\<lparr>net_conns := jset t d (net_conns s)\<rparr>)))))
    \<and> (\<forall>t. rooms_get (srv_rooms s) (cn_networkName c) (toPeerId h) = Some t \<longleftrightarrow>
         (\<exists>d. jget (net_conns s) t = Some d \<and> cn_phase d = Ready \<and> cn_networkName d = cn_networkName c
            \<and> cn_peerId d = toPeerId h))
    \<and> (\<forall>t forwarded r d. sendConnection (we_now E) forwarded (conn_of s t) = (r, d) \<longrightarrow>
         cn_sent d = cn_sent (conn_of s t) @ (if r = Inr () then [forwarded] else []))"
    (is "?relay = ?full \<and> ?rooms \<and> ?sent")
proof -
  have ok: "server_ok s" by (rule reachable_ok [OF assms(1)])
  note core = ok_conn(2) [OF ok assms(2,3)]
  have room: "rooms_get (srv_rooms s) (cn_networkName c) (toPeerId h) = Some t \<longleftrightarrow>
      (\<exists>d. jget (net_conns s) t = Some d \<and> cn_phase d = Ready \<and> cn_networkName d = cn_networkName c \<and> cn_peerId d = toPeerId h)" for t
    using ok_room [OF ok] by blast
  have send: "st_catch (conn_send E t forwarded) k s =
     (case sendConnection (we_now E) forwarded (conn_of s t) of
        (Inr u, d') \<Rightarrow> (Inr u, s\<lparr>net_conns := jset t d' (net_conns s)\<rparr>)
      | (Inl e, d') \<Rightarrow> k e (s\<lparr>net_conns := jset t d' (net_conns s)\<rparr>))"
    if t: "rooms_get (srv_rooms s) (cn_networkName c) (toPeerId h) = Some t" for t forwarded k
  proof -
    from t room obtain d where d: "jget (net_conns s) t = Some d" by blast
    then have "conn_of s t = d" by (simp add: conn_of_def)
    then show ?thesis by (simp only: conn_send_caught [OF d])
  qed
  have sent: "cn_sent d = cn_sent (conn_of s t) @ (if r = Inr () then [forwarded] else [])"
    if "sendConnection (we_now E) forwarded (conn_of s t) = (r, d)" for t forwarded r d
    using that sendConnection_sent by (cases r) auto
  have "?relay = ?full"
  proof (cases "rooms_get (srv_rooms s) (cn_networkName c) (toPeerId h)")
    case None
    with resolve_room [OF ok core] show ?thesis
      by (auto simp: relay_def st_bind_def with_conn_Some [OF assms(2)] split: sum.splits bool.splits)
  next
    case (Some t)
    with resolve_room [OF ok core] send [OF Some] show ?thesis
      by (auto simp: relay_def st_bind_def with_conn_Some [OF assms(2)] split: sum.splits bool.splits)
  qed
  with room sent show ?thesis by simp
qed

theorem relay_reaches_addressee_only_witness:
  "\<exists>forwarded. relay demo_env 1 demo_frame \<lparr>fromPeerId = 5, toPeerId = 5, packetType = 1, flags = 0, forwardCounter = 1,
        reserved = 0, payloadLength = 0\<rparr> demo_ready =
     (case sendConnection (we_now demo_env) forwarded (conn_of demo_ready 1) of
        (Inr u, d) \<Rightarrow> (Inr u, demo_ready\<lparr>net_conns := jset 1 d (net_conns demo_ready)\<rparr>)
      | (Inl e, d) \<Rightarrow> close demo_env 1 1013 ''outbound relay capacity exceeded''
          (demo_ready\<lparr>net_conns := jset 1 d (net_conns demo_ready)\<rparr>))"
proof -
  obtain c where c: "jget (net_conns demo_ready) 1 = Some c" "cn_phase c = Ready" "cn_networkName c = [110]" "cn_peerId c = 5"
    by (rule demo_ready_conn)
  let ?h = "\<lparr>fromPeerId = 5, toPeerId = 5, packetType = 1, flags = 0, forwardCounter = 1, reserved = 0, payloadLength = 0\<rparr>"
  obtain fwd where fwd: "incrementForwardCounter demo_frame = Inr fwd"
    by (simp add: incrementForwardCounter_def demo_frame_def byte_at_def edge_simps Let_def)
  have "\<not> cfg_disableRelayData (srv_config demo_ready)" by (simp add: demo_ready_config demo_config_def)
  moreover have "rooms_get (srv_rooms demo_ready) [110] 5 = Some 1"
    using ok_room [OF reachable_ok [OF demo_reachable(2)]] c by blast
  ultimately show ?thesis
    using conjunct1 [OF relay_reaches_addressee_only [OF demo_reachable(2) c(1,2), where h = ?h and E = demo_env and frame = demo_frame]]
      c(3) fwd by (intro exI [of _ fwd]) (simp del: One_nat_def)
qed

text \<open>
  C33. The relay keeps its X25519 identity across restarts: when no key pair is configured, an instance that is
  started on the storage of an earlier one resolves the key pair the earlier one used, whether that one
  found or generated it. The base64 encoder is taken to be the standard one, keys and random draws to have 32 bytes.
\<close>

theorem identity_survives_restart:
  assumes first: "ensureIdentity E S (new_server cfg storage sessions ctr) = (Inr (), s1)"
    and second: "ensureIdentity E' S' (new_server cfg storage' sessions' ctr') = (Inr (), s2)"
    and kept: "jget storage' IDENTITY_STORAGE_KEY = jget (srv_storage s1) IDENTITY_STORAGE_KEY"
    and unset: "\<not> (truthy (cfg_localPrivateKey cfg) \<and> truthy (cfg_localPublicKey cfg))"
    and base64: "b64_encode (we_crypto E) = rfc4648" and public_length: "\<forall>k. length (x25519_public (we_crypto E) k) = 32"
    and random_length: "\<forall>n b. we_bytes E n 32 = Some b \<longrightarrow> length b = 32"
  shows "srv_localPrivateKey s2 = srv_localPrivateKey s1 \<and> srv_localPublicKey s2 = srv_localPublicKey s1"
proof -
  have init: "\<exists>t. initIdentity E S (new_server cfg storage sessions ctr) = (Inr (), t) \<and> s = t\<lparr>srv_identityReady := True\<rparr>"
    if "ensureIdentity E S (new_server cfg storage sessions ctr) = (Inr (), s)" for E S storage sessions ctr s
    using that by (auto simp: ensureIdentity_def st_bind_def st_seq_def new_server_def split: prod.splits sum.splits)
  obtain t1 where t1: "initIdentity E S (new_server cfg storage sessions ctr) = (Inr (), t1)" "s1 = t1\<lparr>srv_identityReady := True\<rparr>"
    using init [OF first] by blast
  obtain t2 where t2: "initIdentity E' S' (new_server cfg storage' sessions' ctr') = (Inr (), t2)" "s2 = t2\<lparr>srv_identityReady := True\<rparr>"
    using init [OF second] by blast
  obtain p q u1 where 1: "resolve_keypair E S (new_server cfg storage sessions ctr) = (Inr (Some p, Some q), u1)"
      "srv_localPrivateKey t1 = p" "srv_localPublicKey t1 = q" "srv_storage t1 = srv_storage u1"
    using initIdentity_keys [OF t1(1)] by blast
  have "stored_identity (srv_storage u1) = Some (p, q)"
    using resolve_stored [OF 1(1) base64] public_length random_length unset by (auto simp: new_server_def)
  then have stored: "stored_identity storage' = Some (p, q)"
    using kept 1(4) t1(2) by (simp add: stored_identity_def)
  obtain p' q' u2 where 2: "resolve_keypair E' S' (new_server cfg storage' sessions' ctr') = (Inr (Some p', Some q'), u2)"
      "srv_localPrivateKey t2 = p'" "srv_localPublicKey t2 = q'"
    using initIdentity_keys [OF t2(1)] by blast
  have "p' = p" "q' = q"
    using 2(1) unset stored by (auto simp: resolve_keypair_def st_bind_def new_server_def split: if_splits)
  with 1 2 t1(2) t2(2) show ?thesis by simp
qed

definition demo_keyless :: server_config where
  "demo_keyless = demo_config\<lparr>cfg_localPrivateKey := None, cfg_localPublicKey := None, cfg_localPublicKeyBytes := None\<rparr>"

definition demo_env32 :: world_env where
  "demo_env32 = demo_env\<lparr>we_crypto := (we_crypto demo_env)\<lparr>x25519_public := (\<lambda>_. replicate 32 2)\<rparr>\<rparr>"

definition demo_generated :: server where
  "demo_generated = snd (ensureIdentity demo_env32 demo_storage (new_server demo_keyless [] [] 0))"

text \<open>The record of the key pair is not taken for a route id.\<close>

lemma identity_is_no_route: "restore_entry (IDENTITY_STORAGE_KEY, v) = st_return ()"
  by (simp add: restore_entry_def strip_prefix_def IDENTITY_STORAGE_KEY_def ROUTE_ID_STORAGE_PREFIX_def ustr_def)

lemma rfc4648_key: "rfc4648 (replicate 32 a) \<noteq> []"
  by (rule rfc4648_nonempty) simp

lemma demo_generates:
  "ensureIdentity demo_env32 demo_storage (new_server demo_keyless [] [] 0) = (Inr (), demo_generated)"
  "srv_storage demo_generated = [(IDENTITY_STORAGE_KEY, JObj [(ustr ''privateKey'', JStr (rfc4648 (replicate 32 1))),
      (ustr ''publicKey'', JStr (rfc4648 (replicate 32 2)))])]"
proof -
  have gen: "parseGeneratedKeypair (Some (JObj [(ustr ''private_key_base64'', JStr (rfc4648 (replicate 32 1))),
      (ustr ''public_key_base64'', JStr (rfc4648 (replicate 32 2)))])) =
      Inr \<lparr>gk_privateKey = rfc4648 (replicate 32 1), gk_publicKey = rfc4648 (replicate 32 2)\<rparr>"
    using rfc4648_key by (simp add: parseGeneratedKeypair_def parseObject_def field_def ustr_def readString_text del: replicate.simps)
  have kp: "generate_keypair (we_crypto demo_env32) (we_bytes demo_env32 n 32) = Inr (JObj [(ustr ''private_key_base64'', JStr (rfc4648 (replicate 32 1))),
      (ustr ''public_key_base64'', JStr (rfc4648 (replicate 32 2)))])" for n
    by (simp add: generate_keypair_def demo_env32_def demo_env_def)
  have "\<exists>s. ensureIdentity demo_env32 demo_storage (new_server demo_keyless [] [] 0) = (Inr (), s) \<and>
     srv_storage s = [(IDENTITY_STORAGE_KEY, JObj [(ustr ''privateKey'', JStr (rfc4648 (replicate 32 1))),
      (ustr ''publicKey'', JStr (rfc4648 (replicate 32 2)))])]"
    using rfc4648_key
    by (simp add: ensureIdentity_def initIdentity_def resolve_keypair_def newEasyTierRpc_def new_rpc_core_def restoreRouteIds_def
     st_run new_server_def demo_keyless_def demo_config_def demo_storage_def fresh_ctr_def SERVER_PEER_ID_def truthy_def
     stored_identity_def kp gen identity_is_no_route server_decodeBase64Key_def atob_rfc4648 jset_def del: replicate.simps)
  then show "ensureIdentity demo_env32 demo_storage (new_server demo_keyless [] [] 0) = (Inr (), demo_generated)"
    "srv_storage demo_generated = [(IDENTITY_STORAGE_KEY, JObj [(ustr ''privateKey'', JStr (rfc4648 (replicate 32 1))),
      (ustr ''publicKey'', JStr (rfc4648 (replicate 32 2)))])]"
    by (auto simp: demo_generated_def)
qed

lemma demo_restarts:
  "\<exists>s. ensureIdentity demo_env32 demo_storage (new_server demo_keyless (srv_storage demo_generated) [] 5) = (Inr (), s)"
proof -
  have stored: "stored_identity (srv_storage demo_generated) = Some (rfc4648 (replicate 32 1), rfc4648 (replicate 32 2))"
    unfolding demo_generates(2)
    by (simp add: stored_identity_def isValidKeypair_def field_def ustr_def is_ok_def server_decodeBase64Key_def atob_rfc4648 del: replicate.simps)
  show ?thesis
    using rfc4648_key stored unfolding demo_generates(2)
    by (simp add: ensureIdentity_def initIdentity_def resolve_keypair_def newEasyTierRpc_def new_rpc_core_def restoreRouteIds_def
     st_run new_server_def demo_keyless_def demo_config_def demo_storage_def fresh_ctr_def SERVER_PEER_ID_def truthy_def
     identity_is_no_route server_decodeBase64Key_def atob_rfc4648 del: replicate.simps)
qed

theorem identity_survives_restart_witness:
  "srv_localPublicKey (snd (ensureIdentity demo_env32 demo_storage (new_server demo_keyless (srv_storage demo_generated) [] 5)))
     = srv_localPublicKey demo_generated"
proof -
  have env: "b64_encode (we_crypto demo_env32) = rfc4648" "\<forall>k. length (x25519_public (we_crypto demo_env32) k) = 32"
    "\<forall>n b. we_bytes demo_env32 n 32 = Some b \<longrightarrow> length b = 32"
    by (simp_all add: demo_env32_def demo_env_def)
  have unset: "\<not> (truthy (cfg_localPrivateKey demo_keyless) \<and> truthy (cfg_localPublicKey demo_keyless))"
    by (simp add: demo_keyless_def truthy_def)
  obtain s2 where "ensureIdentity demo_env32 demo_storage (new_server demo_keyless (srv_storage demo_generated) [] 5) = (Inr (), s2)"
    using demo_restarts by blast
  with identity_survives_restart [OF demo_generates(1) this refl unset env] show ?thesis by simp
qed

text \<open>
  C32. An authenticated reconnect replaces the previous connection: when a connection in its handshake is registered under
  a network and peer id that another connection holds, it takes that place, and the other one is closed and
  out of the connection table.
\<close>

theorem reconnect_replaces:
  assumes "entering cid f s" and "rooms_get (srv_rooms s) (cf_networkName f) (cf_peerId f) = Some old"
    and "registerConnection E cid s = (r, s')"
  shows "rooms_get (srv_rooms s') (cf_networkName f) (cf_peerId f) = Some cid \<and> \<not> open_conn s' old \<and>
     old \<notin> set (srv_connections s')"
proof -
  from assms(1) have "admin s cid = Some f" by (simp add: entering_def)
  then obtain c where c: "jget (net_conns s) cid = Some c" "f = conn_admin c" by (rule entering_conn)
  obtain s2 where s2: "(case rooms_get (srv_rooms s) (cf_networkName f) (cf_peerId f) of
               None \<Rightarrow> st_return ()
             | Some old \<Rightarrow> if old \<noteq> cid then close E old 4000 ''replaced by an authenticated reconnect'' else st_return ())
      (s\<lparr>srv_rooms := snd (rooms_set (cf_networkName f) (cf_peerId f) cid (srv_rooms s))\<rparr>) = (Inr (), s2)"
    "registered cid f s2" "\<not> open_conn s2 old"
    using replace_old [OF assms(1), of E] assms(2) by blast
  have rest: "st_seq (addPeer E cid) (persistPeerRouteId E (cn_networkName c)) s2 = (r, s')"
    using assms(3) s2(1) by (simp add: registerConnection_def with_conn_Some [OF c(1)] c(2) st_seq_def st_bind_def
        rooms.set_previous)
  have "steady (st_seq (addPeer E cid) (persistPeerRouteId E (cn_networkName c)))" by auto
  then have view: "inv_view s' = inv_view s2" using rest unfolding steady_def by (blast dest: unchangedD)
  have "registered cid f s'" "\<not> open_conn s' old" using s2(2,3) inv_view_inv(3,4) [OF view] by simp_all
  moreover from this have "old \<notin> set (srv_connections s')" by (simp add: registered_def srv_inv_def table_ok_def)
  ultimately show ?thesis by (simp add: registered_def)
qed

text \<open>The reconnect of the admitted peer: a second socket that has just been told who its client is.\<close>

definition demo_again :: server where
  "demo_again = upd_conn (fresh_id demo_ready) (\<lambda>c. c\<lparr>cn_peerId := 5, cn_networkName := [110], cn_mode := LegacyMode\<rparr>)
     (accept_connection demo_secure UNKNOWN_IP 1 2 5000 demo_ready)"

definition demo_new :: connection where
  "demo_new = createConnection demo_secure UNKNOWN_IP 1 2 5000"

lemma demo_entering:
  "entering (fresh_id demo_ready) (conn_admin (demo_new\<lparr>cn_peerId := 5, cn_networkName := [110], cn_mode := LegacyMode\<rparr>)) demo_again"
  "srv_rooms demo_again = srv_rooms demo_ready"
proof -
  let ?s = "accept_connection demo_secure UNKNOWN_IP 1 2 5000 demo_ready" and ?cid = "fresh_id demo_ready"
  have ok: "server_ok demo_ready" by (rule reachable_ok [OF demo_reachable(2)])
  obtain c where "jget (net_conns demo_ready) 1 = Some c" "cn_phase c = Ready" by (rule demo_ready_conn)
  from ok_conn(2) [OF ok this] have inv: "srv_inv {} {} ?s" using ok by (intro accept_inv) (simp_all add: server_ok_def)
  have conn: "jget (net_conns ?s) ?cid = Some demo_new"
    by (simp add: accept_connection_def scheduleMaintenance_def Let_def demo_new_def)
  have ent: "entering ?cid (conn_admin demo_new) ?s"
    by (rule entering_start [OF inv admin_Some [OF conn]]) (simp add: pre_ready_def demo_new_def createConnection_def)
  show "entering ?cid (conn_admin (demo_new\<lparr>cn_peerId := 5, cn_networkName := [110], cn_mode := LegacyMode\<rparr>)) demo_again"
    unfolding demo_again_def
    by (rule entering_alters(1) [OF ent alters_upd_conn [OF conn]])
       (simp_all add: pre_ready_def demo_new_def createConnection_def)
  show "srv_rooms demo_again = srv_rooms demo_ready"
    by (simp add: demo_again_def accept_connection_def scheduleMaintenance_def Let_def)
qed

theorem reconnect_replaces_witness: "\<not> open_conn (snd (registerConnection demo_env (fresh_id demo_ready) demo_again)) 1"
proof -
  obtain c where c: "jget (net_conns demo_ready) 1 = Some c" "cn_phase c = Ready" "cn_networkName c = [110]" "cn_peerId c = 5"
    by (rule demo_ready_conn)
  have "rooms_get (srv_rooms demo_again) [110] 5 = Some 1"
    using ok_room [OF reachable_ok [OF demo_reachable(2)]] c demo_entering(2) by auto
  with reconnect_replaces [OF demo_entering(1) _ prod.collapse [symmetric]] show ?thesis by simp
qed

text \<open>The connections that are open and not admitted, as the quotas count them.\<close>

lemma pending_card:
  assumes "srv_inv X Y s"
  shows "srv_pendingHandshakes s = card {d. unready s d}" "pending_of s ip = card {d. unready s d \<and> from_ip s ip d}"
    "finite {d. unready s d}"
proof -
  have t: "distinct (srv_connections s)" "unready s d \<Longrightarrow> d \<in> set (srv_connections s)" for d
    using assms by (auto simp: srv_inv_def table_ok_def unready_def open_conn_def split: option.splits)
  have card: "length (filter P (srv_connections s)) = card {d. P d}" if "\<And>d. P d \<Longrightarrow> unready s d" for P
  proof -
    have "{d. P d} = set (filter P (srv_connections s))" using t(2) that by auto
    then show ?thesis using t(1) by (metis distinct_card distinct_filter)
  qed
  show "srv_pendingHandshakes s = card {d. unready s d}" "pending_of s ip = card {d. unready s d \<and> from_ip s ip d}"
    using assms card [of "unready s"] card [of "\<lambda>d. unready s d \<and> from_ip s ip d"] by (simp_all add: srv_inv_def slots_ok_def)
  show "finite {d. unready s d}" using t(2) by (auto intro: finite_subset [of _ "set (srv_connections s)"])
qed

lemma closes_unready:
  assumes "closes {cid} s s'" and "\<not> open_conn s' cid"
  shows "unready s' d \<longleftrightarrow> unready s d \<and> d \<noteq> cid" "unready s' d \<Longrightarrow> from_ip s' ip d \<longleftrightarrow> from_ip s ip d"
  using closes_admin [OF assms(1), of d] assms(2)
  by (cases "d = cid"; fastforce simp: unready_def open_conn_def from_ip_def split: option.splits)+

text \<open>
  C8. No handshake can hold its slot forever: in every reachable state each open connection that is not admitted has its
  handshake timer running, and when the timer fires the connection is closed and out of the table, and
  exactly its slot, in the global count and in that of its client's address, is free again.
\<close>

theorem handshake_timeout_frees_slot:
  assumes "reachable s" and "jget (net_conns s) cid = Some c" and "cn_phase c \<noteq> Ready" and "cn_phase c \<noteq> Closed"
  shows "enabled (TimeoutEvent E cid) s \<and>
     (\<exists>s' c'. handle_event (TimeoutEvent E cid) s = (Inr (), s') \<and>
        jget (net_conns s') cid = Some c' \<and> cn_phase c' = Closed \<and> cid \<notin> set (srv_connections s') \<and>
        srv_pendingHandshakes s = srv_pendingHandshakes s' + 1 \<and>
        (\<forall>ip. pending_of s ip = pending_of s' ip + (if ip = cn_clientIp c then 1 else 0)))"
proof -
  have inv: "srv_inv {} {} s" using reachable_ok [OF assms(1)] by (simp add: server_ok_def)
  note a = admin_Some [OF assms(2)]
  have "cn_handshakeTimer c"
    using inv [unfolded srv_inv_def facts_ok_def] a assms(3,4) by (auto dest!: spec [of _ cid])
  then have en: "enabled (TimeoutEvent E cid) s" using assms(2) by simp
  have code: "valid_code 4408" by (simp add: valid_code_def)
  obtain s' where s': "close E cid 4408 ''secure handshake timeout'' s = (Inr (), s')" "srv_inv {} {} s'"
      "closes {cid} s s'" "\<not> open_conn s' cid"
    using close_total [OF inv _ code, of cid] a by blast
  have "admin s' cid \<noteq> None" using closes_exists [OF s'(3)] a by blast
  then obtain c' where c': "jget (net_conns s') cid = Some c'" by (auto simp: admin_def)
  have closed: "cn_phase c' = Closed" using s'(4) c' by (simp add: open_conn_Some)
  have out: "cid \<notin> set (srv_connections s')" using s'(2,4) by (simp add: srv_inv_def table_ok_def)
  have was: "unready s cid" "from_ip s ip cid \<longleftrightarrow> ip = cn_clientIp c" for ip using a assms(3,4) by (auto simp: unready_def from_ip_def)
  note u = closes_unready [OF s'(3,4)]
  have "{d. unready s d} = insert cid {d. unready s' d}" "cid \<notin> {d. unready s' d}" using u(1) was(1) by auto
  then have total: "srv_pendingHandshakes s = srv_pendingHandshakes s' + 1"
    using pending_card [OF inv] pending_card [OF s'(2)] by simp
  have "pending_of s ip = pending_of s' ip + (if ip = cn_clientIp c then 1 else 0)" for ip
  proof -
    have "{d. unready s d \<and> from_ip s ip d} = (if ip = cn_clientIp c then {cid} else {}) \<union> {d. unready s' d \<and> from_ip s' ip d}"
      "cid \<notin> {d. unready s' d \<and> from_ip s' ip d}"
      using u was by auto
    moreover have "finite {d. unready s' d \<and> from_ip s' ip d}" using pending_card(3) [OF s'(2)] by simp
    ultimately show ?thesis
      by (cases "ip = cn_clientIp c") (simp_all add: pending_card(2) [OF inv] pending_card(2) [OF s'(2)])
  qed
  with en s'(1) c' closed out total show ?thesis by (auto simp: handshake_timeout_def)
qed

theorem handshake_timeout_frees_slot_witness:
  "\<exists>s'. handle_event (TimeoutEvent demo_env 1) demo_open = (Inr (), s') \<and> srv_pendingHandshakes s' = 0 \<and> pending_of s' UNKNOWN_IP = 0"
proof -
  have c: "jget (net_conns demo_open) 1 = Some (createConnection demo_secure UNKNOWN_IP 1 2 5000)" by (simp add: demo_open_def)
  have n: "srv_pendingHandshakes demo_open = 1" "pending_of demo_open UNKNOWN_IP = 1" by (simp_all add: demo_open_def pending_of_def)
  have p: "cn_phase (createConnection demo_secure UNKNOWN_IP 1 2 5000) \<noteq> Ready" "cn_phase (createConnection demo_secure UNKNOWN_IP 1 2 5000) \<noteq> Closed"
    "cn_clientIp (createConnection demo_secure UNKNOWN_IP 1 2 5000) = UNKNOWN_IP"
    by (simp_all add: createConnection_def)
  from handshake_timeout_frees_slot [OF demo_reachable(1) c p(1,2), of demo_env] n p(3) show ?thesis by fastforce
qed

end
