(* ===== verification/Worker.thy ===== *)
theory Worker
  imports ServerProps
begin

unbundle bit_operations_syntax

text \<open>
  The Worker, \<^verbatim>\<open>src/index.ts\<close>: the health check, the checks before a request is passed on, and the Durable
  Object behind it. The object is created by the platform when the first request is passed to it; its
  constructor reads the configuration again.
\<close>

section \<open>Operations\<close>

definition invalid_configuration :: string where
  "invalid_configuration = ''Server configuration is invalid''"

definition worker_fetch ::
    "easytier_env \<Rightarrow> (http_request \<Rightarrow> 's \<Rightarrow> http_response \<times> 's) \<Rightarrow> http_request \<Rightarrow> 's \<Rightarrow> http_response \<times> 's" where
  "worker_fetch env forward req s =
     (if hq_pathname req = ustr ''/healthz'' \<and> hq_method req = ustr ''GET''
      then (case readServerConfig env of
              Inr _ \<Rightarrow> (response 200 ''{ok: true}'', s)
            | Inl _ \<Rightarrow> (response 503 ''{ok: false, error: invalid server configuration}'', s))
      else if hq_pathname req \<noteq> ustr ''/'' then (response 404 ''Not found'', s)
      else if map_option js_toLowerCase (hq_upgrade req) \<noteq> Some (ustr ''websocket'')
      then (response 426 ''Expected a WebSocket upgrade'', s)
      else case readServerConfig env of
             Inl _ \<Rightarrow> (response 503 invalid_configuration, s)
           | Inr _ \<Rightarrow> forward req s)"

text \<open>The constructor of the object, and a request passed to an object that may not exist yet.\<close>

definition construct :: "easytier_env \<Rightarrow> (ustring, json) jmap \<Rightarrow> session_store \<Rightarrow> nat \<Rightarrow> server res" where
  "construct env storage sessions ctr =
     bind_res (readServerConfig env) (\<lambda>cfg. Inr (new_server cfg storage sessions ctr))"

lemma construct_reachable: "construct env storage sessions ctr = Inr s \<Longrightarrow> reachable s \<and> readServerConfig env = Inr (srv_config s)"
  by (auto simp: construct_def new_server_def fresh_server_def intro!: reach_init)

end
