(* ===== verification/KeyScript.thy ===== *)
theory KeyScript
  imports Config
begin

text \<open>
  The key generation script, \<^verbatim>\<open>scripts/generate-keypair.mjs\<close>: it takes the raw X25519 keys from the JWK export of
  Node, whose members are base64url texts without padding, and prints them in the base64 of the
  configuration. The exported members are arguments; the printed lines are the state.
\<close>

section \<open>The script\<close>

text \<open>
  \<open>Buffer.from(value, "base64url")\<close>: both alphabets are read, decoding stops at a padding sign, other characters
  are skipped and left-over bits are dropped.
\<close>

definition node_b64_value :: "nat \<Rightarrow> nat option" where
  "node_b64_value c = (if c = 45 then Some 62 else if c = 95 then Some 63 else b64_value c)"

definition buffer_from_base64url :: "ustring \<Rightarrow> bytes" where
  "buffer_from_base64url s = b64_groups (List.map_filter node_b64_value (takeWhile (\<lambda>c. c \<noteq> 61) s))"

definition fromBase64Url :: "ustring option \<Rightarrow> ustring res" where
  "fromBase64Url val =
     (if \<not> truthy val then raise ''Node did not export raw X25519 key material''
      else Inr (rfc4648 (buffer_from_base64url (the val))))"

definition console_log :: "ustring \<Rightarrow> (unit, ustring list) st" where
  "console_log line = st_modify (\<lambda>lines. lines @ [line])"

definition generate_keypair_script :: "ustring option \<Rightarrow> ustring option \<Rightarrow> (unit, ustring list) st" where
  "generate_keypair_script private_d public_x =
     st_bind (st_lift (fromBase64Url private_d)) (\<lambda>v.
     st_seq (console_log (ustr ''LOCAL_PRIVATE_KEY='' @ v))
     (st_bind (st_lift (fromBase64Url public_x)) (\<lambda>w.
      console_log (ustr ''LOCAL_PUBLIC_KEY='' @ w))))"

section \<open>What it prints\<close>

text \<open>The members \<open>d\<close> and \<open>x\<close> of an X25519 JWK are the base64url texts of the raw keys, without padding.\<close>

definition base64url_char :: "nat \<Rightarrow> nat" where
  "base64url_char v = (if v = 62 then 45 else if v = 63 then 95 else b64_char v)"

definition base64url :: "bytes \<Rightarrow> ustring" where
  "base64url bs = map base64url_char (sextets bs)"

lemma base64url_char_value: "v < 64 \<Longrightarrow> node_b64_value (base64url_char v) = Some v \<and> base64url_char v \<noteq> 61"
  using b64_char_plain [of v] by (auto simp: base64url_char_def node_b64_value_def) (auto simp: b64_char_def split: if_splits)

lemma map_filter_inverse: "(\<And>v. v \<in> set vs \<Longrightarrow> g (f v) = Some v) \<Longrightarrow> List.map_filter g (map f vs) = vs"
  by (induction vs) simp_all

lemma buffer_base64url: "buffer_from_base64url (base64url bs) = bs"
proof -
  have v: "node_b64_value (base64url_char v) = Some v" "base64url_char v \<noteq> 61" if "v \<in> set (sextets bs)" for v
    using sextets_small [of bs] that base64url_char_value by (auto simp: list_all_iff)
  have all: "takeWhile (\<lambda>c. c \<noteq> 61) (base64url bs) = base64url bs"
    using v(2) by (auto simp: base64url_def takeWhile_eq_all_conv)
  show ?thesis
    unfolding buffer_from_base64url_def all unfolding base64url_def using v(1) by (simp add: map_filter_inverse b64_groups_sextets)
qed

lemma sextets_empty: "sextets bs = [] \<longleftrightarrow> bs = []"
  by (cases bs rule: sextets.cases) simp_all

lemma base64url_empty: "base64url bs = [] \<longleftrightarrow> bs = []"
  by (simp add: base64url_def sextets_empty)

lemma fromBase64Url_key: "bs \<noteq> [] \<Longrightarrow> fromBase64Url (Some (base64url bs)) = Inr (rfc4648 bs)"
  by (simp add: fromBase64Url_def truthy_def buffer_base64url base64url_empty)

text \<open>A pair of keys the configuration takes over when the rest of it is accepted without keys.\<close>

lemma config_takes_keys:
  assumes "readServerConfig (env\<lparr>LOCAL_PRIVATE_KEY := None, LOCAL_PUBLIC_KEY := None\<rparr>) = Inr cfg"
    and "config_decodeBase64Key v ''LOCAL_PRIVATE_KEY'' = Inr k" "config_decodeBase64Key w ''LOCAL_PUBLIC_KEY'' = Inr pk"
    and "v \<noteq> []" "w \<noteq> []"
  shows "readServerConfig (env\<lparr>LOCAL_PRIVATE_KEY := Some v, LOCAL_PUBLIC_KEY := Some w\<rparr>) =
     Inr (cfg\<lparr>cfg_localPrivateKey := Some v, cfg_localPublicKey := Some w, cfg_localPublicKeyBytes := Some pk\<rparr>)"
  using assms by (auto simp: readServerConfig_def Let_def truthy_def bind_res_def split: sum.splits if_splits)

text \<open>
  C40. The printed key pair is the one the relay reads: for every exported pair of 32-byte keys the script prints the two
  assignments, and an otherwise valid configuration with these values is accepted, keeps every other setting
  and decodes the public key to the exported one.
\<close>

theorem printed_keys_accepted:
  assumes "length k = 32" and "length pk = 32"
    and "readServerConfig (env\<lparr>LOCAL_PRIVATE_KEY := None, LOCAL_PUBLIC_KEY := None\<rparr>) = Inr cfg"
  shows "\<exists>v w. generate_keypair_script (Some (base64url k)) (Some (base64url pk)) lines =
        (Inr (), lines @ [ustr ''LOCAL_PRIVATE_KEY='' @ v, ustr ''LOCAL_PUBLIC_KEY='' @ w]) \<and>
     config_decodeBase64Key v ''LOCAL_PRIVATE_KEY'' = Inr k \<and>
     readServerConfig (env\<lparr>LOCAL_PRIVATE_KEY := Some v, LOCAL_PUBLIC_KEY := Some w\<rparr>) =
        Inr (cfg\<lparr>cfg_localPrivateKey := Some v, cfg_localPublicKey := Some w, cfg_localPublicKeyBytes := Some pk\<rparr>)"
proof -
  have ne: "k \<noteq> []" "pk \<noteq> []" using assms(1,2) by auto
  then have ne': "rfc4648 k \<noteq> []" "rfc4648 pk \<noteq> []" by (simp_all add: rfc4648_def sextets_empty)
  have dec: "config_decodeBase64Key (rfc4648 bs) nm = Inr bs" if "length bs = 32" for bs nm
    using that by (simp add: config_decodeBase64Key_def atob_rfc4648)
  have "generate_keypair_script (Some (base64url k)) (Some (base64url pk)) lines =
        (Inr (), lines @ [ustr ''LOCAL_PRIVATE_KEY='' @ rfc4648 k, ustr ''LOCAL_PUBLIC_KEY='' @ rfc4648 pk])"
    using ne by (simp add: generate_keypair_script_def st_bind_def st_seq_def console_log_def fromBase64Url_key)
  with config_takes_keys [OF assms(3) dec [OF assms(1)] dec [OF assms(2)] ne'] dec [OF assms(1)] show ?thesis by blast
qed

theorem printed_keys_accepted_witness:
  "\<exists>v w cfg. generate_keypair_script (Some (base64url (replicate 32 1))) (Some (base64url (replicate 32 2))) [] =
        (Inr (), [ustr ''LOCAL_PRIVATE_KEY='' @ v, ustr ''LOCAL_PUBLIC_KEY='' @ w]) \<and>
     readServerConfig (sample_env\<lparr>MAX_FRAME_BYTES := None, LOCAL_PRIVATE_KEY := Some v, LOCAL_PUBLIC_KEY := Some w\<rparr>) = Inr cfg \<and>
     cfg_localPublicKeyBytes cfg = Some (replicate 32 2)"
proof -
  obtain cfg where "readServerConfig (sample_env\<lparr>MAX_FRAME_BYTES := None\<rparr>) = Inr cfg" by (rule sample_env_accepted)
  moreover have "sample_env\<lparr>MAX_FRAME_BYTES := None\<rparr> =
      (sample_env\<lparr>MAX_FRAME_BYTES := None\<rparr>)\<lparr>LOCAL_PRIVATE_KEY := None, LOCAL_PUBLIC_KEY := None\<rparr>"
    by (simp add: sample_env_def)
  ultimately have cfg: "readServerConfig ((sample_env\<lparr>MAX_FRAME_BYTES := None\<rparr>)\<lparr>LOCAL_PRIVATE_KEY := None, LOCAL_PUBLIC_KEY := None\<rparr>) = Inr cfg"
    by simp
  show ?thesis
    using printed_keys_accepted [OF _ _ cfg, of "replicate 32 1" "replicate 32 2" "[]"] by fastforce
qed

end
