(* ===== verification/BuildScript.thy ===== *)
theory BuildScript
  imports Store "HOL-Library.Sublist"
begin

text \<open>
  The build script, \<^verbatim>\<open>scripts/build-wasm.mjs\<close>: it looks for cargo, installs Rust in the CI of Cloudflare with an
  installer whose checksum it knows, builds the core into a temporary directory and exchanges the package
  directory at the end. The state is the file system; the network, the child processes and the failures of the
  file system are arguments, and the state also records the programs that were started.
\<close>

section \<open>The world of the script\<close>

text \<open>An absolute path is the list of its names; a file has its bytes and its mode.\<close>

type_synonym path = "string list"

datatype node = Dir | File bytes nat

type_synonym files = "(path, node) jmap"

type_synonym environ = "(string, string) jmap"

datatype program = Named string | At path

datatype arg = Word string | PathArg path

record spawn_options =
  so_cwd :: "path option"
  so_env :: environ
  so_stdio :: string
  so_shell :: bool

text \<open>A child process that cannot be started has an error code; one that is killed has no exit code.\<close>

datatype spawn_result = SpawnError string | Exited "int option"

text \<open>
  A start of a program: the file it was started from, how it ended and the files it left.
\<close>

record spawned =
  sp_program :: program
  sp_args :: "arg list"
  sp_image :: "node option"
  sp_result :: spawn_result
  sp_after :: files

record build_state =
  bs_files :: files
  bs_ctr :: nat
  bs_fetches :: nat
  bs_spawned :: "spawned list"

text \<open>
  What the script reads and what answers it. The requests, the programs and the failures are numbered by the calls made so
  far. A failing call of the file system has a code and may leave anything in the places it worked on.
\<close>

record build_env =
  be_platform :: string
  be_arch :: string
  be_environ :: environ
  be_pid :: string
  be_delimiter :: string
  be_root :: path
  be_homedir :: path
  be_tmpdir :: path
  be_path :: "string \<Rightarrow> path"
  be_show :: "path \<Rightarrow> string"
  be_umask :: "nat \<Rightarrow> nat"
  be_sha256 :: "bytes \<Rightarrow> string"
  be_fetch :: "nat \<Rightarrow> string \<Rightarrow> (nat \<times> bytes res) res"
  be_spawn :: "nat \<Rightarrow> program \<Rightarrow> arg list \<Rightarrow> spawn_options \<Rightarrow> files \<Rightarrow> spawn_result \<times> files"
  be_fault :: "nat \<Rightarrow> (string \<times> files) option"

section \<open>Calls of the file system\<close>

definition fs_call :: "build_env \<Rightarrow> (path \<Rightarrow> bool) \<Rightarrow> (files \<Rightarrow> string + files) \<Rightarrow> (unit, build_state) st" where
  "fs_call E touched f s =
     (let n = bs_ctr s; s1 = s\<lparr>bs_ctr := Suc n\<rparr>
      in case be_fault E n of
           Some (code, left) \<Rightarrow>
             (raise code, s1\<lparr>bs_files := jretain (\<lambda>p _. \<not> touched p) (bs_files s) @ jretain (\<lambda>p _. touched p) left\<rparr>)
         | None \<Rightarrow>
             (case f (bs_files s) of
                Inl code \<Rightarrow> (raise code, s1)
              | Inr fs \<Rightarrow> (Inr (), s1\<lparr>bs_files := fs\<rparr>)))"

definition parent_ok :: "files \<Rightarrow> path \<Rightarrow> bool" where
  "parent_ok fs p \<longleftrightarrow> butlast p = [] \<or> jget fs (butlast p) = Some Dir"

definition fs_access :: "build_env \<Rightarrow> path \<Rightarrow> (unit, build_state) st" where
  "fs_access E p = fs_call E (\<lambda>_. False) (\<lambda>fs. if jhas fs p then Inr fs else Inl ''ENOENT'')"

text \<open>\<open>rm\<close> with the option \<open>force\<close>: a path that does not exist is not an error.\<close>

definition fs_rm :: "build_env \<Rightarrow> bool \<Rightarrow> path \<Rightarrow> (unit, build_state) st" where
  "fs_rm E recursive p = fs_call E (prefix p) (\<lambda>fs.
     if recursive then Inr (jretain (\<lambda>q _. \<not> prefix p q) fs)
     else if jget fs p = Some Dir then Inl ''ERR_FS_EISDIR'' else Inr (jdel p fs))"

text \<open>\<open>mkdir\<close> with the option \<open>recursive\<close> makes the missing directories on the way.\<close>

definition path_steps :: "path \<Rightarrow> path list" where
  "path_steps p = map (\<lambda>i. take i p) [1..<Suc (length p)]"

definition fs_mkdir :: "build_env \<Rightarrow> path \<Rightarrow> (unit, build_state) st" where
  "fs_mkdir E p = fs_call E (\<lambda>q. prefix p q \<or> prefix q p) (\<lambda>fs.
     if list_ex (\<lambda>q. jget fs q \<noteq> None \<and> jget fs q \<noteq> Some Dir) (path_steps p) then Inl ''ENOTDIR''
     else Inr (fold (\<lambda>q fs. jset q Dir fs) (path_steps p) fs))"

definition fs_writeFile :: "build_env \<Rightarrow> path \<Rightarrow> bytes \<Rightarrow> nat \<Rightarrow> (unit, build_state) st" where
  "fs_writeFile E p bs mode = fs_call E (prefix p) (\<lambda>fs.
     if jget fs p = Some Dir then Inl ''EISDIR''
     else if \<not> parent_ok fs p then Inl ''ENOENT''
     else Inr (jset p (File bs (case jget fs p of Some (File _ m) \<Rightarrow> m | _ \<Rightarrow> be_umask E mode)) fs))"

definition fs_chmod :: "build_env \<Rightarrow> path \<Rightarrow> nat \<Rightarrow> (unit, build_state) st" where
  "fs_chmod E p mode = fs_call E (prefix p) (\<lambda>fs.
     case jget fs p of
       None \<Rightarrow> Inl ''ENOENT''
     | Some Dir \<Rightarrow> Inr fs
     | Some (File bs _) \<Rightarrow> Inr (jset p (File bs mode) fs))"

definition fs_rename :: "build_env \<Rightarrow> path \<Rightarrow> path \<Rightarrow> (unit, build_state) st" where
  "fs_rename E a b = fs_call E (\<lambda>q. prefix a q \<or> prefix b q) (\<lambda>fs.
     let moved = map (\<lambda>(p, n). (b @ drop (length a) p, n)) (filter (\<lambda>(p, _). prefix a p) fs);
         done = Inr (jretain (\<lambda>p _. \<not> prefix a p \<and> \<not> prefix b p) fs @ moved)
     in if \<not> jhas fs a \<or> \<not> parent_ok fs b then Inl ''ENOENT''
        else if strict_prefix a b then Inl ''EINVAL''
        else case (jget fs a, jget fs b) of
          (Some Dir, Some (File _ _)) \<Rightarrow> Inl ''ENOTDIR''
        | (Some (File _ _), Some Dir) \<Rightarrow> Inl ''EISDIR''
        | (Some Dir, Some Dir) \<Rightarrow> if list_ex (\<lambda>(p, _). strict_prefix b p) fs \<and> a \<noteq> b then Inl ''ENOTEMPTY'' else done
        | _ \<Rightarrow> done)"

section \<open>The script\<close>

definition outDir :: "build_env \<Rightarrow> path" where
  "outDir E = be_root E @ [''src'', ''wasm'', ''pkg'']"

definition temporaryOutDir :: "build_env \<Rightarrow> path" where
  "temporaryOutDir E = be_root E @ [''.tmp'', ''wasm-pkg'']"

definition manifest :: "build_env \<Rightarrow> path" where
  "manifest E = be_root E @ [''wasm'', ''Cargo.toml'']"

definition cargoExecutable :: "build_env \<Rightarrow> string" where
  "cargoExecutable E = (if be_platform E = ''win32'' then ''cargo.exe'' else ''cargo'')"

definition rustupVersion :: string where
  "rustupVersion = ''1.29.0''"

definition rustupUrl :: string where
  "rustupUrl = ''https://static.rust-lang.org/rustup/archive/'' @ rustupVersion @ ''/x86_64-unknown-linux-gnu/rustup-init''"

definition rustupSha256 :: string where
  "rustupSha256 = ''4acc9acc76d5079515b46346a485974457b5a79893cfb01112423c89aeb5aa10''"

definition run :: "build_env \<Rightarrow> program \<Rightarrow> arg list \<Rightarrow> spawn_options \<Rightarrow> (int, build_state) st" where
  "run E command args options s =
     (let (result, fs) = be_spawn E (bs_ctr s) command args options (bs_files s);
          started_from = (case command of Named _ \<Rightarrow> None | At p \<Rightarrow> jget (bs_files s) p);
          s1 = s\<lparr>bs_files := fs, bs_ctr := Suc (bs_ctr s),
                 bs_spawned := bs_spawned s @ [\<lparr>sp_program = command, sp_args = args, sp_image = started_from,
                                                sp_result = result, sp_after = fs\<rparr>]\<rparr>
      in case result of
           SpawnError code \<Rightarrow> (raise code, s1)
         | Exited code \<Rightarrow> (Inr (case code of None \<Rightarrow> 1 | Some c \<Rightarrow> c), s1))"

definition commandSucceeds :: "build_env \<Rightarrow> program \<Rightarrow> arg list \<Rightarrow> (bool, build_state) st" where
  "commandSucceeds E command args =
     st_catch (st_bind (run E command args \<lparr>so_cwd = None, so_env = be_environ E, so_stdio = ''ignore'', so_shell = False\<rparr>)
                 (\<lambda>code. st_return (code = 0)))
       (\<lambda>error. if error = JsError ''ENOENT'' [] then st_return False else st_throw error)"

definition node_fetch :: "build_env \<Rightarrow> string \<Rightarrow> (nat \<times> bytes res, build_state) st" where
  "node_fetch E url s = (be_fetch E (bs_ctr s) url, s\<lparr>bs_ctr := Suc (bs_ctr s), bs_fetches := Suc (bs_fetches s)\<rparr>)"

text \<open>One round of the loop of \<open>downloadRustup\<close>; 448 is the mode 0o700.\<close>

definition download_once :: "build_env \<Rightarrow> path \<Rightarrow> (unit, build_state) st" where
  "download_once E destination =
     st_bind (node_fetch E rustupUrl) (\<lambda>(status, body).
     if \<not> (200 \<le> status \<and> status \<le> 299) then st_throw (JsError ''rustup download failed with HTTP status'' [status])
     else
       st_bind (st_lift body) (\<lambda>bytes.
       if be_sha256 E bytes \<noteq> rustupSha256 then st_throw (JsError ''rustup checksum mismatch'' [])
       else st_seq (fs_writeFile E destination bytes 448) (fs_chmod E destination 448)))"

primrec download_attempts :: "nat \<Rightarrow> build_env \<Rightarrow> path \<Rightarrow> (unit, build_state) st" where
  "download_attempts 0 E destination = st_throw (JsError ''failed to download the verified rustup installer'' [])"
| "download_attempts (Suc n) E destination =
     st_catch (download_once E destination) (\<lambda>_. download_attempts n E destination)"

definition downloadRustup :: "build_env \<Rightarrow> path \<Rightarrow> (unit, build_state) st" where
  "downloadRustup E destination = download_attempts 3 E destination"

definition cargoHome :: "build_env \<Rightarrow> string" where
  "cargoHome E = (case jget (be_environ E) ''CARGO_HOME'' of None \<Rightarrow> be_show E (be_homedir E @ [''.cargo'']) | Some v \<Rightarrow> v)"

definition rustupHome :: "build_env \<Rightarrow> string" where
  "rustupHome E = (case jget (be_environ E) ''RUSTUP_HOME'' of None \<Rightarrow> be_show E (be_homedir E @ [''.rustup'']) | Some v \<Rightarrow> v)"

definition buildEnvironment :: "build_env \<Rightarrow> environ" where
  "buildEnvironment E =
     jset ''PATH'' (be_show E (be_path E (cargoHome E) @ [''bin'']) @ be_delimiter E @
                     (case jget (be_environ E) ''PATH'' of None \<Rightarrow> [] | Some v \<Rightarrow> v))
      (jset ''RUSTUP_HOME'' (rustupHome E) (jset ''CARGO_HOME'' (cargoHome E) (be_environ E)))"

definition installer :: "build_env \<Rightarrow> path" where
  "installer E = be_tmpdir E @ [''rustup-init-'' @ be_pid E]"

definition rustupExecutable :: "build_env \<Rightarrow> path" where
  "rustupExecutable E = be_path E (cargoHome E) @ [''bin'', ''rustup'']"

definition install_rust :: "build_env \<Rightarrow> (unit, build_state) st" where
  "install_rust E =
     (let options = \<lparr>so_cwd = Some (be_root E), so_env = buildEnvironment E, so_stdio = ''inherit'', so_shell = False\<rparr>
      in st_finally
           (st_seq (downloadRustup E (installer E))
            (st_bind (run E (At (installer E))
                 (map Word [''-y'', ''--profile'', ''minimal'', ''--default-toolchain'', ''none'', ''--no-modify-path'']) options)
               (\<lambda>installExitCode.
                if installExitCode \<noteq> 0 then st_throw (JsError ''rustup-init exited with a status'' [nat \<bar>installExitCode\<bar>])
                else
                  st_bind (run E (At (rustupExecutable E)) (map Word [''toolchain'', ''install'']) options) (\<lambda>toolchainExitCode.
                  if toolchainExitCode \<noteq> 0
                  then st_throw (JsError ''rustup toolchain install exited with a status'' [nat \<bar>toolchainExitCode\<bar>])
                  else st_return ()))))
           (fs_rm E False (installer E)))"

definition prepareBuildEnvironment :: "build_env \<Rightarrow> (environ, build_state) st" where
  "prepareBuildEnvironment E =
     st_bind (commandSucceeds E (Named (cargoExecutable E)) [Word ''--version'']) (\<lambda>found.
     if found then st_return (be_environ E)
     else if jget (be_environ E) ''WORKERS_CI'' \<noteq> Some ''1''
     then st_throw (JsError ''cargo was not found; install the Rust toolchain declared in rust-toolchain.toml'' [])
     else if be_platform E \<noteq> ''linux'' \<or> be_arch E \<noteq> ''x64''
     then st_throw (JsError ''automatic Rust installation is unsupported'' [])
     else st_seq (install_rust E) (st_return (buildEnvironment E)))"

definition wasm_pack :: "build_env \<Rightarrow> program" where
  "wasm_pack E = Named (if be_platform E = ''win32'' then ''wasm-pack.cmd'' else ''wasm-pack'')"

definition wasm_pack_args :: "build_env \<Rightarrow> arg list" where
  "wasm_pack_args E =
     [Word ''build'', PathArg (be_root E @ [''wasm'']), Word ''--release'', Word ''--target'', Word ''web'', Word ''--out-dir'',
      PathArg (temporaryOutDir E), Word ''--out-name'', Word ''easytier_edge_wasm'', Word ''--locked'']"

text \<open>The run of wasm-pack and the exchange of the package directory, the two ends of the script.\<close>

definition compile_core :: "build_env \<Rightarrow> environ \<Rightarrow> (unit, build_state) st" where
  "compile_core E environment =
     st_bind (st_catch
        (run E (wasm_pack E) (wasm_pack_args E)
           \<lparr>so_cwd = Some (be_root E), so_env = environment, so_stdio = ''inherit'', so_shell = be_platform E = ''win32''\<rparr>)
        (\<lambda>error. st_seq (fs_rm E True (temporaryOutDir E)) (st_throw error))) (\<lambda>exitCode.
     if exitCode \<noteq> 0
     then st_seq (fs_rm E True (temporaryOutDir E)) (st_throw (JsError ''wasm-pack exited with a status'' [nat \<bar>exitCode\<bar>]))
     else st_return ())"

definition exchange_package :: "build_env \<Rightarrow> (unit, build_state) st" where
  "exchange_package E =
     st_seq (fs_rm E True (outDir E))
    (st_seq (fs_rename E (temporaryOutDir E) (outDir E))
            (fs_writeFile E (outDir E @ [''.gitkeep'']) [] 438))"

definition build_wasm :: "build_env \<Rightarrow> (unit, build_state) st" where
  "build_wasm E =
     st_seq (fs_access E (manifest E))
    (st_bind (prepareBuildEnvironment E) (\<lambda>environment.
     st_seq (fs_rm E True (temporaryOutDir E))
    (st_seq (fs_mkdir E (temporaryOutDir E))
    (st_seq (compile_core E environment) (exchange_package E)))))"

section \<open>Files\<close>

lemma jget_outside: "(\<And>q n. (q, n) \<in> set m \<Longrightarrow> q \<noteq> p) \<Longrightarrow> jget m p = None"
  by (induction m) fastforce+

lemma jget_moved:
  "jget (map (\<lambda>(p, n). (b @ drop (length a) p, n)) (filter (\<lambda>(p, _). prefix a p) fs)) (b @ rel) = jget fs (a @ rel)"
  by (induction fs) (auto elim!: prefixE)

lemma jget_set_dirs: "q \<notin> set ps \<Longrightarrow> jget (fold (\<lambda>q fs. jset q Dir fs) ps fs) q = jget fs q"
  by (induction ps arbitrary: fs) auto

text \<open>What lies in a directory, and the calls that leave it alone because they work elsewhere.\<close>

definition dir_view :: "path \<Rightarrow> build_state \<Rightarrow> path \<Rightarrow> node option" where
  "dir_view d s p = (if prefix d p then jget (bs_files s) p else None)"

lemma dir_viewI: "(\<And>p. prefix d p \<Longrightarrow> jget (bs_files s') p = jget (bs_files s) p) \<Longrightarrow> dir_view d s' = dir_view d s"
  by (auto simp: dir_view_def)

lemma dir_viewD: "dir_view d s' = dir_view d s \<Longrightarrow> prefix d p \<Longrightarrow> jget (bs_files s') p = jget (bs_files s) p"
  by (metis dir_view_def)

lemma fs_call_elsewhere:
  assumes "\<And>q. prefix d q \<Longrightarrow> \<not> touched q"
    and "\<And>fs fs' q. f fs = Inr fs' \<Longrightarrow> prefix d q \<Longrightarrow> jget fs' q = jget fs q"
  shows "unchanged (dir_view d) (fs_call E touched f)"
  unfolding unchanged_def
proof (intro allI dir_viewI)
  fix s q
  assume "prefix d q"
  with assms(1) assms(2) [of "bs_files s" _ q] show "jget (bs_files (snd (fs_call E touched f s))) q = jget (bs_files s) q"
    by (auto simp: fs_call_def Let_def jget_append jget_retain_keys split: option.splits sum.splits)
qed

lemma parallel_apart: "d \<parallel> p \<Longrightarrow> prefix d q \<Longrightarrow> \<not> prefix p q \<and> \<not> prefix q p"
  by (meson parallelE prefix_order.trans prefix_same_cases)

lemma elsewhere:
  assumes "d \<parallel> p"
  shows "unchanged (dir_view d) (fs_rm E b p)" "unchanged (dir_view d) (fs_mkdir E p)"
    "unchanged (dir_view d) (fs_writeFile E p bs mode)" "unchanged (dir_view d) (fs_chmod E p mode)"
proof -
  note apart = parallel_apart [OF assms]
  have ne: "q \<noteq> p" if "prefix d q" for q using apart [OF that] by auto
  show "unchanged (dir_view d) (fs_rm E b p)"
    unfolding fs_rm_def by (rule fs_call_elsewhere) (use apart ne in \<open>auto simp: jget_retain_keys split: if_splits\<close>)
  have "q \<notin> set (path_steps p)" if "prefix d q" for q
    using apart [OF that] take_is_prefix by (auto simp: path_steps_def)
  then show "unchanged (dir_view d) (fs_mkdir E p)"
    unfolding fs_mkdir_def by (intro fs_call_elsewhere) (use apart in \<open>auto simp: jget_set_dirs split: if_splits\<close>)
  show "unchanged (dir_view d) (fs_writeFile E p bs mode)"
    unfolding fs_writeFile_def by (rule fs_call_elsewhere) (use apart ne in \<open>auto split: if_splits\<close>)
  show "unchanged (dir_view d) (fs_chmod E p mode)"
    unfolding fs_chmod_def by (rule fs_call_elsewhere) (use apart ne in \<open>auto split: option.splits node.splits\<close>)
qed

lemma access_elsewhere: "unchanged (dir_view d) (fs_access E p)"
  unfolding fs_access_def by (rule fs_call_elsewhere) (auto split: if_splits)

section \<open>The package directory\<close>

text \<open>Child processes write elsewhere; wasm-pack writes to the directory it is given.\<close>

definition children_apart :: "build_env \<Rightarrow> bool" where
  "children_apart E \<longleftrightarrow> (\<forall>n command args options fs p. prefix (outDir E) p \<longrightarrow>
     jget (snd (be_spawn E n command args options fs)) p = jget fs p)"

lemma run_elsewhere: "children_apart E \<Longrightarrow> unchanged (dir_view (outDir E)) (run E command args options)"
  unfolding unchanged_def
  by (auto simp: run_def Let_def children_apart_def intro!: dir_viewI split: prod.splits spawn_result.splits) (metis snd_conv)+

lemma root_parallel: "x \<noteq> y \<Longrightarrow> (r @ x # xs) \<parallel> (r @ y # ys)"
  by (simp add: parallel_def)

lemma temporary_parallel: "outDir E \<parallel> temporaryOutDir E"
  unfolding outDir_def temporaryOutDir_def by (rule root_parallel) simp

lemma download_elsewhere:
  assumes "d \<parallel> p"
  shows "unchanged (dir_view d) (downloadRustup E p)"
proof -
  have fetch: "unchanged (dir_view d) (node_fetch E url)" for url by (simp add: unchanged_def node_fetch_def dir_view_def fun_eq_iff)
  have once: "unchanged (dir_view d) (download_once E p)"
    unfolding download_once_def
    by (intro unchanged_bind unchanged_case_prod unchanged_if unchanged_seq unchanged_basic fetch elsewhere [OF assms])
  have "unchanged (dir_view d) (download_attempts n E p)" for n
    by (induction n) (auto intro: once unchanged_catch simp: unchanged_def [of _ "Pair x" for x])
  then show ?thesis unfolding downloadRustup_def .
qed

lemma prepare_elsewhere:
  assumes "children_apart E" and "outDir E \<parallel> installer E"
  shows "unchanged (dir_view (outDir E)) (prepareBuildEnvironment E)"
  unfolding prepareBuildEnvironment_def commandSucceeds_def install_rust_def Let_def
  by (intro unchanged_bind unchanged_catch unchanged_if unchanged_seq unchanged_basic unchanged_finally
      run_elsewhere [OF assms(1)] elsewhere [OF assms(2)] download_elsewhere [OF assms(2)])

lemma compile_elsewhere:
  assumes "children_apart E"
  shows "unchanged (dir_view (outDir E)) (compile_core E environment)"
  unfolding compile_core_def
  by (intro unchanged_bind unchanged_catch unchanged_if unchanged_seq unchanged_basic
      run_elsewhere [OF assms] elsewhere [OF temporary_parallel])

text \<open>The last program that was started is wasm-pack, and it succeeded.\<close>

definition compiled :: "build_env \<Rightarrow> build_state \<Rightarrow> bool" where
  "compiled E s \<longleftrightarrow> bs_spawned s \<noteq> [] \<and> sp_program (last (bs_spawned s)) = wasm_pack E \<and>
     sp_args (last (bs_spawned s)) = wasm_pack_args E \<and> sp_result (last (bs_spawned s)) = Exited (Some 0)"

lemma compile_compiled:
  assumes "compile_core E environment s = (Inr (), s')"
  shows "compiled E s' \<and> sp_after (last (bs_spawned s')) = bs_files s'"
  using assms
  by (auto simp: compile_core_def st_bind_def st_catch_def st_seq_def run_def Let_def compiled_def
      split: prod.splits sum.splits if_splits spawn_result.splits option.splits)

lemma fs_call_spawned [simp]: "bs_spawned (snd (fs_call E touched f s)) = bs_spawned s"
  by (auto simp: fs_call_def Let_def split: option.splits sum.splits)

lemma fs_call_Inr:
  "fs_call E touched f s = (Inr (), s') \<Longrightarrow> f (bs_files s) = Inr (bs_files s')"
  by (auto simp: fs_call_def Let_def split: option.splits sum.splits)

lemma fs_spawned:
  "unchanged bs_spawned (fs_rm E b p)" "unchanged bs_spawned (fs_rename E p q)" "unchanged bs_spawned (fs_writeFile E p bs mode)"
  "unchanged bs_spawned (fs_chmod E p mode)" "unchanged bs_spawned (fs_mkdir E p)" "unchanged bs_spawned (fs_access E p)"
  by (simp_all add: unchanged_def fs_rm_def fs_rename_def fs_writeFile_def fs_chmod_def fs_mkdir_def fs_access_def)

lemma exchange_spawned: "unchanged bs_spawned (exchange_package E)"
  unfolding exchange_package_def by (intro unchanged_seq fs_spawned)

lemma rename_Inr:
  assumes "fs_rename E a b s = (Inr (), s')"
  shows "bs_files s' = jretain (\<lambda>p _. \<not> prefix a p \<and> \<not> prefix b p) (bs_files s) @
     map (\<lambda>(p, n). (b @ drop (length a) p, n)) (filter (\<lambda>(p, _). prefix a p) (bs_files s))"
  using fs_call_Inr [OF assms [unfolded fs_rename_def]]
  by (auto simp: Let_def split: if_splits option.splits node.splits)

lemma exchange_result:
  assumes "exchange_package E s = (Inr (), s')"
  shows "jget (bs_files s') (outDir E @ rel) =
      (if rel = [''.gitkeep''] then Some (File [] (case jget (bs_files s) (temporaryOutDir E @ rel) of Some (File _ m) \<Rightarrow> m | _ \<Rightarrow> be_umask E 438))
       else jget (bs_files s) (temporaryOutDir E @ rel))"
    and "prefix (temporaryOutDir E) p \<Longrightarrow> jget (bs_files s') p = None"
proof -
  let ?out = "outDir E" and ?tmp = "temporaryOutDir E"
  from assms obtain s1 s2 where rm: "fs_rm E True ?out s = (Inr (), s1)" and mv: "fs_rename E ?tmp ?out s1 = (Inr (), s2)"
      and wr: "fs_writeFile E (?out @ [''.gitkeep'']) [] 438 s2 = (Inr (), s')"
    by (auto simp: exchange_package_def st_seq_def st_bind_def split: prod.splits sum.splits)
  have f1: "bs_files s1 = jretain (\<lambda>q _. \<not> prefix ?out q) (bs_files s)" using fs_call_Inr [OF rm [unfolded fs_rm_def]] by simp
  have apart: "prefix ?tmp q \<Longrightarrow> \<not> prefix ?out q" for q
    using parallel_apart [of ?tmp ?out q] temporary_parallel by (simp add: parallel_def)
  have f2: "jget (bs_files s2) (?out @ rel) = jget (bs_files s) (?tmp @ rel)" for rel
    using apart [of "?tmp @ rel"] by (simp add: rename_Inr [OF mv] jget_append jget_retain_keys jget_moved f1)
  have "bs_files s' = jset (?out @ [''.gitkeep''])
     (File [] (case jget (bs_files s2) (?out @ [''.gitkeep'']) of Some (File _ m) \<Rightarrow> m | _ \<Rightarrow> be_umask E 438)) (bs_files s2)"
    using fs_call_Inr [OF wr [unfolded fs_writeFile_def]] by (simp split: if_splits)
  then show "jget (bs_files s') (?out @ rel) = (if rel = [''.gitkeep''] then Some (File []
        (case jget (bs_files s) (?tmp @ rel) of Some (File _ m) \<Rightarrow> m | _ \<Rightarrow> be_umask E 438)) else jget (bs_files s) (?tmp @ rel))"
    by (simp add: f2)
  assume p: "prefix ?tmp p"
  have "jget (map (\<lambda>(p, n). (?out @ drop (length ?tmp) p, n)) (filter (\<lambda>(p, _). prefix ?tmp p) (bs_files s1))) p = None"
    using apart [OF p] by (intro jget_outside) auto
  then have "jget (bs_files s2) p = None" using p by (simp add: rename_Inr [OF mv] jget_append jget_retain_keys)
  moreover have "p \<noteq> ?out @ [''.gitkeep'']" using apart [OF p] by auto
  ultimately show "jget (bs_files s') p = None" using \<open>bs_files s' = _\<close> by simp
qed

section \<open>The installer\<close>

definition on_workers_ci :: "build_env \<Rightarrow> bool" where
  "on_workers_ci E \<longleftrightarrow> jget (be_environ E) ''WORKERS_CI'' = Some ''1'' \<and> be_platform E = ''linux'' \<and> be_arch E = ''x64''"

definition genuine :: "build_env \<Rightarrow> node option \<Rightarrow> bool" where
  "genuine E node \<longleftrightarrow> (\<exists>bytes. node = Some (File bytes 448) \<and> be_sha256 E bytes = rustupSha256)"

definition log_ok :: "build_env \<Rightarrow> build_state \<Rightarrow> bool" where
  "log_ok E s \<longleftrightarrow> (\<forall>e \<in> set (bs_spawned s). sp_program e = At (installer E) \<longrightarrow> genuine E (sp_image e) \<and> on_workers_ci E)"

lemma rustup_not_installer: "rustupExecutable E \<noteq> installer E"
proof
  assume "rustupExecutable E = installer E"
  then have "last (rustupExecutable E) = last (installer E)" by simp
  then show False by (simp add: rustupExecutable_def installer_def)
qed

lemma run_log: "command \<noteq> At (installer E) \<Longrightarrow> keeps (log_ok E) (run E command args options)"
  by (auto simp: keeps_def run_def Let_def log_ok_def split: prod.splits spawn_result.splits)

lemma log_spawned: "unchanged bs_spawned m \<Longrightarrow> keeps (log_ok E) m"
  by (simp add: unchanged_def keeps_def log_ok_def)

lemma fetch_spawned: "unchanged bs_spawned (node_fetch E url)"
  by (simp add: unchanged_def node_fetch_def)

lemma writeFile_Inr: "fs_writeFile E p bs mode s = (Inr (), s') \<Longrightarrow> \<exists>m. jget (bs_files s') p = Some (File bs m)"
  unfolding fs_writeFile_def by (drule fs_call_Inr) (auto split: if_splits, metis jget_jset)

lemma chmod_Inr:
  "fs_chmod E p mode s = (Inr (), s') \<Longrightarrow> jget (bs_files s) p = Some (File bs m) \<Longrightarrow> jget (bs_files s') p = Some (File bs mode)"
  unfolding fs_chmod_def by (drule fs_call_Inr) (auto, metis jget_jset)

lemma download_once_genuine:
  assumes "download_once E p s = (Inr (), s')"
  shows "genuine E (jget (bs_files s') p)"
proof -
  from assms obtain bs s1 s2 where "be_sha256 E bs = rustupSha256" "fs_writeFile E p bs 448 s1 = (Inr (), s2)"
      "fs_chmod E p 448 s2 = (Inr (), s')"
    by (auto simp: download_once_def st_bind_def st_seq_def split: prod.splits sum.splits if_splits)
  then show ?thesis using writeFile_Inr chmod_Inr by (fastforce simp: genuine_def)
qed

lemma download_attempts_genuine: "download_attempts n E p s = (Inr (), s') \<Longrightarrow> genuine E (jget (bs_files s') p)"
  by (induction n arbitrary: s) (auto simp: st_catch_def split: prod.splits sum.splits dest: download_once_genuine)

lemma download_spawned: "unchanged bs_spawned (downloadRustup E p)"
proof -
  have once: "unchanged bs_spawned (download_once E p)"
    unfolding download_once_def
    by (intro unchanged_bind unchanged_case_prod unchanged_if unchanged_seq unchanged_basic fetch_spawned fs_spawned)
  have "unchanged bs_spawned (download_attempts n E p)" for n
    by (induction n) (auto intro: once unchanged_catch simp: unchanged_def [of _ "Pair x" for x])
  then show ?thesis unfolding downloadRustup_def .
qed

lemma install_log:
  assumes "on_workers_ci E"
  shows "keeps (log_ok E) (install_rust E)"
proof -
  have dl: "triple (log_ok E) (downloadRustup E (installer E))
      (\<lambda>_ s. log_ok E s \<and> genuine E (jget (bs_files s) (installer E))) (log_ok E)"
  proof (rule tripleI)
    fix s r s'
    assume "log_ok E s" and run: "downloadRustup E (installer E) s = (r, s')"
    then have ok: "log_ok E s'" using unchangedD [OF download_spawned run] by (simp add: log_ok_def)
    show "case r of Inl _ \<Rightarrow> log_ok E s' | Inr _ \<Rightarrow> log_ok E s' \<and> genuine E (jget (bs_files s') (installer E))"
    proof (cases r)
      case (Inr x)
      then have "genuine E (jget (bs_files s') (installer E))"
        using run download_attempts_genuine [of 3 E "installer E" s s'] by (simp add: downloadRustup_def)
      with ok Inr show ?thesis by simp
    qed (use ok in simp)
  qed
  have inst: "triple (\<lambda>s. log_ok E s \<and> genuine E (jget (bs_files s) (installer E))) (run E (At (installer E)) args options)
      (\<lambda>_. log_ok E) (log_ok E)" for args options
    using assms by (auto simp: triple_def run_def Let_def log_ok_def split: prod.splits spawn_result.splits)
  have rest: "keeps (log_ok E) (if code \<noteq> 0 then st_throw e
      else st_bind (run E (At (rustupExecutable E)) args options) (\<lambda>c. if c \<noteq> 0 then st_throw (e' c) else st_return ()))"
    for code :: int and e e' args options
    using rustup_not_installer by (intro keeps_if keeps_basic keeps_bind run_log) auto
  let ?opts = "\<lparr>so_cwd = Some (be_root E), so_env = buildEnvironment E, so_stdio = ''inherit'', so_shell = False\<rparr>"
  have "triple (log_ok E) (install_rust E) (\<lambda>_. log_ok E) (log_ok E)"
    unfolding install_rust_def Let_def
    by (rule triple_finally [OF triple_seq [OF dl triple_bind [OF inst triple_keeps [OF rest]]] log_spawned [OF fs_spawned(1)]])
  from tripleD [OF this] show ?thesis
    unfolding keeps_def by (metis (mono_tags) prod.collapse old.sum.simps(5,6) sum.exhaust)
qed

lemma build_log: "keeps (log_ok E) (build_wasm E)"
proof -
  have names: "wasm_pack E \<noteq> At (installer E)" "Named (cargoExecutable E) \<noteq> At (installer E)" by (simp_all add: wasm_pack_def)
  have "keeps (log_ok E) (prepareBuildEnvironment E)"
    unfolding prepareBuildEnvironment_def commandSucceeds_def
    by (intro keeps_bind keeps_catch keeps_if keeps_seq keeps_basic run_log names install_log) (auto simp: on_workers_ci_def)
  then show ?thesis
    unfolding build_wasm_def compile_core_def
    by (intro keeps_bind keeps_seq keeps_catch keeps_if keeps_basic run_log names log_spawned [OF exchange_spawned]
        log_spawned [OF fs_spawned(1)] log_spawned [OF fs_spawned(5)] log_spawned [OF fs_spawned(6)])
qed

text \<open>The number of downloads.\<close>

lemma fs_fetches:
  "unchanged bs_fetches (fs_rm E b p)" "unchanged bs_fetches (fs_rename E p q)" "unchanged bs_fetches (fs_writeFile E p bs mode)"
  "unchanged bs_fetches (fs_chmod E p mode)" "unchanged bs_fetches (fs_mkdir E p)" "unchanged bs_fetches (fs_access E p)"
proof -
  have "unchanged bs_fetches (fs_call E touched f)" for touched f
    by (auto simp: unchanged_def fs_call_def Let_def split: option.splits sum.splits)
  then show "unchanged bs_fetches (fs_rm E b p)" "unchanged bs_fetches (fs_rename E p q)" "unchanged bs_fetches (fs_writeFile E p bs mode)"
    "unchanged bs_fetches (fs_chmod E p mode)" "unchanged bs_fetches (fs_mkdir E p)" "unchanged bs_fetches (fs_access E p)"
    unfolding fs_rm_def fs_rename_def fs_writeFile_def fs_chmod_def fs_mkdir_def fs_access_def by blast+
qed

lemma run_fetches: "unchanged bs_fetches (run E command args options)"
  by (auto simp: unchanged_def run_def Let_def split: prod.splits spawn_result.splits)

lemma download_attempts_fetches: "bs_fetches (snd (download_attempts n E p s)) \<le> bs_fetches s + n"
proof (induction n arbitrary: s)
  case 0
  show ?case by simp
next
  case (Suc n)
  let ?rest = "\<lambda>(status, body). if \<not> (200 \<le> status \<and> status \<le> 299) then st_throw (JsError ''rustup download failed with HTTP status'' [status])
     else st_bind (st_lift body) (\<lambda>bytes.
       if be_sha256 E bytes \<noteq> rustupSha256 then st_throw (JsError ''rustup checksum mismatch'' [])
       else st_seq (fs_writeFile E p bytes 448) (fs_chmod E p 448))"
  have rest: "unchanged bs_fetches (?rest x)" for x
    by (intro unchanged_case_prod unchanged_if unchanged_bind unchanged_seq unchanged_basic fs_fetches)
  have once: "bs_fetches (snd (download_once E p s)) = Suc (bs_fetches s)"
    unfolding download_once_def st_bind_def [of "node_fetch E rustupUrl"]
    using rest by (auto simp: node_fetch_def unchanged_def split: sum.splits)
  show ?case
    using once Suc.IH [of "snd (download_once E p s)"] by (auto simp: st_catch_def split: prod.splits sum.splits)
qed

lemma build_fetches: "bs_fetches (snd (build_wasm E s)) \<le> bs_fetches s + 3"
proof -
  define k where "k = bs_fetches s"
  let ?le = "\<lambda>s. bs_fetches s \<le> k + 3"
  have same: "unchanged bs_fetches m \<Longrightarrow> keeps ?le m" for m :: "('a, build_state) st" by (simp add: unchanged_def keeps_def)
  note quiet = same [OF fs_fetches(1)] same [OF fs_fetches(5)] same [OF run_fetches]
  have dl: "triple (\<lambda>s. bs_fetches s = k) (downloadRustup E (installer E)) (\<lambda>_. ?le) ?le"
    using download_attempts_fetches [of 3 E "installer E"]
    by (fastforce simp: triple_def downloadRustup_def split: prod.splits sum.splits dest: arg_cong [where f = snd])
  have inst: "triple (\<lambda>s. bs_fetches s = k) (install_rust E) (\<lambda>_. ?le) ?le"
    unfolding install_rust_def Let_def
    by (rule triple_finally [OF triple_seq [OF dl triple_keeps] quiet(1)]) (intro keeps_bind keeps_if keeps_basic quiet)
  have cargo: "unchanged bs_fetches (commandSucceeds E c args)" for c args
    unfolding commandSucceeds_def by (intro unchanged_catch unchanged_bind unchanged_if unchanged_basic run_fetches)
  have prep: "triple (\<lambda>s. bs_fetches s = k) (prepareBuildEnvironment E) (\<lambda>_. ?le) ?le"
    unfolding prepareBuildEnvironment_def
  proof (rule triple_bind)
    show "triple (\<lambda>s. bs_fetches s = k) (commandSucceeds E (Named (cargoExecutable E)) [Word ''--version''])
        (\<lambda>_ s. bs_fetches s = k) ?le"
      by (rule triple_weaken [OF triple_unchanged [OF cargo, where P = "\<lambda>n. n = k"]]) simp_all
  qed (intro triple_if triple_seq [OF inst] triple_keeps keeps_basic; simp add: triple_def)
  have "triple (\<lambda>s. bs_fetches s = k) (build_wasm E) (\<lambda>_. ?le) ?le"
    unfolding build_wasm_def compile_core_def exchange_package_def
  proof (rule triple_seq)
    show "triple (\<lambda>s. bs_fetches s = k) (fs_access E (manifest E)) (\<lambda>_ s. bs_fetches s = k) ?le"
      by (rule triple_weaken [OF triple_unchanged [OF fs_fetches(6), where P = "\<lambda>n. n = k"]]) simp_all
  qed (intro triple_bind [OF prep] triple_keeps keeps_bind keeps_seq keeps_catch keeps_if keeps_basic quiet
      same [OF fs_fetches(2)] same [OF fs_fetches(3)])
  from tripleD [OF this k_def [symmetric]] show ?thesis
    unfolding k_def by (metis (mono_tags) prod.collapse old.sum.simps(5,6) sum.exhaust)
qed

section \<open>A build on the CI\<close>

definition demo_build_env :: build_env where
  "demo_build_env = \<lparr>be_platform = ''linux'', be_arch = ''x64'', be_environ = [(''WORKERS_CI'', ''1'')], be_pid = ''7'',
     be_delimiter = '':'', be_root = [''r''], be_homedir = [''h''], be_tmpdir = [''t''], be_path = (\<lambda>s. [s]), be_show = concat,
     be_umask = (\<lambda>m. m), be_sha256 = (\<lambda>_. rustupSha256),
     be_fetch = (\<lambda>n url. if n = 2 then raise ''TimeoutError'' else Inr (200, Inr [1])),
     be_spawn = (\<lambda>n command args options fs.
        if command = Named ''cargo'' then (SpawnError ''ENOENT'', fs)
        else (Exited (Some 0), if command = Named ''wasm-pack'' then jset [''r'', ''.tmp'', ''wasm-pkg'', ''a''] (File [9] 420) fs else fs)),
     be_fault = (\<lambda>_. None)\<rparr>"

definition demo_build_start :: build_state where
  "demo_build_start = \<lparr>bs_files = [([''r''], Dir), ([''t''], Dir), ([''r'', ''src''], Dir), ([''r'', ''src'', ''wasm''], Dir),
     ([''r'', ''src'', ''wasm'', ''pkg''], Dir), ([''r'', ''src'', ''wasm'', ''pkg'', ''a''], File [8] 420), ([''r'', ''wasm''], Dir),
     ([''r'', ''wasm'', ''Cargo.toml''], File [] 420)], bs_ctr = 0, bs_fetches = 0, bs_spawned = []\<rparr>"

lemma demo_build_run:
  "fst (build_wasm demo_build_env demo_build_start) = Inr ()"
  "map sp_program (bs_spawned (snd (build_wasm demo_build_env demo_build_start))) =
     [Named ''cargo'', At [''t'', ''rustup-init-7''], At [''h.cargo'', ''bin'', ''rustup''], Named ''wasm-pack'']"
  by code_simp+

section \<open>Properties\<close>

text \<open>
  C38. The build starts no installer it has not verified: whatever the network, the programs and the file system do, every
  start of the Rust installer is a start of a file with mode 0o700 whose SHA-256 is the one pinned in the script, it
  happens only in the CI of Cloudflare on 64-bit Linux, and at most three downloads are tried.
\<close>

theorem installer_is_verified:
  assumes "build_wasm E s = (r, s')" and "bs_spawned s = []"
  shows "(\<forall>e \<in> set (bs_spawned s'). sp_program e = At (installer E) \<longrightarrow>
        (\<exists>bytes. sp_image e = Some (File bytes 448) \<and> be_sha256 E bytes = rustupSha256) \<and>
        jget (be_environ E) ''WORKERS_CI'' = Some ''1'' \<and> be_platform E = ''linux'' \<and> be_arch E = ''x64'') \<and>
     bs_fetches s' \<le> bs_fetches s + 3"
proof -
  have "log_ok E s" using assms(2) by (simp add: log_ok_def)
  then have "log_ok E s'" using build_log assms(1) by (metis keeps_def snd_conv)
  then show ?thesis using build_fetches [of E s] assms(1) by (simp add: log_ok_def genuine_def on_workers_ci_def)
qed

theorem installer_is_verified_witness:
  "\<exists>e \<in> set (bs_spawned (snd (build_wasm demo_build_env demo_build_start))). sp_program e = At [''t'', ''rustup-init-7''] \<and>
     (\<exists>bytes. sp_image e = Some (File bytes 448) \<and> be_sha256 demo_build_env bytes = rustupSha256)"
proof -
  let ?s = "snd (build_wasm demo_build_env demo_build_start)"
  have i: "installer demo_build_env = [''t'', ''rustup-init-7'']" by (simp add: installer_def demo_build_env_def)
  have "At [''t'', ''rustup-init-7''] \<in> set (map sp_program (bs_spawned ?s))" unfolding demo_build_run(2) by simp
  then obtain e where e: "e \<in> set (bs_spawned ?s)" "sp_program e = At (installer demo_build_env)" unfolding i by auto
  have "bs_spawned demo_build_start = []" by (simp add: demo_build_start_def)
  from installer_is_verified [OF prod.collapse [symmetric] this] e show ?thesis unfolding i [symmetric] by blast
qed

text \<open>
  C39. The package is exchanged as a whole: a build that returns has replaced the package directory by exactly what a
  successful wasm-pack left in the temporary directory, with an empty \<^verbatim>\<open>.gitkeep\<close>, and the temporary directory is gone; a build that fails
  leaves every file of the package as it was, unless wasm-pack had succeeded and the exchange itself
  failed. The programs are taken to write nothing into the package directory themselves, and the
  temporary directory of the system to lie elsewhere.
\<close>

theorem package_exchanged_as_a_whole:
  assumes run: "build_wasm E s = (r, s')"
    and children: "children_apart E" and tmp: "outDir E \<parallel> installer E"
  shows "case r of
       Inl _ \<Rightarrow> (\<forall>p. prefix (outDir E) p \<longrightarrow> jget (bs_files s') p = jget (bs_files s) p) \<or> compiled E s'
     | Inr _ \<Rightarrow> compiled E s' \<and>
         (\<forall>rel. rel \<noteq> [''.gitkeep''] \<longrightarrow> jget (bs_files s') (outDir E @ rel) =
            jget (sp_after (last (bs_spawned s'))) (temporaryOutDir E @ rel)) \<and>
         (\<exists>m. jget (bs_files s') (outDir E @ [''.gitkeep'']) = Some (File [] m)) \<and>
         (\<forall>p. prefix (temporaryOutDir E) p \<longrightarrow> jget (bs_files s') p = None)"
proof -
  let ?v = "dir_view (outDir E)"
  let ?pre = "st_seq (fs_access E (manifest E)) (st_bind (prepareBuildEnvironment E) (\<lambda>environment.
     st_seq (fs_rm E True (temporaryOutDir E)) (st_seq (fs_mkdir E (temporaryOutDir E)) (compile_core E environment))))"
  have "unchanged ?v ?pre"
    by (intro unchanged_seq unchanged_bind access_elsewhere prepare_elsewhere [OF children tmp] elsewhere [OF temporary_parallel]
        compile_elsewhere [OF children])
  then have pre: "?v s1 = ?v s" if "?pre s = (r1, s1)" for r1 s1 using that by (rule unchangedD)
  have split: "build_wasm E = st_seq ?pre (exchange_package E)"
    by (auto simp: build_wasm_def st_seq_def st_bind_def fun_eq_iff split: prod.splits sum.splits)
  obtain r1 s1 where 1: "?pre s = (r1, s1)" by fastforce
  show ?thesis
  proof (cases r1)
    case (Inl e)
    then have "r = Inl e" "s' = s1" using run 1 by (simp_all add: split st_seq_def [of ?pre] st_bind_def [of ?pre])
    then show ?thesis using dir_viewD [OF pre [OF 1]] by simp
  next
    case (Inr u)
    then have ex: "exchange_package E s1 = (r, s')" using run 1 by (simp add: split st_seq_def [of ?pre] st_bind_def [of ?pre])
    obtain environment s0 where "compile_core E environment s0 = (Inr (), s1)"
      using 1 Inr by (auto simp: st_seq_def st_bind_def split: prod.splits sum.splits)
    note c = compile_compiled [OF this]
    have same: "bs_spawned s' = bs_spawned s1" by (rule unchangedD [OF exchange_spawned ex])
    then have "compiled E s'" using c by (simp add: compiled_def)
    then show ?thesis using exchange_result [of E s1 s'] ex c same by (cases r) auto
  qed
qed

theorem package_exchanged_as_a_whole_witness:
  "jget (bs_files (snd (build_wasm demo_build_env demo_build_start))) [''r'', ''src'', ''wasm'', ''pkg'', ''a''] =
     jget (sp_after (last (bs_spawned (snd (build_wasm demo_build_env demo_build_start))))) [''r'', ''.tmp'', ''wasm-pkg'', ''a'']"
proof -
  have run: "build_wasm demo_build_env demo_build_start = (Inr (), snd (build_wasm demo_build_env demo_build_start))"
    using demo_build_run(1) by (metis prod.collapse)
  have "children_apart demo_build_env" by (auto simp: children_apart_def demo_build_env_def outDir_def)
  moreover have "outDir demo_build_env \<parallel> installer demo_build_env" by (simp add: outDir_def installer_def demo_build_env_def parallel_def)
  ultimately show ?thesis
    using package_exchanged_as_a_whole [OF run] by (simp add: outDir_def temporaryOutDir_def demo_build_env_def)
qed

end
