(* ===== verification/Spec2Isabelle.thy ===== *)
theory Spec2Isabelle
  imports Packet Rooms Replay Secure Legacy RouteState PeerCenter RpcCore Config Messages Connection Rpc Server
    ServerInv ServerEvents ServerRun ServerScenario Admission ServerProps Worker KeyScript BuildScript
begin

unbundle bit_operations_syntax

text \<open>
  A verification of easytier-edge, an EasyTier relay that runs as a Cloudflare Worker with one Durable Object.

  \<^bold>\<open>The program.\<close> Clients connect by WebSocket. \<^verbatim>\<open>src/index.ts\<close> checks the configuration and passes upgrade
  requests to the Durable Object \<open>EasyTierServer\<close> of \<^verbatim>\<open>src/server.ts\<close>. It limits unauthenticated connections, runs
  one of two handshakes (Noise XX with a proof of the network secret, or the legacy plaintext handshake with a
  digest of it), registers the admitted connection in its room, relays frames between the peers of one network and
  answers direct RPC. The RPC driver \<^verbatim>\<open>src/core/rpc.ts\<close> keeps one route synchronisation state per peer and calls the
  WebAssembly core written in Rust under \<^verbatim>\<open>wasm/src\<close>: packet parsing, secure sessions, the legacy cipher, the
  link-state database, the peer center and the reassembly and dispatch of RPC packets.

  \<^bold>\<open>Theories and sources.\<close>
  \<^item> Prelude: bytes, strings, errors as sums, state-passing computations that may throw (\<open>st\<close>) with a Hoare-style
    calculus (\<open>triple\<close>, \<open>unchanged\<close>, \<open>keeps\<close>), and the locale \<open>transition_system\<close> for invariants of reachable states.
  \<^item> Store: JavaScript maps and Rust hash maps as association lists in insertion order (\<open>jget\<close>, \<open>jset\<close>, \<open>jdel\<close>).
  \<^item> Proto: the protobuf messages of \<^verbatim>\<open>protos\<close> as records; the generated encoders (record \<open>codec\<close>) and the
    cryptographic crates (record \<open>crypto\<close>) as arguments.
  \<^item> Packet: \<^verbatim>\<open>src/core/packet.ts\<close>, \<^verbatim>\<open>src/core/constants.ts\<close> and \<^verbatim>\<open>wasm/src/packet.rs\<close>, the two parsers of the frame header.
  \<^item> Rooms: \<^verbatim>\<open>src/runtime/rooms.ts\<close>; its contract is the locale \<open>registry\<close>.
  \<^item> Replay and Secure: \<^verbatim>\<open>wasm/src/secure.rs\<close>, the replay window, the session store, the handshake messages and the
    datagram encryption. Legacy: \<^verbatim>\<open>wasm/src/legacy.rs\<close>.
  \<^item> RouteState: \<^verbatim>\<open>wasm/src/route_state.rs\<close>. PeerCenter: \<^verbatim>\<open>wasm/src/peer_center.rs\<close>. RpcCore: \<^verbatim>\<open>wasm/src/rpc.rs\<close>.
  \<^item> Config: \<^verbatim>\<open>src/core/config.ts\<close>. Messages: \<^verbatim>\<open>src/runtime/messages.ts\<close>. Connection: \<^verbatim>\<open>src/runtime/connection.ts\<close>.
  \<^item> Rpc: \<^verbatim>\<open>src/core/rpc.ts\<close>. Its record \<open>rpc_world\<close> extends the heap of connections \<open>net\<close> of the theory Connection.
  \<^item> Server: \<^verbatim>\<open>src/server.ts\<close>, one definition per method on the record \<open>server\<close>, which extends \<open>rpc_world\<close>; every method
    is a computation that changes this state and may throw. Worker: \<^verbatim>\<open>src/index.ts\<close>.
  \<^item> BuildScript: \<^verbatim>\<open>scripts/build-wasm.mjs\<close>, over a file system whose calls may fail, with a log of the programs it
    starts. KeyScript: \<^verbatim>\<open>scripts/generate-keypair.mjs\<close>.
  \<^item> ServerInv, ServerEvents, ServerRun: the invariant of the server, its preservation by removal, by the message listener and
    by every event, and the transition system \<open>server_step\<close>. The contract between closing, broadcasting and
    removing is the locale \<open>remover\<close>. ServerScenario works out one run in the kernel; Admission shows
    what makes a connection ready; ServerProps states the properties of reachable states.

  \<^bold>\<open>How the server is modelled.\<close> A connection is an object shared by the connection table, the room registry and the RPC
  driver, so connections live in a heap \<open>net_conns\<close> and are named by an identity; a dangling name throws, and the
  invariant shows that it does not occur. JavaScript runs one event to its end, so an event is one step: a
  request, a message, a socket close, the handshake timer, a maintenance round, a finished or failed storage write, a
  change of the socket's state. \<open>enabled\<close> says when an event can occur, \<open>handle_event\<close> what it does. Clock, random draws,
  libraries and storage failures are arguments of an event, so that the properties hold for all of them.

  \<open>close\<close>, \<open>removeConnection\<close> and \<open>broadcastRouteUpdate\<close> call each other: a broadcast that fails closes the peer, which
  broadcasts its removal. \<open>removeConnection\<close> is defined by recursion on a call depth and throws \<open>RangeError\<close> when it is exhausted;
  the calls start with one more than the number of open connections. That is enough because every nested
  removal has taken one connection out of the table before it broadcasts, which is what the interpretation
  \<open>removal\<close> proves.

  \<^bold>\<open>What is shown.\<close> Packet: the two parsers agree where the length arithmetic does not wrap, building and parsing are
  inverse, hop counters bound forwarding. Replay: the bit window implements the set of accepted numbers. Secure: no
  packet before the proof, nonces do not repeat within the epoch bound, a stream of sealed
  datagrams is opened completely, message 3 is checked in full before the identity is pinned, the store is bounded. Legacy:
  the cipher is inverse. RouteState: topology snapshots are
  up to date for all live peers (a departed one may still be listed), updates miss nobody, reports change only their
  sender's state, the sweep leaves no half-open peer. RpcCore: fragments reassemble, reassembly memory is bounded and its
  counters exact, networks do not interfere (but for expired fragments and shared quotas), route ids survive a restart. PeerCenter: the digest short cut
  is sound. Rooms: the registry implements a flat map and a replaced connection cannot evict its successor. Config and
  Messages: accepted values are in range and results are read back. Connection: the outbound rate is bounded over
  every interval. Rpc: requested updates are not lost and stuck ones are retried. Server: every event returns; the
  quotas are exact and bounded; the rooms hold exactly the admitted connections; a connection is admitted only by
  its own message that proves the network secret, and who is admitted has authenticated in the configured mode; an error closes its connection and a handshake that hangs is timed out and gives its slots back; relaying stays in the
  network and reaches the addressee only; a reconnect replaces; the identity survives a restart. The last section
  follows a request from the Worker to the connection table. BuildScript: no unverified installer is started, and the
  package is exchanged as a whole or left alone. KeyScript: the printed keys are accepted by the configuration.

  \<^bold>\<open>What is assumed of other code.\<close> Properties that depend on a library name the behaviour they need as hypotheses: that
  opening inverts sealing, that base64 is the standard one, that keys have 32 bytes. Each has a concrete instance. The
  platform's \<open>WebSocket.send\<close> is taken not to throw on a socket that is open.

  \<^bold>\<open>Not modelled.\<close> The Noise, AEAD, HMAC and protobuf libraries (arguments); the WebAssembly loader and the
  declarations generated by wasm-bindgen and prost, which hold no logic; log output and response headers; the tests and
  the configuration of the test runner; the interleaving of two requests inside the storage calls of
  \<open>initIdentity\<close>, during which no connection exists and every request waits for the same promise.
\<close>

section \<open>Library lemmas\<close>

lemma ensureIdentity_idle:
  assumes "server_ok s" and run: "ensureIdentity E S s = (r, s')"
  shows "srv_connections s' = srv_connections s" "srv_pendingHandshakes s' = srv_pendingHandshakes s" "admin s' = admin s"
proof -
  have idle: "idle (idle_view s) s" using assms(1) by (simp add: idle_def server_ok_def)
  have "idle_view s' = idle_view s \<or> (\<exists>t. idle_view t = idle_view s \<and> s' = t\<lparr>srv_identityReady := True\<rparr>)"
  proof (cases "srv_identityReady s")
    case True
    then show ?thesis using run by (simp add: ensureIdentity_def st_bind_def)
  next
    case False
    obtain r1 t where t: "initIdentity E S s = (r1, t)" by fastforce
    have "idle (idle_view s) t" using initIdentity_idle [of "idle_view s" E S] idle t unfolding keeps_def by (metis snd_conv)
    then show ?thesis using run t False
      by (cases r1) (auto simp: ensureIdentity_def st_bind_def st_seq_def idle_def)
  qed
  then show "srv_connections s' = srv_connections s" "srv_pendingHandshakes s' = srv_pendingHandshakes s" "admin s' = admin s"
    by (auto simp: idle_view_def)
qed

lemma accept_adds:
  "srv_connections (accept_connection sec ip hi lo now s) = srv_connections s @ [fresh_id s]"
  "jget (net_conns (accept_connection sec ip hi lo now s)) (fresh_id s) = Some (createConnection sec ip hi lo now)"
  "srv_pendingHandshakes (accept_connection sec ip hi lo now s) = srv_pendingHandshakes s + 1"
  "srv_identityReady (accept_connection sec ip hi lo now s) = srv_identityReady s"
  by (simp_all add: accept_connection_def scheduleMaintenance_def Let_def)

text \<open>
  C34. From the Worker to the connection table: a request either is answered with 101, and then the configuration is valid,
  the identity is resolved, there was room in both quotas, and exactly one connection was added, in its first
  handshake phase, with its timer running and counted for the client's address; or it is answered with another
  status and no connection and no quota changed.
\<close>

theorem upgrade_adds_one_connection:
  assumes "reachable s" and "worker_fetch env (\<lambda>r. server_fetch E S r hi lo) req s = (resp, s')"
  shows "if hs_status resp = 101
     then is_ok (readServerConfig env) \<and> srv_identityReady s' \<and>
          length (srv_connections s) < 2048 \<and> srv_pendingHandshakes s < 256 \<and>
          srv_pendingHandshakes s' = srv_pendingHandshakes s + 1 \<and>
          (\<exists>cid c. srv_connections s' = srv_connections s @ [cid] \<and> jget (net_conns s) cid = None \<and>
             jget (net_conns s') cid = Some c \<and> cn_phase c = Msg1 \<and> cn_handshakeTimer c \<and>
             cn_clientIp c = (case hq_connecting_ip req of None \<Rightarrow> UNKNOWN_IP | Some ip \<Rightarrow> ip))
     else hs_status resp \<in> {200, 404, 426, 503} \<and> srv_connections s' = srv_connections s \<and>
          srv_pendingHandshakes s' = srv_pendingHandshakes s"
proof -
  have ok: "server_ok s" by (rule reachable_ok [OF assms(1)])
  let ?ip = "case hq_connecting_ip req of None \<Rightarrow> UNKNOWN_IP | Some ip \<Rightarrow> ip"
  obtain r s1 where id: "ensureIdentity E S s = (r, s1)" by fastforce
  note same = ensureIdentity_idle [OF ok id]
  consider (early) "s' = s" "hs_status resp \<in> {200, 404, 426, 503}"
    | (refused) "s' = s1" "hs_status resp = 503"
    | (accepted) sec u where "is_ok (readServerConfig env)" "r = Inr u" "has_capacity ?ip s1" "hs_status resp = 101"
        "s' = accept_connection sec ?ip hi lo (we_now E) s1"
    using assms(2) id
    by (fastforce simp: worker_fetch_def server_fetch_def Let_def response_def is_ok_def split: if_splits sum.splits)
  then show ?thesis
  proof cases
    case accepted
    have ready: "srv_identityReady s1" using ensureIdentity_ok(2) [OF ok id] accepted(2) by blast
    have "admin s1 (fresh_id s1) = None" using fresh_id_new [of s1] by (simp add: admin_def)
    then have new: "jget (net_conns s) (fresh_id s1) = None" using same(3) by (cases "jget (net_conns s) (fresh_id s1)") (auto simp: admin_def)
    show ?thesis
      using accepted ready new same
      by (simp add: accept_adds has_capacity_def MAX_CONNECTIONS_def MAX_PENDING_HANDSHAKES_def createConnection_def)
  qed (use same in auto)
qed

theorem upgrade_adds_one_connection_witness:
  "\<exists>resp s'. worker_fetch (sample_env\<lparr>MAX_FRAME_BYTES := None\<rparr>) (\<lambda>r. server_fetch demo_env demo_storage r 1 2) demo_request demo_start = (resp, s') \<and>
     hs_status resp = 101 \<and> (\<exists>cid. srv_connections s' = [cid])"
proof -
  obtain cfg where "readServerConfig (sample_env\<lparr>MAX_FRAME_BYTES := None\<rparr>) = Inr cfg" by (rule sample_env_accepted)
  then have run: "worker_fetch (sample_env\<lparr>MAX_FRAME_BYTES := None\<rparr>) (\<lambda>r. server_fetch demo_env demo_storage r 1 2) demo_request demo_start
      = (response 101 [], demo_open)"
    using demo_fetch by (simp add: worker_fetch_def demo_request_def websocket_lower) (simp add: ustr_def)
  have "reachable demo_start" by (rule reach_init) (auto simp: fresh_server_def demo_start_def)
  from upgrade_adds_one_connection [OF this run] run show ?thesis
    by (auto simp: response_def demo_start_def new_server_def)
qed

end
